theory Spec2Isabelle
  imports Complex_Main
begin

section \<open>KlattSyn: a shallow embedding of \<^verbatim>\<open>src/Klatt.ts\<close>\<close>

text \<open>
  The repository holds two revisions of \<^verbatim>\<open>Klatt.ts\<close> in one file; the embedding follows the
  later one (the one with the \<^verbatim>\<open>noise\<close> glottal source and the \<^verbatim>\<open>DifferencingFilter\<close> class).
  Every class becomes a record, every method a function on that record, every
  \<^verbatim>\<open>throw\<close> an error value.
\<close>

subsection \<open>JavaScript numbers\<close>

text \<open>
  A JavaScript \<^verbatim>\<open>number\<close> is modelled as an exact real number or one of the three special
  values of IEEE 754 arithmetic. Rounding, overflow and the sign of zero are not modelled
  in the computation of the samples: finite arithmetic is exact there, and a zero is the
  positive zero. The arithmetic that decides the number of samples of a sound
  (\<^verbatim>\<open>generateSound\<close>) is modelled with its rounding, see \<open>toDouble\<close> below. A field that the
  constructor of a class leaves \<^verbatim>\<open>undefined\<close> is modelled as \<open>NaN\<close>, the value that
  \<^verbatim>\<open>undefined\<close> takes in every arithmetic expression.
\<close>

datatype number = NaN | NInf | PInf | Fin real

instantiation number :: "{zero, one, plus, minus, uminus, times, inverse, ord}"
begin

definition zero_number :: number where
  "zero_number = Fin 0"

definition one_number :: number where
  "one_number = Fin 1"

fun plus_number :: "number \<Rightarrow> number \<Rightarrow> number" where
  "plus_number NaN y = NaN"
| "plus_number x NaN = NaN"
| "plus_number PInf NInf = NaN"
| "plus_number NInf PInf = NaN"
| "plus_number PInf y = PInf"
| "plus_number x PInf = PInf"
| "plus_number NInf y = NInf"
| "plus_number x NInf = NInf"
| "plus_number (Fin u) (Fin v) = Fin (u + v)"

fun uminus_number :: "number \<Rightarrow> number" where
  "uminus_number NaN = NaN"
| "uminus_number NInf = PInf"
| "uminus_number PInf = NInf"
| "uminus_number (Fin u) = Fin (- u)"

definition minus_number :: "number \<Rightarrow> number \<Rightarrow> number" where
  "minus_number x y = x + (- y)"

fun times_number :: "number \<Rightarrow> number \<Rightarrow> number" where
  "times_number NaN y = NaN"
| "times_number x NaN = NaN"
| "times_number PInf PInf = PInf"
| "times_number PInf NInf = NInf"
| "times_number NInf PInf = NInf"
| "times_number NInf NInf = PInf"
| "times_number PInf (Fin v) = (if v = 0 then NaN else if 0 < v then PInf else NInf)"
| "times_number NInf (Fin v) = (if v = 0 then NaN else if 0 < v then NInf else PInf)"
| "times_number (Fin u) PInf = (if u = 0 then NaN else if 0 < u then PInf else NInf)"
| "times_number (Fin u) NInf = (if u = 0 then NaN else if 0 < u then NInf else PInf)"
| "times_number (Fin u) (Fin v) = Fin (u * v)"

fun divide_number :: "number \<Rightarrow> number \<Rightarrow> number" where
  "divide_number NaN y = NaN"
| "divide_number x NaN = NaN"
| "divide_number PInf PInf = NaN"
| "divide_number PInf NInf = NaN"
| "divide_number NInf PInf = NaN"
| "divide_number NInf NInf = NaN"
| "divide_number PInf (Fin v) = (if 0 \<le> v then PInf else NInf)"
| "divide_number NInf (Fin v) = (if 0 \<le> v then NInf else PInf)"
| "divide_number (Fin u) PInf = Fin 0"
| "divide_number (Fin u) NInf = Fin 0"
| "divide_number (Fin u) (Fin v) =
     (if v = 0 then (if u = 0 then NaN else if 0 < u then PInf else NInf) else Fin (u / v))"

definition inverse_number :: "number \<Rightarrow> number" where
  "inverse_number x = Fin 1 div x"

fun less_eq_number :: "number \<Rightarrow> number \<Rightarrow> bool" where
  "less_eq_number NaN y = False"
| "less_eq_number x NaN = False"
| "less_eq_number NInf y = True"
| "less_eq_number x PInf = True"
| "less_eq_number PInf y = False"
| "less_eq_number x NInf = False"
| "less_eq_number (Fin u) (Fin v) = (u \<le> v)"

fun less_number :: "number \<Rightarrow> number \<Rightarrow> bool" where
  "less_number NaN y = False"
| "less_number x NaN = False"
| "less_number PInf y = False"
| "less_number x NInf = False"
| "less_number NInf y = True"
| "less_number x PInf = True"
| "less_number (Fin u) (Fin v) = (u < v)"

instance ..

end

text \<open>\<^verbatim>\<open>x == y\<close> on numbers: \<^verbatim>\<open>NaN\<close> is equal to nothing, itself included.\<close>

definition js_eq :: "number \<Rightarrow> number \<Rightarrow> bool" where
  "js_eq x y = (x \<noteq> NaN \<and> y \<noteq> NaN \<and> x = y)"

text \<open>The truth value of a number in a condition: \<^verbatim>\<open>0\<close> and \<^verbatim>\<open>NaN\<close> are false.\<close>

definition truthy :: "number \<Rightarrow> bool" where
  "truthy x = (x \<noteq> NaN \<and> x \<noteq> Fin 0)"

fun isNaN :: "number \<Rightarrow> bool" where
  "isNaN NaN = True"
| "isNaN x = False"

fun isFinite :: "number \<Rightarrow> bool" where
  "isFinite (Fin u) = True"
| "isFinite x = False"

definition Math_PI :: number where
  "Math_PI = Fin pi"

text \<open>\<^verbatim>\<open>Math.round\<close> rounds to the nearest integer, a tie towards \<open>+\<infinity>\<close>.\<close>

fun Math_round :: "number \<Rightarrow> number" where
  "Math_round (Fin u) = Fin (of_int \<lfloor>u + 1 / 2\<rfloor>)"
| "Math_round x = x"

fun Math_exp :: "number \<Rightarrow> number" where
  "Math_exp NaN = NaN"
| "Math_exp NInf = Fin 0"
| "Math_exp PInf = PInf"
| "Math_exp (Fin u) = Fin (exp u)"

fun Math_cos :: "number \<Rightarrow> number" where
  "Math_cos (Fin u) = Fin (cos u)"
| "Math_cos x = NaN"

fun Math_sin :: "number \<Rightarrow> number" where
  "Math_sin (Fin u) = Fin (sin u)"
| "Math_sin x = NaN"

fun Math_sqrt :: "number \<Rightarrow> number" where
  "Math_sqrt NaN = NaN"
| "Math_sqrt NInf = NaN"
| "Math_sqrt PInf = PInf"
| "Math_sqrt (Fin u) = (if u < 0 then NaN else Fin (sqrt u))"

text \<open>
  \<^verbatim>\<open>Math.pow\<close> and the operator \<^verbatim>\<open>**\<close>, case by case as ECMAScript's
  \<^verbatim>\<open>Number::exponentiate\<close> lists them.
\<close>

definition is_odd_integer :: "real \<Rightarrow> bool" where
  "is_odd_integer v = (of_int \<lfloor>v\<rfloor> = v \<and> odd \<lfloor>v\<rfloor>)"

fun Math_pow :: "number \<Rightarrow> number \<Rightarrow> number" where
  "Math_pow x NaN = NaN"
| "Math_pow NaN (Fin v) = (if v = 0 then Fin 1 else NaN)"
| "Math_pow NaN y = NaN"
| "Math_pow PInf PInf = PInf"
| "Math_pow PInf NInf = Fin 0"
| "Math_pow PInf (Fin v) = (if v = 0 then Fin 1 else if 0 < v then PInf else Fin 0)"
| "Math_pow NInf PInf = PInf"
| "Math_pow NInf NInf = Fin 0"
| "Math_pow NInf (Fin v) =
     (if v = 0 then Fin 1
      else if 0 < v then (if is_odd_integer v then NInf else PInf)
      else Fin 0)"
| "Math_pow (Fin u) PInf =
     (if 1 < \<bar>u\<bar> then PInf else if \<bar>u\<bar> = 1 then NaN else Fin 0)"
| "Math_pow (Fin u) NInf =
     (if 1 < \<bar>u\<bar> then Fin 0 else if \<bar>u\<bar> = 1 then NaN else PInf)"
| "Math_pow (Fin u) (Fin v) =
     (if v = 0 then Fin 1
      else if u = 0 then (if 0 < v then Fin 0 else PInf)
      else if 0 < u then Fin (u powr v)
      else if of_int \<lfloor>v\<rfloor> = v then Fin (u powi \<lfloor>v\<rfloor>)
      else NaN)"

subsection \<open>Errors and outcomes of mutating methods\<close>

datatype error =
    InvalidFilterParameters
  | InvalidResonatorParameters
  | InvalidAntiResonatorParameters
  | InvalidResonatorPeakGain
  | FrameParmsReused
  | UndefinedGlottalSourceType
  | RangeError
  | TypeError

text \<open>
  A method that mutates its object and may throw returns the object as it is when the
  method ends, together with the error thrown, if any.
\<close>

type_synonym 's outcome = "error option \<times> 's"

definition andThen :: "'s outcome \<Rightarrow> ('s \<Rightarrow> 's outcome) \<Rightarrow> 's outcome" where
  "andThen r f = (case r of (None, s) \<Rightarrow> f s | (Some e, s) \<Rightarrow> (Some e, s))"

text \<open>A \<^verbatim>\<open>for\<close> loop over the indices \<open>is\<close> whose body may throw.\<close>

fun forEach :: "nat list \<Rightarrow> (nat \<Rightarrow> 's \<Rightarrow> 's outcome) \<Rightarrow> 's \<Rightarrow> 's outcome" where
  "forEach [] body s = (None, s)"
| "forEach (i # is) body s = andThen (body i s) (forEach is body)"

text \<open>Statements one after the other, each of which may throw; an assignment never throws.\<close>

fun sequence :: "('s \<Rightarrow> 's outcome) list \<Rightarrow> 's \<Rightarrow> 's outcome" where
  "sequence [] s = (None, s)"
| "sequence (m # ms) s = andThen (m s) (sequence ms)"

definition assign :: "('s \<Rightarrow> 's) \<Rightarrow> 's \<Rightarrow> 's outcome" where
  "assign f s = (None, f s)"

subsection \<open>Filters\<close>

text \<open>A first-order IIR low-pass filter (class \<^verbatim>\<open>LpFilter1\<close>).\<close>

record LpFilter1 =
  lp_sampleRate :: number
  lp_a :: number
  lp_b :: number
  lp_y1 :: number
  lp_passthrough :: bool
  lp_muted :: bool

definition LpFilter1_new :: "number \<Rightarrow> LpFilter1" where
  "LpFilter1_new sampleRate =
     \<lparr>lp_sampleRate = sampleRate, lp_a = NaN, lp_b = NaN, lp_y1 = 0,
      lp_passthrough = True, lp_muted = False\<rparr>"

definition LpFilter1_set :: "number \<Rightarrow> number \<Rightarrow> number \<Rightarrow> LpFilter1 \<Rightarrow> LpFilter1 outcome" where
  "LpFilter1_set f g extraGain this =
     (if f \<le> 0 \<or> f \<ge> lp_sampleRate this / Fin 2 \<or> g \<le> 0 \<or> g \<ge> 1
         \<or> \<not> isFinite f \<or> \<not> isFinite g \<or> \<not> isFinite extraGain
      then (Some InvalidFilterParameters, this)
      else
        let w = Fin 2 * Math_PI * f / lp_sampleRate this;
            q = (1 - Math_pow g (Fin 2) * Math_cos w) / (1 - Math_pow g (Fin 2));
            b = q - Math_sqrt (Math_pow q (Fin 2) - 1);
            a = (1 - b) * extraGain
        in (None, this\<lparr>lp_b := b, lp_a := a, lp_passthrough := False, lp_muted := False\<rparr>))"

definition LpFilter1_setPassthrough :: "LpFilter1 \<Rightarrow> LpFilter1" where
  "LpFilter1_setPassthrough this = this\<lparr>lp_passthrough := True, lp_muted := False, lp_y1 := 0\<rparr>"

definition LpFilter1_setMute :: "LpFilter1 \<Rightarrow> LpFilter1" where
  "LpFilter1_setMute this = this\<lparr>lp_passthrough := False, lp_muted := True, lp_y1 := 0\<rparr>"

definition LpFilter1_step :: "number \<Rightarrow> LpFilter1 \<Rightarrow> number \<times> LpFilter1" where
  "LpFilter1_step x this =
     (if lp_passthrough this then (x, this)
      else if lp_muted this then (0, this)
      else let y = lp_a this * x + lp_b this * lp_y1 this in (y, this\<lparr>lp_y1 := y\<rparr>))"

text \<open>A Klatt resonator, a second-order IIR filter (class \<^verbatim>\<open>Resonator\<close>).\<close>

record Resonator =
  re_sampleRate :: number
  re_a :: number
  re_b :: number
  re_c :: number
  re_y1 :: number
  re_y2 :: number
  re_r :: number
  re_passthrough :: bool
  re_muted :: bool

definition Resonator_new :: "number \<Rightarrow> Resonator" where
  "Resonator_new sampleRate =
     \<lparr>re_sampleRate = sampleRate, re_a = NaN, re_b = NaN, re_c = NaN, re_y1 = 0, re_y2 = 0,
      re_r = NaN, re_passthrough = True, re_muted = False\<rparr>"

definition Resonator_set :: "number \<Rightarrow> number \<Rightarrow> number \<Rightarrow> Resonator \<Rightarrow> Resonator outcome" where
  "Resonator_set f bw dcGain this =
     (if f < 0 \<or> f \<ge> re_sampleRate this / Fin 2 \<or> bw \<le> 0 \<or> dcGain \<le> 0
         \<or> \<not> isFinite f \<or> \<not> isFinite bw \<or> \<not> isFinite dcGain
      then (Some InvalidResonatorParameters, this)
      else
        let r = Math_exp ((- Math_PI) * bw / re_sampleRate this);
            w = Fin 2 * Math_PI * f / re_sampleRate this;
            c = - (Math_pow r (Fin 2));
            b = Fin 2 * r * Math_cos w;
            a = (1 - b - c) * dcGain
        in (None, this\<lparr>re_r := r, re_c := c, re_b := b, re_a := a,
                         re_passthrough := False, re_muted := False\<rparr>))"

definition Resonator_setPassthrough :: "Resonator \<Rightarrow> Resonator" where
  "Resonator_setPassthrough this =
     this\<lparr>re_passthrough := True, re_muted := False, re_y1 := 0, re_y2 := 0\<rparr>"

definition Resonator_setMute :: "Resonator \<Rightarrow> Resonator" where
  "Resonator_setMute this =
     this\<lparr>re_passthrough := False, re_muted := True, re_y1 := 0, re_y2 := 0\<rparr>"

definition adjustImpulseGain :: "number \<Rightarrow> Resonator \<Rightarrow> Resonator outcome" where
  "adjustImpulseGain newA this = (None, this\<lparr>re_a := newA\<rparr>)"

definition adjustPeakGain :: "number \<Rightarrow> Resonator \<Rightarrow> Resonator outcome" where
  "adjustPeakGain peakGain this =
     (if peakGain \<le> 0 \<or> \<not> isFinite peakGain then (Some InvalidResonatorPeakGain, this)
      else (None, this\<lparr>re_a := peakGain * (1 - re_r this)\<rparr>))"

definition Resonator_step :: "number \<Rightarrow> Resonator \<Rightarrow> number \<times> Resonator" where
  "Resonator_step x this =
     (if re_passthrough this then (x, this)
      else if re_muted this then (0, this)
      else let y = re_a this * x + re_b this * re_y1 this + re_c this * re_y2 this
           in (y, this\<lparr>re_y2 := re_y1 this, re_y1 := y\<rparr>))"

text \<open>A Klatt anti-resonator, a second-order FIR filter (class \<^verbatim>\<open>AntiResonator\<close>).\<close>

record AntiResonator =
  ar_sampleRate :: number
  ar_a :: number
  ar_b :: number
  ar_c :: number
  ar_x1 :: number
  ar_x2 :: number
  ar_passthrough :: bool
  ar_muted :: bool

definition AntiResonator_new :: "number \<Rightarrow> AntiResonator" where
  "AntiResonator_new sampleRate =
     \<lparr>ar_sampleRate = sampleRate, ar_a = NaN, ar_b = NaN, ar_c = NaN, ar_x1 = 0, ar_x2 = 0,
      ar_passthrough = True, ar_muted = False\<rparr>"

text \<open>The coefficient \<^verbatim>\<open>a0\<close> that \<^verbatim>\<open>AntiResonator.set\<close> derives from \<open>f\<close> and \<open>bw\<close>.\<close>

definition AntiResonator_c0 :: "number \<Rightarrow> number \<Rightarrow> AntiResonator \<Rightarrow> number" where
  "AntiResonator_c0 f bw this =
     (let r = Math_exp ((- Math_PI) * bw / ar_sampleRate this) in - (r * r))"

definition AntiResonator_b0 :: "number \<Rightarrow> number \<Rightarrow> AntiResonator \<Rightarrow> number" where
  "AntiResonator_b0 f bw this =
     (let r = Math_exp ((- Math_PI) * bw / ar_sampleRate this);
          w = Fin 2 * Math_PI * f / ar_sampleRate this
      in Fin 2 * r * Math_cos w)"

definition AntiResonator_a0 :: "number \<Rightarrow> number \<Rightarrow> AntiResonator \<Rightarrow> number" where
  "AntiResonator_a0 f bw this = 1 - AntiResonator_b0 f bw this - AntiResonator_c0 f bw this"

definition AntiResonator_set :: "number \<Rightarrow> number \<Rightarrow> AntiResonator \<Rightarrow> AntiResonator outcome" where
  "AntiResonator_set f bw this =
     (if f \<le> 0 \<or> f \<ge> ar_sampleRate this / Fin 2 \<or> bw \<le> 0 \<or> \<not> isFinite f \<or> \<not> isFinite bw
      then (Some InvalidAntiResonatorParameters, this)
      else
        let c0 = AntiResonator_c0 f bw this;
            b0 = AntiResonator_b0 f bw this;
            a0 = AntiResonator_a0 f bw this
        in if js_eq a0 0
           then (None, this\<lparr>ar_a := 0, ar_b := 0, ar_c := 0\<rparr>)
           else (None, this\<lparr>ar_a := 1 / a0, ar_b := (- b0) / a0, ar_c := (- c0) / a0,
                            ar_passthrough := False, ar_muted := False\<rparr>))"

definition AntiResonator_setPassthrough :: "AntiResonator \<Rightarrow> AntiResonator" where
  "AntiResonator_setPassthrough this =
     this\<lparr>ar_passthrough := True, ar_muted := False, ar_x1 := 0, ar_x2 := 0\<rparr>"

definition AntiResonator_setMute :: "AntiResonator \<Rightarrow> AntiResonator" where
  "AntiResonator_setMute this =
     this\<lparr>ar_passthrough := False, ar_muted := True, ar_x1 := 0, ar_x2 := 0\<rparr>"

definition AntiResonator_step :: "number \<Rightarrow> AntiResonator \<Rightarrow> number \<times> AntiResonator" where
  "AntiResonator_step x this =
     (if ar_passthrough this then (x, this)
      else if ar_muted this then (0, this)
      else let y = ar_a this * x + ar_b this * ar_x1 this + ar_c this * ar_x2 this
           in (y, this\<lparr>ar_x2 := ar_x1 this, ar_x1 := x\<rparr>))"

text \<open>The differencing filter (class \<^verbatim>\<open>DifferencingFilter\<close>).\<close>

record DifferencingFilter =
  df_x1 :: number

definition DifferencingFilter_new :: DifferencingFilter where
  "DifferencingFilter_new = \<lparr>df_x1 = 0\<rparr>"

definition DifferencingFilter_step :: "number \<Rightarrow> DifferencingFilter \<Rightarrow> number \<times> DifferencingFilter" where
  "DifferencingFilter_step x this = (let y = x - df_x1 this in (y, this\<lparr>df_x1 := x\<rparr>))"

subsection \<open>Noise sources\<close>

text \<open>
  \<^verbatim>\<open>Math.random\<close> is the platform's generator: the model reads its values from a
  sequence, \<open>draws\<close>, and counts how many have been \<open>drawn\<close>.
\<close>

record Random =
  draws :: "nat \<Rightarrow> real"
  drawn :: nat

definition Math_random :: "Random \<Rightarrow> number \<times> Random" where
  "Math_random s = (Fin (draws s (drawn s)), s\<lparr>drawn := Suc (drawn s)\<rparr>)"

definition getWhiteNoise :: "Random \<Rightarrow> number \<times> Random" where
  "getWhiteNoise s = (let (u, s') = Math_random s in (u * Fin 2 - 1, s'))"

record LpNoiseSource =
  ns_lpFilter :: LpFilter1

text \<open>The gain at 1000 Hz that the constructor of \<^verbatim>\<open>LpNoiseSource\<close> computes.\<close>

definition LpNoiseSource_g :: number where
  "LpNoiseSource_g =
     (let oldB = Fin 0.75; oldSampleRate = Fin 10000; f = Fin 1000
      in (1 - oldB) /
         Math_sqrt (1 - Fin 2 * oldB * Math_cos (Fin 2 * Math_PI * f / oldSampleRate)
                    + Math_pow oldB (Fin 2)))"

definition LpNoiseSource_new :: "number \<Rightarrow> error + LpNoiseSource" where
  "LpNoiseSource_new sampleRate =
     (let f = Fin 1000;
          g = LpNoiseSource_g;
          extraGain = Fin 2.5 * Math_pow (sampleRate / Fin 10000) (Fin 0.33)
      in case LpFilter1_set f g extraGain (LpFilter1_new sampleRate) of
           (Some e, flt) \<Rightarrow> Inl e
         | (None, flt) \<Rightarrow> Inr \<lparr>ns_lpFilter = flt\<rparr>)"

definition LpNoiseSource_getNext :: "LpNoiseSource \<Rightarrow> Random \<Rightarrow> number \<times> LpNoiseSource \<times> Random" where
  "LpNoiseSource_getNext this s =
     (let (x, s') = getWhiteNoise s;
          (y, flt) = LpFilter1_step x (ns_lpFilter this)
      in (y, this\<lparr>ns_lpFilter := flt\<rparr>, s'))"

subsection \<open>Glottal sources\<close>

record ImpulsiveGlottalSource =
  ig_sampleRate :: number
  ig_resonator :: "Resonator option"
  ig_positionInPeriod :: number

definition ImpulsiveGlottalSource_new :: "number \<Rightarrow> ImpulsiveGlottalSource" where
  "ImpulsiveGlottalSource_new sampleRate =
     \<lparr>ig_sampleRate = sampleRate, ig_resonator = None, ig_positionInPeriod = NaN\<rparr>"

definition ImpulsiveGlottalSource_startPeriod ::
    "number \<Rightarrow> ImpulsiveGlottalSource \<Rightarrow> ImpulsiveGlottalSource outcome" where
  "ImpulsiveGlottalSource_startPeriod openPhaseLength this =
     (if \<not> truthy openPhaseLength then (None, this\<lparr>ig_resonator := None\<rparr>)
      else
        let res = (case ig_resonator this of None \<Rightarrow> Resonator_new (ig_sampleRate this)
                                            | Some res \<Rightarrow> res);
            bw = ig_sampleRate this / openPhaseLength
        in case Resonator_set 0 bw 1 res of
             (Some e, res') \<Rightarrow> (Some e, this\<lparr>ig_resonator := Some res'\<rparr>)
           | (None, res') \<Rightarrow>
               (case adjustImpulseGain 1 res' of
                  (Some e, res'') \<Rightarrow> (Some e, this\<lparr>ig_resonator := Some res''\<rparr>)
                | (None, res'') \<Rightarrow>
                    (None, this\<lparr>ig_resonator := Some res'', ig_positionInPeriod := 0\<rparr>)))"

definition ImpulsiveGlottalSource_getNext ::
    "ImpulsiveGlottalSource \<Rightarrow> number \<times> ImpulsiveGlottalSource" where
  "ImpulsiveGlottalSource_getNext this =
     (case ig_resonator this of
        None \<Rightarrow> (0, this)
      | Some res \<Rightarrow>
          let pulse = (if js_eq (ig_positionInPeriod this) 1 then 1
                       else if js_eq (ig_positionInPeriod this) (Fin 2) then - 1 else 0);
              (y, res') = Resonator_step pulse res
          in (y, this\<lparr>ig_positionInPeriod := ig_positionInPeriod this + 1,
                      ig_resonator := Some res'\<rparr>))"

record NaturalGlottalSource =
  ng_x :: number
  ng_a :: number
  ng_b :: number
  ng_openPhaseLength :: number
  ng_positionInPeriod :: number

definition NaturalGlottalSource_startPeriod ::
    "number \<Rightarrow> NaturalGlottalSource \<Rightarrow> NaturalGlottalSource" where
  "NaturalGlottalSource_startPeriod openPhaseLength this =
     (let amplification = Fin 5;
          b = (- amplification) / Math_pow openPhaseLength (Fin 2);
          a = (- b) * openPhaseLength / Fin 3
      in this\<lparr>ng_openPhaseLength := openPhaseLength, ng_x := 0, ng_b := b, ng_a := a,
              ng_positionInPeriod := 0\<rparr>)"

definition NaturalGlottalSource_new :: NaturalGlottalSource where
  "NaturalGlottalSource_new =
     NaturalGlottalSource_startPeriod 0
       \<lparr>ng_x = NaN, ng_a = NaN, ng_b = NaN, ng_openPhaseLength = NaN, ng_positionInPeriod = NaN\<rparr>"

definition NaturalGlottalSource_getNext ::
    "NaturalGlottalSource \<Rightarrow> number \<times> NaturalGlottalSource" where
  "NaturalGlottalSource_getNext this =
     (let pos = ng_positionInPeriod this;
          this1 = this\<lparr>ng_positionInPeriod := pos + 1\<rparr>
      in if pos \<ge> ng_openPhaseLength this then (0, this1\<lparr>ng_x := 0\<rparr>)
         else let a = ng_a this1 + ng_b this1;
                  x = ng_x this1 + a
              in (x, this1\<lparr>ng_a := a, ng_x := x\<rparr>))"

subsection \<open>Frequency modulation and decibels\<close>

definition performFrequencyModulation :: "number \<Rightarrow> number \<Rightarrow> number \<Rightarrow> number" where
  "performFrequencyModulation f0 flutterLevel time =
     (if flutterLevel \<le> 0 then f0
      else
        let w = Fin 2 * Math_PI * time;
            a = Math_sin (Fin 12.7 * w) + Math_sin (Fin 7.1 * w) + Math_sin (Fin 4.7 * w)
        in f0 * (1 + a * flutterLevel / Fin 50))"

definition dbToLin :: "number \<Rightarrow> number" where
  "dbToLin db = (if db \<le> Fin (- 99) \<or> isNaN db then 0 else Math_pow (Fin 10) (db / Fin 20))"

subsection \<open>Parameters and state of the generator\<close>

text \<open>
  \<^verbatim>\<open>GlottalSourceType\<close> is a numeric \<^verbatim>\<open>const enum\<close>; at run time any number can stand
  in its place, so the model keeps the number.
\<close>

type_synonym GlottalSourceType = nat

definition impulsive :: GlottalSourceType where "impulsive = 0"
definition natural :: GlottalSourceType where "natural = 1"
definition noise :: GlottalSourceType where "noise = 2"

definition maxOralFormants :: nat where
  "maxOralFormants = 6"

record MainParms =
  sampleRate :: number
  glottalSourceType :: GlottalSourceType

record FrameParms =
  duration :: number
  f0 :: number
  flutterLevel :: number
  openPhaseRatio :: number
  breathinessDb :: number
  tiltDb :: number
  gainDb :: number
  nasalFormantFreq :: number
  nasalFormantBw :: number
  oralFormantFreq :: "number list"
  oralFormantBw :: "number list"
  cascadeEnabled :: bool
  cascadeVoicingDb :: number
  cascadeAspirationDb :: number
  cascadeAspirationMod :: number
  nasalAntiformantFreq :: number
  nasalAntiformantBw :: number
  parallelEnabled :: bool
  parallelVoicingDb :: number
  parallelAspirationDb :: number
  parallelAspirationMod :: number
  fricationDb :: number
  fricationMod :: number
  parallelBypassDb :: number
  nasalFormantDb :: number
  oralFormantDb :: "number list"

text \<open>
  \<^verbatim>\<open>generateFrame\<close> compares \<^verbatim>\<open>FrameParms\<close> objects by identity, so the generator holds
  references, and a heap gives the object behind each reference. The generator never
  writes to a \<^verbatim>\<open>FrameParms\<close> object.
\<close>

type_synonym FrameParmsRef = nat
type_synonym heap = "FrameParmsRef \<Rightarrow> FrameParms"

record FrameState =
  breathinessLin :: number
  gainLin :: number
  cascadeVoicingLin :: number
  cascadeAspirationLin :: number
  parallelVoicingLin :: number
  parallelAspirationLin :: number
  fricationLin :: number
  parallelBypassLin :: number

text \<open>
  The field \<^verbatim>\<open>f0\<close> of \<^verbatim>\<open>PeriodState\<close> is named \<open>periodF0\<close> here; its field
  \<^verbatim>\<open>lpNoise\<close> is never written nor read and is left out.
\<close>

record PeriodState =
  periodF0 :: number
  periodLength :: number
  openPhaseLength :: number
  positionInPeriod :: number

text \<open>The closure stored in \<^verbatim>\<open>Generator.glottalSource\<close>.\<close>

datatype GlottalSourceFn = ImpulsiveGetNext | NaturalGetNext | GetWhiteNoise

record Generator =
  mParms :: MainParms
  fParms :: "FrameParmsRef option"
  newFParms :: "FrameParmsRef option"
  fState :: FrameState
  pState :: "PeriodState option"
  absPosition :: number
  tiltFilter :: LpFilter1
  outputLpFilter :: Resonator
  flutterTimeOffset :: number
  impulsiveGSource :: "ImpulsiveGlottalSource option"
  naturalGSource :: "NaturalGlottalSource option"
  glottalSource :: GlottalSourceFn
  aspirationSourceCasc :: LpNoiseSource
  aspirationSourcePar :: LpNoiseSource
  fricationSourcePar :: LpNoiseSource
  nasalFormantCasc :: Resonator
  nasalAntiformantCasc :: AntiResonator
  oralFormantCasc :: "Resonator list"
  nasalFormantPar :: Resonator
  oralFormantPar :: "Resonator list"
  differencingFilterPar :: DifferencingFilter
  random :: Random

subsection \<open>Binding frame parameters to filters\<close>

definition setTiltFilter :: "number \<Rightarrow> LpFilter1 \<Rightarrow> LpFilter1 outcome" where
  "setTiltFilter db flt =
     (if \<not> truthy db then (None, LpFilter1_setPassthrough flt)
      else LpFilter1_set (Fin 3000) (dbToLin (- db)) 1 flt)"

definition setNasalFormantCasc :: "FrameParms \<Rightarrow> Resonator \<Rightarrow> Resonator outcome" where
  "setNasalFormantCasc fp res =
     (if truthy (nasalFormantFreq fp) \<and> truthy (nasalFormantBw fp)
      then Resonator_set (nasalFormantFreq fp) (nasalFormantBw fp) 1 res
      else (None, Resonator_setPassthrough res))"

definition setNasalAntiformantCasc :: "FrameParms \<Rightarrow> AntiResonator \<Rightarrow> AntiResonator outcome" where
  "setNasalAntiformantCasc fp ares =
     (if truthy (nasalAntiformantFreq fp) \<and> truthy (nasalAntiformantBw fp)
      then AntiResonator_set (nasalAntiformantFreq fp) (nasalAntiformantBw fp) ares
      else (None, AntiResonator_setPassthrough ares))"

text \<open>\<^verbatim>\<open>(i < a.length) ? a[i] : NaN\<close>\<close>

definition elemOrNaN :: "number list \<Rightarrow> nat \<Rightarrow> number" where
  "elemOrNaN a i = (if i < length a then a ! i else NaN)"

definition setOralFormantCasc :: "FrameParms \<Rightarrow> nat \<Rightarrow> Resonator \<Rightarrow> Resonator outcome" where
  "setOralFormantCasc fp i res =
     (let f = elemOrNaN (oralFormantFreq fp) i;
          bw = elemOrNaN (oralFormantBw fp) i
      in if truthy f \<and> truthy bw then Resonator_set f bw 1 res
         else (None, Resonator_setPassthrough res))"

definition setNasalFormantPar :: "FrameParms \<Rightarrow> Resonator \<Rightarrow> Resonator outcome" where
  "setNasalFormantPar fp res =
     (if truthy (nasalFormantFreq fp) \<and> truthy (nasalFormantBw fp)
         \<and> truthy (dbToLin (nasalFormantDb fp))
      then andThen (Resonator_set (nasalFormantFreq fp) (nasalFormantBw fp) 1 res)
             (adjustPeakGain (dbToLin (nasalFormantDb fp)))
      else (None, Resonator_setMute res))"

definition setOralFormantPar :: "MainParms \<Rightarrow> FrameParms \<Rightarrow> nat \<Rightarrow> Resonator \<Rightarrow> Resonator outcome" where
  "setOralFormantPar mp fp i res =
     (let formant = i + 1;
          f = elemOrNaN (oralFormantFreq fp) i;
          bw = elemOrNaN (oralFormantBw fp) i;
          db = elemOrNaN (oralFormantDb fp) i;
          peakGain = dbToLin db
      in if truthy f \<and> truthy bw \<and> truthy peakGain
         then andThen (Resonator_set f bw 1 res)
                (\<lambda>res'.
                   let w = Fin 2 * Math_PI * f / sampleRate mp;
                       diffGain = Math_sqrt (Fin 2 - Fin 2 * Math_cos w);
                       filterGain = (if formant \<ge> 2 then peakGain / diffGain else peakGain)
                   in adjustPeakGain filterGain res')
         else (None, Resonator_setMute res))"

text \<open>
  A method called on a field of the generator, and on an element of one of its arrays
  (an index outside the array gives \<^verbatim>\<open>undefined\<close>, and the call a \<^verbatim>\<open>TypeError\<close>).
\<close>

definition onField :: "('s \<Rightarrow> 'a) \<Rightarrow> ('a \<Rightarrow> 's \<Rightarrow> 's) \<Rightarrow> ('a \<Rightarrow> 'a outcome) \<Rightarrow> 's \<Rightarrow> 's outcome" where
  "onField get put m this = (case m (get this) of (e, x) \<Rightarrow> (e, put x this))"

definition onElem ::
    "('s \<Rightarrow> 'a list) \<Rightarrow> ('a list \<Rightarrow> 's \<Rightarrow> 's) \<Rightarrow> nat \<Rightarrow> ('a \<Rightarrow> 'a outcome) \<Rightarrow> 's \<Rightarrow> 's outcome" where
  "onElem get put i m this =
     (if i < length (get this)
      then (case m (get this ! i) of (e, x) \<Rightarrow> (e, put ((get this)[i := x]) this))
      else (Some TypeError, this))"

definition startUsingNewFrameParameters :: "heap \<Rightarrow> Generator \<Rightarrow> Generator outcome" where
  "startUsingNewFrameParameters H this =
     (case fParms this of
        None \<Rightarrow> (Some TypeError, this)
      | Some r \<Rightarrow>
          let fp = H r;
              mp = mParms this
          in sequence
               [assign (\<lambda>s. s\<lparr>fState := (fState s)
                           \<lparr>breathinessLin := dbToLin (breathinessDb fp),
                            gainLin := dbToLin (gainDb fp)\<rparr>\<rparr>),
                onField tiltFilter (\<lambda>x s. s\<lparr>tiltFilter := x\<rparr>) (setTiltFilter (tiltDb fp)),
                assign (\<lambda>s. s\<lparr>fState := (fState s)
                           \<lparr>cascadeVoicingLin := dbToLin (cascadeVoicingDb fp),
                            cascadeAspirationLin := dbToLin (cascadeAspirationDb fp)\<rparr>\<rparr>),
                onField nasalFormantCasc (\<lambda>x s. s\<lparr>nasalFormantCasc := x\<rparr>)
                  (setNasalFormantCasc fp),
                onField nasalAntiformantCasc (\<lambda>x s. s\<lparr>nasalAntiformantCasc := x\<rparr>)
                  (setNasalAntiformantCasc fp),
                forEach [0..<maxOralFormants]
                  (\<lambda>i. onElem oralFormantCasc (\<lambda>x s. s\<lparr>oralFormantCasc := x\<rparr>) i
                         (setOralFormantCasc fp i)),
                assign (\<lambda>s. s\<lparr>fState := (fState s)
                           \<lparr>parallelVoicingLin := dbToLin (parallelVoicingDb fp),
                            parallelAspirationLin := dbToLin (parallelAspirationDb fp),
                            fricationLin := dbToLin (fricationDb fp),
                            parallelBypassLin := dbToLin (parallelBypassDb fp)\<rparr>\<rparr>),
                onField nasalFormantPar (\<lambda>x s. s\<lparr>nasalFormantPar := x\<rparr>)
                  (setNasalFormantPar fp),
                forEach [0..<maxOralFormants]
                  (\<lambda>i. onElem oralFormantPar (\<lambda>x s. s\<lparr>oralFormantPar := x\<rparr>) i
                         (setOralFormantPar mp fp i))]
               this)"

subsection \<open>The glottal source of the generator\<close>

text \<open>
  \<^verbatim>\<open>initGlottalSource\<close> runs inside the constructor; the model returns the three fields
  it assigns (\<^verbatim>\<open>impulsiveGSource\<close>, \<^verbatim>\<open>naturalGSource\<close>, \<^verbatim>\<open>glottalSource\<close>).
\<close>

definition initGlottalSource ::
    "MainParms \<Rightarrow> error + (ImpulsiveGlottalSource option \<times> NaturalGlottalSource option \<times> GlottalSourceFn)" where
  "initGlottalSource mp =
     (if glottalSourceType mp = impulsive
        then Inr (Some (ImpulsiveGlottalSource_new (sampleRate mp)), None, ImpulsiveGetNext)
      else if glottalSourceType mp = natural
        then Inr (None, Some NaturalGlottalSource_new, NaturalGetNext)
      else if glottalSourceType mp = noise
        then Inr (None, None, GetWhiteNoise)
      else Inl UndefinedGlottalSourceType)"

definition startGlottalSourcePeriod :: "Generator \<Rightarrow> Generator outcome" where
  "startGlottalSourcePeriod this =
     (if glottalSourceType (mParms this) = impulsive then
        (case (impulsiveGSource this, pState this) of
           (Some src, Some ps) \<Rightarrow>
             (case ImpulsiveGlottalSource_startPeriod (openPhaseLength ps) src of
                (e, src') \<Rightarrow> (e, this\<lparr>impulsiveGSource := Some src'\<rparr>))
         | _ \<Rightarrow> (Some TypeError, this))
      else if glottalSourceType (mParms this) = natural then
        (case (naturalGSource this, pState this) of
           (Some src, Some ps) \<Rightarrow>
             (None, this\<lparr>naturalGSource :=
                            Some (NaturalGlottalSource_startPeriod (openPhaseLength ps) src)\<rparr>)
         | _ \<Rightarrow> (Some TypeError, this))
      else (None, this))"

text \<open>The call \<^verbatim>\<open>this.glottalSource()\<close>.\<close>

definition callGlottalSource :: "Generator \<Rightarrow> (error + number) \<times> Generator" where
  "callGlottalSource this =
     (case glottalSource this of
        ImpulsiveGetNext \<Rightarrow>
          (case impulsiveGSource this of
             None \<Rightarrow> (Inl TypeError, this)
           | Some src \<Rightarrow>
               let (v, src') = ImpulsiveGlottalSource_getNext src
               in (Inr v, this\<lparr>impulsiveGSource := Some src'\<rparr>))
      | NaturalGetNext \<Rightarrow>
          (case naturalGSource this of
             None \<Rightarrow> (Inl TypeError, this)
           | Some src \<Rightarrow>
               let (v, src') = NaturalGlottalSource_getNext src
               in (Inr v, this\<lparr>naturalGSource := Some src'\<rparr>))
      | GetWhiteNoise \<Rightarrow>
          let (v, rnd) = getWhiteNoise (random this) in (Inr v, this\<lparr>random := rnd\<rparr>))"

subsection \<open>Starting a period\<close>

text \<open>The object \<^verbatim>\<open><PeriodState>{}\<close>: every field undefined.\<close>

definition emptyPeriodState :: PeriodState where
  "emptyPeriodState =
     \<lparr>periodF0 = NaN, periodLength = NaN, openPhaseLength = NaN, positionInPeriod = NaN\<rparr>"

definition startNewPeriod :: "heap \<Rightarrow> Generator \<Rightarrow> Generator outcome" where
  "startNewPeriod H this =
     andThen
       (case newFParms this of
          Some r \<Rightarrow> startUsingNewFrameParameters H (this\<lparr>fParms := Some r, newFParms := None\<rparr>)
        | None \<Rightarrow> (None, this))
       (\<lambda>this1.
          let ps0 = (case pState this1 of None \<Rightarrow> emptyPeriodState | Some ps \<Rightarrow> ps);
              this2 = this1\<lparr>pState := Some ps0\<rparr>;
              mp = mParms this2
          in case fParms this2 of
               None \<Rightarrow> (Some TypeError, this2)
             | Some r \<Rightarrow>
                 let fp = H r;
                     flutterTime = absPosition this2 / sampleRate mp + flutterTimeOffset this2;
                     pf0 = performFrequencyModulation (f0 fp) (flutterLevel fp) flutterTime;
                     pl = (if pf0 > 0 then Math_round (sampleRate mp / pf0) else 1);
                     opl = (if pl > 1 then Math_round (pl * openPhaseRatio fp) else 0);
                     ps1 = ps0\<lparr>periodF0 := pf0, periodLength := pl, openPhaseLength := opl,
                               positionInPeriod := 0\<rparr>
                 in startGlottalSourcePeriod (this2\<lparr>pState := Some ps1\<rparr>))"

subsection \<open>Computing a sample\<close>

definition stepOralFormantCasc :: "nat \<Rightarrow> number \<times> Generator \<Rightarrow> (number \<times> Generator) outcome" where
  "stepOralFormantCasc i vs =
     (case vs of (v, this) \<Rightarrow>
        if i < length (oralFormantCasc this)
        then let (y, res) = Resonator_step v (oralFormantCasc this ! i)
             in (None, (y, this\<lparr>oralFormantCasc := (oralFormantCasc this)[i := res]\<rparr>))
        else (Some TypeError, (v, this)))"

definition computeCascadeBranch ::
    "FrameParms \<Rightarrow> PeriodState \<Rightarrow> number \<Rightarrow> Generator \<Rightarrow> (error + number) \<times> Generator" where
  "computeCascadeBranch fp ps voice this =
     (let fs = fState this;
          cascadeVoice = voice * cascadeVoicingLin fs;
          currentAspirationMod =
            (if positionInPeriod ps \<ge> periodLength ps / Fin 2 then cascadeAspirationMod fp else 0);
          (n, src, rnd) = LpNoiseSource_getNext (aspirationSourceCasc this) (random this);
          aspiration = n * cascadeAspirationLin fs * (1 - currentAspirationMod);
          v0 = cascadeVoice + aspiration;
          (v1, ares) = AntiResonator_step v0 (nasalAntiformantCasc this);
          (v2, res) = Resonator_step v1 (nasalFormantCasc this);
          this1 = this\<lparr>aspirationSourceCasc := src, random := rnd,
                       nasalAntiformantCasc := ares, nasalFormantCasc := res\<rparr>
      in case forEach [0..<maxOralFormants] stepOralFormantCasc (v2, this1) of
           (None, (v, this2)) \<Rightarrow> (Inr v, this2)
         | (Some e, (v, this2)) \<Rightarrow> (Inl e, this2))"

text \<open>The input \<^verbatim>\<open>source\<close> of the parallel branch and the noise-source state after it.\<close>

definition parallelSource ::
    "FrameParms \<Rightarrow> PeriodState \<Rightarrow> number \<Rightarrow> Generator \<Rightarrow> number \<times> LpNoiseSource \<times> Random" where
  "parallelSource fp ps voice this =
     (let fs = fState this;
          parallelVoice = voice * parallelVoicingLin fs;
          currentAspirationMod =
            (if positionInPeriod ps \<ge> periodLength ps / Fin 2 then parallelAspirationMod fp else 0);
          (n, src, rnd) = LpNoiseSource_getNext (aspirationSourcePar this) (random this);
          aspiration = n * parallelAspirationLin fs * (1 - currentAspirationMod)
      in (parallelVoice + aspiration, src, rnd))"

text \<open>The input \<^verbatim>\<open>source2\<close>: the difference of \<^verbatim>\<open>source\<close> plus the frication noise.\<close>

definition parallelSource2 ::
    "FrameParms \<Rightarrow> PeriodState \<Rightarrow> number \<Rightarrow> Random \<Rightarrow> Generator
       \<Rightarrow> number \<times> DifferencingFilter \<times> LpNoiseSource \<times> Random" where
  "parallelSource2 fp ps source rnd this =
     (let fs = fState this;
          (sourceDifference, dflt) = DifferencingFilter_step source (differencingFilterPar this);
          currentFricationMod =
            (if positionInPeriod ps \<ge> periodLength ps / Fin 2 then fricationMod fp else 0);
          (n, src, rnd') = LpNoiseSource_getNext (fricationSourcePar this) rnd;
          fricationNoise = n * fricationLin fs * (1 - currentFricationMod)
      in (sourceDifference + fricationNoise, dflt, src, rnd'))"

definition alternatingSign :: "nat \<Rightarrow> number" where
  "alternatingSign i = (if i mod 2 = 0 then 1 else - 1)"

definition stepOralFormantPar ::
    "number \<Rightarrow> number \<Rightarrow> nat \<Rightarrow> number \<times> Generator \<Rightarrow> (number \<times> Generator) outcome" where
  "stepOralFormantPar sign x i vs =
     (case vs of (v, this) \<Rightarrow>
        if i < length (oralFormantPar this)
        then let (y, res) = Resonator_step x (oralFormantPar this ! i)
             in (None, (v + sign * y, this\<lparr>oralFormantPar := (oralFormantPar this)[i := res]\<rparr>))
        else (Some TypeError, (v, this)))"

definition computeParallelBranch ::
    "FrameParms \<Rightarrow> PeriodState \<Rightarrow> number \<Rightarrow> Generator \<Rightarrow> (error + number) \<times> Generator" where
  "computeParallelBranch fp ps voice this =
     (let (source, asrc, rnd1) = parallelSource fp ps voice this;
          (source2, dflt, fsrc, rnd2) = parallelSource2 fp ps source rnd1 this;
          this1 = this\<lparr>aspirationSourcePar := asrc, differencingFilterPar := dflt,
                       fricationSourcePar := fsrc, random := rnd2\<rparr>;
          (y, res) = Resonator_step source (nasalFormantPar this1);
          v0 = 0 + y;
          this2 = this1\<lparr>nasalFormantPar := res\<rparr>
      in case andThen (stepOralFormantPar 1 source 0 (v0, this2))
                (forEach [1..<maxOralFormants]
                   (\<lambda>i. stepOralFormantPar (alternatingSign i) source2 i)) of
           (None, (v, this3)) \<Rightarrow>
             (Inr (v + parallelBypassLin (fState this3) * source2), this3)
         | (Some e, (v, this3)) \<Rightarrow> (Inl e, this3))"

definition computeNextOutputSignalSample :: "heap \<Rightarrow> Generator \<Rightarrow> (error + number) \<times> Generator" where
  "computeNextOutputSignalSample H this =
     (case callGlottalSource this of
        (Inl e, this1) \<Rightarrow> (Inl e, this1)
      | (Inr voice0, this1) \<Rightarrow>
          (let (voice1, tf) = LpFilter1_step voice0 (tiltFilter this1);
               this2 = this1\<lparr>tiltFilter := tf\<rparr>
           in (case pState this2 of
                 None \<Rightarrow> (Inl TypeError, this2)
               | Some ps \<Rightarrow>
                   (let (voice2, this3) =
                          (if positionInPeriod ps < openPhaseLength ps
                           then (let (n, rnd) = getWhiteNoise (random this2)
                                 in (voice1 + n * breathinessLin (fState this2),
                                     this2\<lparr>random := rnd\<rparr>))
                           else (voice1, this2))
                    in (case fParms this3 of
                          None \<Rightarrow> (Inl TypeError, this3)
                        | Some r \<Rightarrow>
                            (case (if cascadeEnabled (H r)
                                   then computeCascadeBranch (H r) ps voice2 this3
                                   else (Inr 0, this3)) of
                               (Inl e, this4) \<Rightarrow> (Inl e, this4)
                             | (Inr cascadeOut, this4) \<Rightarrow>
                                 (case (if parallelEnabled (H r)
                                        then computeParallelBranch (H r) ps voice2 this4
                                        else (Inr 0, this4)) of
                                    (Inl e, this5) \<Rightarrow> (Inl e, this5)
                                  | (Inr parallelOut, this5) \<Rightarrow>
                                      (let out0 = cascadeOut + parallelOut;
                                           (out1, lpf) = Resonator_step out0 (outputLpFilter this5);
                                           out2 = out1 * gainLin (fState this5)
                                       in (Inr out2, this5\<lparr>outputLpFilter := lpf\<rparr>)))))))))"

subsection \<open>The generator: construction and \<^verbatim>\<open>generateFrame\<close>\<close>

text \<open>The object \<^verbatim>\<open><FrameState>{}\<close>: every field undefined.\<close>

definition emptyFrameState :: FrameState where
  "emptyFrameState =
     \<lparr>breathinessLin = NaN, gainLin = NaN, cascadeVoicingLin = NaN, cascadeAspirationLin = NaN,
      parallelVoicingLin = NaN, parallelAspirationLin = NaN, fricationLin = NaN,
      parallelBypassLin = NaN\<rparr>"

text \<open>
  The constructor. It returns no object when one of its steps throws. The generator
  stores the caller's \<^verbatim>\<open>mParms\<close> object; the model stores its value.
\<close>

definition Generator_new :: "MainParms \<Rightarrow> Random \<Rightarrow> error + Generator" where
  "Generator_new mp rnd =
     (let sr = sampleRate mp;
          (u, rnd1) = Math_random rnd
      in case Resonator_set 0 (sr / Fin 2) 1 (Resonator_new sr) of
           (Some e, olp) \<Rightarrow> Inl e
         | (None, olp) \<Rightarrow>
             (case initGlottalSource mp of
                Inl e \<Rightarrow> Inl e
              | Inr (isrc, nsrc, gfn) \<Rightarrow>
                  (case LpNoiseSource_new sr of
                     Inl e \<Rightarrow> Inl e
                   | Inr aspCasc \<Rightarrow>
                       (case LpNoiseSource_new sr of
                          Inl e \<Rightarrow> Inl e
                        | Inr aspPar \<Rightarrow>
                            (case LpNoiseSource_new sr of
                               Inl e \<Rightarrow> Inl e
                             | Inr fricPar \<Rightarrow>
                                 Inr \<lparr>mParms = mp,
                                      fParms = None,
                                      newFParms = None,
                                      fState = emptyFrameState,
                                      pState = None,
                                      absPosition = 0,
                                      tiltFilter = LpFilter1_new sr,
                                      outputLpFilter = olp,
                                      flutterTimeOffset = u * Fin 1000,
                                      impulsiveGSource = isrc,
                                      naturalGSource = nsrc,
                                      glottalSource = gfn,
                                      aspirationSourceCasc = aspCasc,
                                      aspirationSourcePar = aspPar,
                                      fricationSourcePar = fricPar,
                                      nasalFormantCasc = Resonator_new sr,
                                      nasalAntiformantCasc = AntiResonator_new sr,
                                      oralFormantCasc =
                                        map (\<lambda>i. Resonator_new sr) [0..<maxOralFormants],
                                      nasalFormantPar = Resonator_new sr,
                                      oralFormantPar =
                                        map (\<lambda>i. Resonator_new sr) [0..<maxOralFormants],
                                      differencingFilterPar = DifferencingFilter_new,
                                      random = rnd1\<rparr>)))))"

text \<open>The condition under which the loop of \<^verbatim>\<open>generateFrame\<close> starts a new period.\<close>

definition needsNewPeriod :: "Generator \<Rightarrow> bool" where
  "needsNewPeriod this =
     (case pState this of None \<Rightarrow> True | Some ps \<Rightarrow> positionInPeriod ps \<ge> periodLength ps)"

text \<open>One iteration of the loop of \<^verbatim>\<open>generateFrame\<close>, at index \<open>outPos\<close>.\<close>

definition generateFrame_body ::
    "heap \<Rightarrow> nat \<Rightarrow> Generator \<times> number list \<Rightarrow> (Generator \<times> number list) outcome" where
  "generateFrame_body H outPos st =
     (case st of (this, outBuf) \<Rightarrow>
        (case (if needsNewPeriod this then startNewPeriod H this else (None, this)) of
           (Some e, this1) \<Rightarrow> (Some e, (this1, outBuf))
         | (None, this1) \<Rightarrow>
             (case computeNextOutputSignalSample H this1 of
                (Inl e, this2) \<Rightarrow> (Some e, (this2, outBuf))
              | (Inr v, this2) \<Rightarrow>
                  (case pState this2 of
                     None \<Rightarrow> (Some TypeError, (this2, outBuf[outPos := v]))
                   | Some ps \<Rightarrow>
                       (None,
                        (this2\<lparr>pState := Some (ps\<lparr>positionInPeriod := positionInPeriod ps + 1\<rparr>),
                               absPosition := absPosition this2 + 1\<rparr>,
                         outBuf[outPos := v]))))))"

definition generateFrame ::
    "heap \<Rightarrow> FrameParmsRef \<Rightarrow> number list \<Rightarrow> Generator \<Rightarrow> (Generator \<times> number list) outcome" where
  "generateFrame H r outBuf this =
     (if fParms this = Some r then (Some FrameParmsReused, (this, outBuf))
      else forEach [0..<length outBuf] (generateFrame_body H) (this\<lparr>newFParms := Some r\<rparr>, outBuf))"

subsection \<open>\<^verbatim>\<open>generateSound\<close>\<close>

text \<open>
  \<^verbatim>\<open>ToIntegerOrInfinity\<close> truncates towards zero. \<^verbatim>\<open>new Float64Array(n)\<close> throws
  a \<^verbatim>\<open>RangeError\<close> for a negative or too large length and takes \<^verbatim>\<open>NaN\<close> as 0;
  the limit of the memory is not modelled. \<^verbatim>\<open>subarray(start, stop)\<close> is a view on
  the elements from \<open>b\<close> on, \<open>n\<close> of them, with a negative index counted from the end.
\<close>

definition trunc :: "real \<Rightarrow> int" where
  "trunc u = (if 0 \<le> u then \<lfloor>u\<rfloor> else \<lceil>u\<rceil>)"

definition Float64Array_new :: "number \<Rightarrow> error + number list" where
  "Float64Array_new n =
     (case n of
        NaN \<Rightarrow> Inr []
      | Fin u \<Rightarrow>
          if trunc u < 0 \<or> trunc u > 2 ^ 53 - 1 then Inl RangeError
          else Inr (replicate (nat (trunc u)) 0)
      | _ \<Rightarrow> Inl RangeError)"

definition relativeIndex :: "number \<Rightarrow> nat \<Rightarrow> nat" where
  "relativeIndex x len =
     (case x of
        NaN \<Rightarrow> 0
      | NInf \<Rightarrow> 0
      | PInf \<Rightarrow> len
      | Fin u \<Rightarrow>
          if trunc u < 0 then nat (max (int len + trunc u) 0) else min (nat (trunc u)) len)"

definition subarray :: "number \<Rightarrow> number \<Rightarrow> nat \<Rightarrow> nat \<times> nat" where
  "subarray start stop len =
     (let b = relativeIndex start len; e = relativeIndex stop len in (b, e - b))"

text \<open>
  The rounding of a real number to the nearest IEEE 754 binary64 number, a tie to the
  even significand: with \<open>e\<close> the binary exponent of \<open>x\<close> (at least \<open>-1022\<close>, the exponent of
  the subnormal numbers), the result is the multiple of \<open>2^(e - 52)\<close> nearest to \<open>x\<close>.
  A result of magnitude \<open>2^1024\<close> is an infinity.
\<close>

definition roundHalfEven :: "real \<Rightarrow> int" where
  "roundHalfEven q =
     (if q - of_int \<lfloor>q\<rfloor> < 1 / 2 then \<lfloor>q\<rfloor>
      else if 1 / 2 < q - of_int \<lfloor>q\<rfloor> then \<lfloor>q\<rfloor> + 1
      else if even \<lfloor>q\<rfloor> then \<lfloor>q\<rfloor> else \<lfloor>q\<rfloor> + 1)"

definition binaryExponent :: "real \<Rightarrow> int" where
  "binaryExponent x = max \<lfloor>log 2 \<bar>x\<bar>\<rfloor> (- 1022)"

definition nearestDouble :: "real \<Rightarrow> real" where
  "nearestDouble x =
     (if x = 0 then 0
      else of_int (roundHalfEven (x / 2 powi (binaryExponent x - 52)))
             * 2 powi (binaryExponent x - 52))"

definition toDouble :: "number \<Rightarrow> number" where
  "toDouble x =
     (case x of
        Fin u \<Rightarrow>
          if 2 ^ 1024 \<le> \<bar>nearestDouble u\<bar> then (if 0 < u then PInf else NInf)
          else Fin (nearestDouble u)
      | _ \<Rightarrow> x)"

text \<open>
  The operators \<^verbatim>\<open>*\<close> and \<^verbatim>\<open>+\<close> on two numbers, with the rounding of their exact
  result.
\<close>

definition times_double :: "number \<Rightarrow> number \<Rightarrow> number" where
  "times_double x y = toDouble (x * y)"

definition plus_double :: "number \<Rightarrow> number \<Rightarrow> number" where
  "plus_double x y = toDouble (x + y)"

text \<open>The length \<^verbatim>\<open>Math.round(fParms.duration * mParms.sampleRate)\<close> of a frame.\<close>

definition frameLen :: "heap \<Rightarrow> MainParms \<Rightarrow> FrameParmsRef \<Rightarrow> number" where
  "frameLen H mp r = Math_round (times_double (duration (H r)) (sampleRate mp))"

fun generateSound_frames ::
    "heap \<Rightarrow> MainParms \<Rightarrow> FrameParmsRef list \<Rightarrow> Generator \<Rightarrow> number list \<Rightarrow> number
       \<Rightarrow> error + number list" where
  "generateSound_frames H mp [] generator outBuf outBufPos = Inr outBuf"
| "generateSound_frames H mp (r # rs) generator outBuf outBufPos =
     (let (b, n) = subarray outBufPos (plus_double outBufPos (frameLen H mp r)) (length outBuf);
          frameBuf = take n (drop b outBuf)
      in case generateFrame H r frameBuf generator of
           (Some e, st) \<Rightarrow> Inl e
         | (None, (generator', frameBuf')) \<Rightarrow>
             generateSound_frames H mp rs generator'
               (take b outBuf @ frameBuf' @ drop (b + n) outBuf)
               (plus_double outBufPos (frameLen H mp r)))"

definition generateSound_outBufLen :: "heap \<Rightarrow> MainParms \<Rightarrow> FrameParmsRef list \<Rightarrow> number" where
  "generateSound_outBufLen H mp fParmsA =
     foldl (\<lambda>len r. plus_double len (frameLen H mp r)) 0 fParmsA"

definition generateSound :: "heap \<Rightarrow> MainParms \<Rightarrow> FrameParmsRef list \<Rightarrow> Random \<Rightarrow> error + number list" where
  "generateSound H mp fParmsA rnd =
     (case Generator_new mp rnd of
        Inl e \<Rightarrow> Inl e
      | Inr generator \<Rightarrow>
          (case Float64Array_new (generateSound_outBufLen H mp fParmsA) of
             Inl e \<Rightarrow> Inl e
           | Inr outBuf \<Rightarrow> generateSound_frames H mp fParmsA generator outBuf 0))"

section \<open>Notions used to state the properties\<close>

subsection \<open>The configuration of a generator\<close>

text \<open>
  The coefficients and the mode of a filter, without its delay line.
\<close>

definition LpFilter1_coeffs :: "LpFilter1 \<Rightarrow> number \<times> number \<times> number \<times> bool \<times> bool" where
  "LpFilter1_coeffs flt = (lp_sampleRate flt, lp_a flt, lp_b flt, lp_passthrough flt, lp_muted flt)"

definition Resonator_coeffs ::
    "Resonator \<Rightarrow> number \<times> number \<times> number \<times> number \<times> number \<times> bool \<times> bool" where
  "Resonator_coeffs res =
     (re_sampleRate res, re_a res, re_b res, re_c res, re_r res, re_passthrough res, re_muted res)"

definition AntiResonator_coeffs ::
    "AntiResonator \<Rightarrow> number \<times> number \<times> number \<times> number \<times> bool \<times> bool" where
  "AntiResonator_coeffs ares =
     (ar_sampleRate ares, ar_a ares, ar_b ares, ar_c ares, ar_passthrough ares, ar_muted ares)"

text \<open>
  What a period start installs: the active frame parameters, the frame state, the
  lengths of the period, and the coefficients and modes of every filter (the resonator
  of the impulsive glottal source and the constants of the natural one included).
\<close>

definition filterConfig :: "Generator \<Rightarrow> _" where
  "filterConfig this =
     (LpFilter1_coeffs (tiltFilter this),
      Resonator_coeffs (outputLpFilter this),
      LpFilter1_coeffs (ns_lpFilter (aspirationSourceCasc this)),
      LpFilter1_coeffs (ns_lpFilter (aspirationSourcePar this)),
      LpFilter1_coeffs (ns_lpFilter (fricationSourcePar this)),
      Resonator_coeffs (nasalFormantCasc this),
      AntiResonator_coeffs (nasalAntiformantCasc this),
      map Resonator_coeffs (oralFormantCasc this),
      Resonator_coeffs (nasalFormantPar this),
      map Resonator_coeffs (oralFormantPar this))"

definition sourceConfig :: "Generator \<Rightarrow> _" where
  "sourceConfig this =
     (glottalSource this,
      map_option (\<lambda>src. (ig_sampleRate src, map_option Resonator_coeffs (ig_resonator src)))
        (impulsiveGSource this),
      map_option (\<lambda>src. (ng_b src, ng_openPhaseLength src)) (naturalGSource this))"

definition config :: "Generator \<Rightarrow> _" where
  "config this =
     (mParms this, fParms this, fState this,
      map_option (\<lambda>ps. (periodF0 ps, periodLength ps, openPhaseLength ps)) (pState this),
      filterConfig this, sourceConfig this)"

text \<open>
  What the constructor establishes and every method keeps: the two arrays of oral
  formant filters have \<open>maxOralFormants\<close> elements, the glottal source that the closure
  \<^verbatim>\<open>glottalSource\<close> calls exists, and a generator with a period state has active frame
  parameters.
\<close>

definition wellFormed :: "Generator \<Rightarrow> bool" where
  "wellFormed this =
     (length (oralFormantCasc this) = maxOralFormants
      \<and> length (oralFormantPar this) = maxOralFormants
      \<and> (case glottalSource this of
            ImpulsiveGetNext \<Rightarrow> impulsiveGSource this \<noteq> None
          | NaturalGetNext \<Rightarrow> naturalGSource this \<noteq> None
          | GetWhiteNoise \<Rightarrow> True)
      \<and> (case pState this of None \<Rightarrow> True | Some ps \<Rightarrow> fParms this \<noteq> None))"

text \<open>
  Two generators with the same configuration, the same pending parameters and the same
  place in the sound: what the computation of one sample leaves as it is.
\<close>

definition sameSetup :: "Generator \<Rightarrow> Generator \<Rightarrow> bool" where
  "sameSetup s s' =
     (config s' = config s \<and> newFParms s' = newFParms s \<and> pState s' = pState s
      \<and> absPosition s' = absPosition s \<and> flutterTimeOffset s' = flutterTimeOffset s)"

text \<open>The outcome of a loop of \<^verbatim>\<open>generateFrame\<close> with the pending parameters replaced.\<close>

definition setPending ::
    "FrameParmsRef option \<Rightarrow> (Generator \<times> number list) outcome \<Rightarrow> (Generator \<times> number list) outcome" where
  "setPending x out = (case out of (e, (s, buf)) \<Rightarrow> (e, (s\<lparr>newFParms := x\<rparr>, buf)))"

text \<open>
  The generator at the start of each iteration of the loop of \<^verbatim>\<open>generateFrame\<close> over the
  indices \<open>is\<close>, and at its end (after the last iteration, or after the one that throws).
\<close>

fun frameTrace :: "heap \<Rightarrow> nat list \<Rightarrow> Generator \<times> number list \<Rightarrow> Generator list" where
  "frameTrace H [] st = [fst st]"
| "frameTrace H (i # is) st =
     fst st # (case generateFrame_body H i st of
                 (None, st') \<Rightarrow> frameTrace H is st'
               | (Some e, st') \<Rightarrow> [fst st'])"

subsection \<open>The specification's formulas\<close>

text \<open>
  The specification's \<open>db_to_lin\<close>: 0 if \<open>d \<le> -99\<close> or \<open>d\<close> is NaN, else \<open>10^(d/20)\<close>.
\<close>

definition db_to_lin_spec :: "number \<Rightarrow> number" where
  "db_to_lin_spec d =
     (case d of
        NaN \<Rightarrow> Fin 0
      | NInf \<Rightarrow> Fin 0
      | PInf \<Rightarrow> PInf
      | Fin u \<Rightarrow> if u \<le> - 99 then Fin 0 else Fin (10 powr (u / 20)))"

text \<open>
  The sum of the parallel branch as the specification writes it, with the sign of the
  formants F2 to F6 as a parameter: the nasal resonator and \<open>parallel_oral[0]\<close> on
  \<open>source\<close>, \<open>parallel_oral[1..5]\<close> on \<open>source2\<close>, and the bypass.
\<close>

definition parallelSum :: "(nat \<Rightarrow> number) \<Rightarrow> number \<Rightarrow> number \<Rightarrow> Generator \<Rightarrow> number" where
  "parallelSum sign source source2 this =
     foldl (+)
       (fst (Resonator_step source (nasalFormantPar this))
        + fst (Resonator_step source (oralFormantPar this ! 0)))
       (map (\<lambda>i. sign i * fst (Resonator_step source2 (oralFormantPar this ! i)))
          [1..<maxOralFormants])
     + parallelBypassLin (fState this) * source2"

text \<open>
  The number of samples \<open>round(d * fs)\<close> of a frame of duration \<open>d\<close> at the sample rate
  \<open>fs\<close>, the product being the double that the code computes.
\<close>

definition frameSamples :: "real \<Rightarrow> real \<Rightarrow> int" where
  "frameSamples dr sr = \<lfloor>nearestDouble (dr * sr) + 1 / 2\<rfloor>"

text \<open>
  The sound as the concatenation of its frames: each frame generated into a buffer of
  its own, of \<open>frameLen\<close> zeros, by the generator that the frame before left.
\<close>

fun framesOutput :: "heap \<Rightarrow> MainParms \<Rightarrow> FrameParmsRef list \<Rightarrow> Generator \<Rightarrow> error + number list" where
  "framesOutput H mp [] generator = Inr []"
| "framesOutput H mp (r # rs) generator =
     (case frameLen H mp r of
        Fin u \<Rightarrow>
          (case generateFrame H r (replicate (nat \<lfloor>u\<rfloor>) 0) generator of
             (Some e, st) \<Rightarrow> Inl e
           | (None, (generator', frameBuf')) \<Rightarrow>
               (case framesOutput H mp rs generator' of
                  Inl e \<Rightarrow> Inl e
                | Inr rest \<Rightarrow> Inr (frameBuf' @ rest)))
      | _ \<Rightarrow> Inl RangeError)"

subsection \<open>Concrete inputs\<close>

definition exRandom :: Random where
  "exRandom = \<lparr>draws = (\<lambda>n. 1 / 2), drawn = 0\<rparr>"

definition exMainParms :: MainParms where
  "exMainParms = \<lparr>sampleRate = Fin 8000, glottalSourceType = natural\<rparr>"

text \<open>A voiced frame at 100 Hz without formants, both branches enabled.\<close>

definition exFrame :: FrameParms where
  "exFrame =
     \<lparr>duration = Fin (1 / 4000), f0 = Fin 100, flutterLevel = Fin 0, openPhaseRatio = Fin 0.7,
      breathinessDb = Fin (- 25), tiltDb = Fin 0, gainDb = Fin 0,
      nasalFormantFreq = NaN, nasalFormantBw = NaN,
      oralFormantFreq = [], oralFormantBw = [],
      cascadeEnabled = True, cascadeVoicingDb = Fin 0, cascadeAspirationDb = Fin (- 25),
      cascadeAspirationMod = Fin 0.5, nasalAntiformantFreq = NaN, nasalAntiformantBw = NaN,
      parallelEnabled = True, parallelVoicingDb = Fin 0, parallelAspirationDb = Fin (- 25),
      parallelAspirationMod = Fin 0.5, fricationDb = Fin (- 30), fricationMod = Fin 0.5,
      parallelBypassDb = Fin (- 99), nasalFormantDb = NaN, oralFormantDb = []\<rparr>"

text \<open>The same frame with a fundamental frequency above twice the sample rate.\<close>

definition exFrameHighF0 :: FrameParms where
  "exFrameHighF0 = exFrame\<lparr>f0 := Fin 20000\<rparr>"

text \<open>The same frame with the second oral formant at 2000 Hz in the parallel branch.\<close>

definition exFrameF2 :: FrameParms where
  "exFrameF2 =
     exFrame\<lparr>oralFormantFreq := [NaN, Fin 2000], oralFormantBw := [NaN, Fin 100],
             oralFormantDb := [NaN, Fin 0]\<rparr>"

definition exHeap :: heap where
  "exHeap r = (if r = 1 then exFrameHighF0 else if r = 2 then exFrameF2 else exFrame)"

text \<open>The generator that the constructor returns for \<open>exMainParms\<close>.\<close>

definition exGenerator :: Generator where
  "exGenerator = projr (Generator_new exMainParms exRandom)"

text \<open>The generator after the first sample of a frame with the parameters \<open>exFrame\<close>.\<close>

definition exGenerator1 :: Generator where
  "exGenerator1 = fst (snd (generateFrame exHeap 0 [0] exGenerator))"

text \<open>
  The generator after a second sample, generated by a call with the parameters
  \<open>exFrameHighF0\<close>.
\<close>

definition exGenerator2 :: Generator where
  "exGenerator2 = fst (snd (generateFrame exHeap 1 [0] exGenerator1))"

text \<open>The generator after a period start with the parameters \<open>exFrameF2\<close>.\<close>

definition exGeneratorF2 :: Generator where
  "exGeneratorF2 = snd (startNewPeriod exHeap (exGenerator\<lparr>newFParms := Some 2\<rparr>))"

section \<open>Properties\<close>

subsection \<open>Arithmetic on numbers\<close>

lemma number_add_0 [simp]: "(0::number) + x = x" "x + (0::number) = x"
  by (cases x; simp add: zero_number_def)+

lemma number_mult_1 [simp]: "(1::number) * x = x" "x * (1::number) = x"
  by (cases x; simp add: one_number_def)+

lemma Math_pow_2: "Math_pow (Fin u) (Fin 2) = Fin (u * u)"
  by (cases "u = 0"; cases "0 < u"; simp add: power2_eq_square)

lemma cos_lt_1: "0 < x \<Longrightarrow> x \<le> pi \<Longrightarrow> cos x < 1"
  using cos_monotone_0_pi [of 0 x] by simp

subsection \<open>Decibels\<close>

text \<open>
  Claim C6. For every number \<open>d\<close>, \<open>dbToLin d\<close> is 0 when \<open>d \<le> -99\<close> or \<open>d\<close> is NaN
  and \<open>10^(d/20)\<close> otherwise, as the specification's \<open>db_to_lin\<close>; in particular
  \<open>dbToLin 0 = 1\<close>, \<open>dbToLin (-20) = 0.1\<close>, \<open>dbToLin (-99) = 0\<close> and \<open>dbToLin NaN = 0\<close>.
\<close>

theorem dbToLin_spec:
  "dbToLin d = db_to_lin_spec d
   \<and> dbToLin (Fin 0) = Fin 1 \<and> dbToLin (Fin (- 20)) = Fin (1 / 10)
   \<and> dbToLin (Fin (- 99)) = Fin 0 \<and> dbToLin NaN = Fin 0"
proof -
  have "dbToLin d = db_to_lin_spec d"
    by (cases d) (simp_all add: dbToLin_def db_to_lin_spec_def zero_number_def)
  moreover have "(10::real) powr (- 1) = 1 / 10"
    by (simp add: powr_minus_divide)
  ultimately show ?thesis
    by (simp add: dbToLin_def zero_number_def)
qed

theorem dbToLin_spec_witness:
  "dbToLin (Fin (- 40)) = Fin (10 powr (- 2)) \<and> dbToLin (Fin (- 100)) = Fin 0
   \<and> dbToLin PInf = PInf \<and> dbToLin NInf = Fin 0"
  using dbToLin_spec [of "Fin (- 40)"] dbToLin_spec [of "Fin (- 100)"]
        dbToLin_spec [of PInf] dbToLin_spec [of NInf]
  by (simp add: db_to_lin_spec_def)

subsection \<open>The gains of a resonator\<close>

text \<open>
  Claim C10. For every argument \<open>newA\<close> (NaN, the infinities, zero and the negative numbers
  included) \<open>adjustImpulseGain newA\<close> raises no error and sets only the coefficient \<open>a\<close>,
  to \<open>newA\<close>: the coefficients \<open>b\<close> and \<open>c\<close>, the delay line \<open>y1\<close>, \<open>y2\<close> and the two mode
  flags stay as they are. \<open>adjustPeakGain\<close> rejects a gain that is not positive or not
  finite, and leaves the resonator as it is.
\<close>

theorem adjustImpulseGain_sets_only_a:
  "fst (adjustImpulseGain newA this) = None
   \<and> snd (adjustImpulseGain newA this) = this\<lparr>re_a := newA\<rparr>
   \<and> re_a (snd (adjustImpulseGain newA this)) = newA
   \<and> re_b (snd (adjustImpulseGain newA this)) = re_b this
   \<and> re_c (snd (adjustImpulseGain newA this)) = re_c this
   \<and> re_y1 (snd (adjustImpulseGain newA this)) = re_y1 this
   \<and> re_y2 (snd (adjustImpulseGain newA this)) = re_y2 this
   \<and> re_passthrough (snd (adjustImpulseGain newA this)) = re_passthrough this
   \<and> re_muted (snd (adjustImpulseGain newA this)) = re_muted this
   \<and> (peakGain \<le> 0 \<or> \<not> isFinite peakGain
        \<longrightarrow> adjustPeakGain peakGain this = (Some InvalidResonatorPeakGain, this))"
  by (simp add: adjustImpulseGain_def adjustPeakGain_def)

theorem adjustImpulseGain_sets_only_a_witness:
  "fst (adjustImpulseGain NaN (Resonator_new (Fin 44100))) = None
   \<and> fst (adjustImpulseGain PInf (Resonator_new (Fin 44100))) = None
   \<and> fst (adjustImpulseGain NInf (Resonator_new (Fin 44100))) = None
   \<and> fst (adjustImpulseGain (Fin 0) (Resonator_new (Fin 44100))) = None
   \<and> re_a (snd (adjustImpulseGain (Fin (- 3)) (Resonator_new (Fin 44100)))) = Fin (- 3)
   \<and> re_passthrough (snd (adjustImpulseGain (Fin (- 3)) (Resonator_new (Fin 44100))))
   \<and> adjustPeakGain (Fin (- 3)) (Resonator_new (Fin 44100))
       = (Some InvalidResonatorPeakGain, Resonator_new (Fin 44100))
   \<and> adjustPeakGain NaN (Resonator_new (Fin 44100))
       = (Some InvalidResonatorPeakGain, Resonator_new (Fin 44100))
   \<and> adjustPeakGain PInf (Resonator_new (Fin 44100))
       = (Some InvalidResonatorPeakGain, Resonator_new (Fin 44100))"
  using adjustImpulseGain_sets_only_a [of NaN "Resonator_new (Fin 44100)" "Fin (- 3)"]
        adjustImpulseGain_sets_only_a [of PInf "Resonator_new (Fin 44100)" NaN]
        adjustImpulseGain_sets_only_a [of NInf "Resonator_new (Fin 44100)" PInf]
        adjustImpulseGain_sets_only_a [of "Fin 0" "Resonator_new (Fin 44100)" PInf]
        adjustImpulseGain_sets_only_a [of "Fin (- 3)" "Resonator_new (Fin 44100)" PInf]
  by (simp add: zero_number_def Resonator_new_def)

subsection \<open>The anti-resonator\<close>

text \<open>
  An anti-resonator in active mode computes \<open>y[n] = a x[n] + b x[n-1] + c x[n-2]\<close>, and
  \<open>set\<close> with \<open>a0 \<noteq> 0\<close> makes it active with \<open>a = 1/a0\<close>, \<open>b = -b0/a0\<close>, \<open>c = -c0/a0\<close>.
\<close>

lemma AntiResonator_step_active:
  assumes "\<not> ar_passthrough this" "\<not> ar_muted this"
  shows "AntiResonator_step x this =
           (ar_a this * x + ar_b this * ar_x1 this + ar_c this * ar_x2 this,
            this\<lparr>ar_x2 := ar_x1 this, ar_x1 := x\<rparr>)"
  using assms by (simp add: AntiResonator_step_def Let_def)

lemma AntiResonator_set_regular:
  assumes "fst (AntiResonator_set f bw this) = None"
      and "\<not> js_eq (AntiResonator_a0 f bw this) 0"
  shows "snd (AntiResonator_set f bw this) =
           this\<lparr>ar_a := 1 / AntiResonator_a0 f bw this,
                ar_b := (- AntiResonator_b0 f bw this) / AntiResonator_a0 f bw this,
                ar_c := (- AntiResonator_c0 f bw this) / AntiResonator_a0 f bw this,
                ar_passthrough := False, ar_muted := False\<rparr>"
  using assms by (simp add: AntiResonator_set_def Let_def split: if_splits)

text \<open>With \<open>a0 = 0\<close> the three coefficients become 0 and the mode flags keep their values.\<close>

lemma AntiResonator_set_degenerate:
  assumes "fst (AntiResonator_set f bw this) = None"
      and "js_eq (AntiResonator_a0 f bw this) 0"
  shows "snd (AntiResonator_set f bw this) = this\<lparr>ar_a := 0, ar_b := 0, ar_c := 0\<rparr>"
  using assms by (simp add: AntiResonator_set_def Let_def split: if_splits)

text \<open>
  Claim C7 says that after a call of \<open>set\<close> with valid \<open>f\<close> and \<open>bw\<close> for which \<open>a0 = 0\<close>
  every step emits 0. With exact arithmetic \<open>a0 = 0\<close> needs an infinite sample rate
  (with IEEE doubles, rounding suffices). On an anti-resonator as the constructor makes
  it, in passthrough mode, \<open>set 1 1\<close> is accepted, finds \<open>a0 = 0\<close>, leaves the filter in
  passthrough mode, and the step on the input 1 emits 1, not 0.
\<close>

theorem AntiResonator_set_degenerate_keeps_passthrough:
  "AntiResonator_a0 (Fin 1) (Fin 1) (AntiResonator_new PInf) = Fin 0
   \<and> fst (AntiResonator_set (Fin 1) (Fin 1) (AntiResonator_new PInf)) = None
   \<and> ar_passthrough (snd (AntiResonator_set (Fin 1) (Fin 1) (AntiResonator_new PInf)))
   \<and> fst (AntiResonator_step (Fin 1)
            (snd (AntiResonator_set (Fin 1) (Fin 1) (AntiResonator_new PInf)))) = Fin 1"
  by (simp add: AntiResonator_set_def AntiResonator_a0_def AntiResonator_b0_def
      AntiResonator_c0_def AntiResonator_new_def AntiResonator_step_def Math_PI_def js_eq_def
      zero_number_def one_number_def minus_number_def Let_def)

text \<open>The step emits its input: not 0, as the claim has it.\<close>

theorem AntiResonator_set_degenerate_keeps_passthrough_witness:
  "fst (AntiResonator_step (Fin 1)
         (snd (AntiResonator_set (Fin 1) (Fin 1) (AntiResonator_new PInf)))) \<noteq> Fin 0"
  using AntiResonator_set_degenerate_keeps_passthrough by simp

subsection \<open>Construction of the generator\<close>

lemma g_bounds: "\<exists>g. LpNoiseSource_g = Fin g \<and> 0 < g \<and> g < 1"
proof -
  define D :: real where "D = 1 - 3 * cos (pi / 5) / 2 + (3 / 4)\<^sup>2"
  have c: "cos (pi / 5) < 1" by (rule cos_lt_1) (simp_all add: pi_gt_zero)
  have D: "(1 / 4)\<^sup>2 < D" using c by (simp add: D_def power2_eq_square)
  then have s: "1 / 4 < sqrt D" by (rule real_less_rsqrt)
  have "((1::real) / 4)\<^sup>2 = 1 / 16" by (simp add: power2_eq_square)
  with D have Dpos: "0 < D" by linarith
  have "LpNoiseSource_g = Fin ((1 / 4) / sqrt D)"
    using Dpos s unfolding LpNoiseSource_g_def Let_def Math_PI_def D_def
    by (simp add: one_number_def minus_number_def Math_pow_2 power2_eq_square)
  moreover have "0 < (1 / 4) / sqrt D" using Dpos by simp
  moreover have "(1 / 4) / sqrt D < 1" using s Dpos by (simp add: field_simps)
  ultimately show ?thesis by blast
qed

lemma LpFilter1_set_ok:
  assumes "lp_sampleRate flt = Fin sr" "2 * f < sr" "0 < f" "0 < g" "g < 1"
  shows "fst (LpFilter1_set (Fin f) (Fin g) (Fin x) flt) = None"
  using assms by (simp add: LpFilter1_set_def zero_number_def one_number_def Let_def)

lemma LpNoiseSource_new_ok:
  assumes "2000 < sr"
  shows "\<exists>src. LpNoiseSource_new (Fin sr) = Inr src"
proof -
  obtain g where g: "LpNoiseSource_g = Fin g" "0 < g" "g < 1" using g_bounds by blast
  have pw: "Math_pow (Fin sr / Fin 10000) (Fin 0.33) = Fin ((sr / 10000) powr 0.33)"
    using assms by simp
  define x where "x = 2.5 * ((sr / 10000) powr 0.33)"
  have x: "Fin 2.5 * Math_pow (Fin sr / Fin 10000) (Fin 0.33) = Fin x"
    by (simp only: pw times_number.simps x_def)
  have "fst (LpFilter1_set (Fin 1000) (Fin g) (Fin x) (LpFilter1_new (Fin sr))) = None"
    using assms g by (intro LpFilter1_set_ok) (simp_all add: LpFilter1_new_def)
  then show ?thesis
    unfolding LpNoiseSource_new_def Let_def g x by (auto split: prod.splits option.splits)
qed

lemma LpNoiseSource_new_bad:
  assumes "sr \<le> 2000"
  shows "LpNoiseSource_new (Fin sr) = Inl InvalidFilterParameters"
  using assms by (simp add: LpNoiseSource_new_def LpFilter1_set_def LpFilter1_new_def Let_def)



lemma Resonator_set_output_ok:
  assumes "0 < sr"
  shows "fst (Resonator_set 0 (Fin sr / Fin 2) 1 (Resonator_new (Fin sr))) = None"
  using assms
  by (simp add: Resonator_set_def Resonator_new_def zero_number_def one_number_def Let_def)

lemma Generator_new_ok:
  assumes "sampleRate mp = Fin sr" "2000 < sr" "glottalSourceType mp \<le> 2"
  shows "\<exists>g. Generator_new mp rnd = Inr g"
proof -
  obtain src where src: "LpNoiseSource_new (Fin sr) = Inr src"
    using LpNoiseSource_new_ok [OF assms(2)] by blast
  have "fst (Resonator_set 0 (Fin sr / Fin 2) 1 (Resonator_new (Fin sr))) = None"
    using assms(2) by (intro Resonator_set_output_ok) simp
  moreover have "\<exists>x. initGlottalSource mp = Inr x"
    using assms(3) by (auto simp: initGlottalSource_def impulsive_def natural_def noise_def)
  ultimately show ?thesis
    unfolding Generator_new_def Let_def assms(1) src
    by (auto split: prod.splits option.splits sum.splits)
qed

lemma Generator_new_fields:
  assumes "Generator_new mp rnd = Inr g"
  shows "mParms g = mp" "fParms g = None" "newFParms g = None" "pState g = None"
    "absPosition g = 0" "tiltFilter g = LpFilter1_new (sampleRate mp)"
    "nasalFormantCasc g = Resonator_new (sampleRate mp)"
    "nasalAntiformantCasc g = AntiResonator_new (sampleRate mp)"
    "oralFormantCasc g = replicate 6 (Resonator_new (sampleRate mp))"
    "nasalFormantPar g = Resonator_new (sampleRate mp)"
    "oralFormantPar g = replicate 6 (Resonator_new (sampleRate mp))"
    "differencingFilterPar g = DifferencingFilter_new"
    "random g = rnd\<lparr>drawn := Suc (drawn rnd)\<rparr>"
    "flutterTimeOffset g = Fin (draws rnd (drawn rnd)) * Fin 1000"
    "fState g = emptyFrameState"
  using assms unfolding Generator_new_def Let_def Math_random_def maxOralFormants_def
  by (auto split: prod.splits option.splits sum.splits simp: map_replicate_const)

lemma Generator_new_sources:
  assumes "Generator_new mp rnd = Inr g"
  shows "initGlottalSource mp = Inr (impulsiveGSource g, naturalGSource g, glottalSource g)"
    "LpNoiseSource_new (sampleRate mp) = Inr (aspirationSourceCasc g)"
    "LpNoiseSource_new (sampleRate mp) = Inr (aspirationSourcePar g)"
    "LpNoiseSource_new (sampleRate mp) = Inr (fricationSourcePar g)"
  using assms unfolding Generator_new_def Let_def Math_random_def
  by (auto split: prod.splits option.splits sum.splits)

lemma exGenerator: "Generator_new exMainParms exRandom = Inr exGenerator"
proof -
  obtain g where "Generator_new exMainParms exRandom = Inr g"
    using Generator_new_ok [of exMainParms 8000 exRandom]
    by (auto simp: exMainParms_def natural_def)
  then show ?thesis by (simp add: exGenerator_def)
qed

lemmas exGenerator_fields = Generator_new_fields [OF exGenerator]

lemma exGenerator_sources:
  "impulsiveGSource exGenerator = None"
  "naturalGSource exGenerator = Some NaturalGlottalSource_new"
  "glottalSource exGenerator = NaturalGetNext"
  using Generator_new_sources(1) [OF exGenerator]
  by (simp_all add: initGlottalSource_def exMainParms_def natural_def impulsive_def)

text \<open>
  Claim C9, amended. A call of \<open>generateFrame\<close> with a buffer of length zero writes no
  sample and leaves the position, the period state, the frame state and every filter as
  they are. When the frame parameters are the active ones it raises \<open>FrameParmsReused\<close>
  and records nothing; otherwise its only effect is to record them as pending.
\<close>

theorem generateFrame_empty_buffer:
  "generateFrame H r [] this =
     (if fParms this = Some r then (Some FrameParmsReused, (this, []))
      else (None, (this\<lparr>newFParms := Some r\<rparr>, [])))"
  by (simp add: generateFrame_def)

text \<open>
  Claim C8, amended. For a glottal source type outside the enumeration (3 or more) and a
  positive sample rate the constructor raises \<open>UndefinedGlottalSourceType\<close>. The start of
  a glottal source period has no guard: for every type other than \<open>impulsive\<close> and
  \<open>natural\<close> it does nothing and raises nothing.
\<close>

theorem glottalSourceType_guard:
  "(3 \<le> k \<and> 0 < sr
      \<longrightarrow> Generator_new \<lparr>sampleRate = Fin sr, glottalSourceType = k\<rparr> rnd
            = Inl UndefinedGlottalSourceType)
   \<and> (glottalSourceType (mParms this) \<noteq> impulsive \<and> glottalSourceType (mParms this) \<noteq> natural
      \<longrightarrow> startGlottalSourcePeriod this = (None, this))"
proof -
  have "Generator_new \<lparr>sampleRate = Fin sr, glottalSourceType = k\<rparr> rnd
          = Inl UndefinedGlottalSourceType" if "3 \<le> k" "0 < sr"
  proof -
    have "initGlottalSource \<lparr>sampleRate = Fin sr, glottalSourceType = k\<rparr>
            = Inl UndefinedGlottalSourceType"
      using that(1) by (simp add: initGlottalSource_def impulsive_def natural_def noise_def)
    then show ?thesis
      using Resonator_set_output_ok [OF that(2)]
      by (auto simp: Generator_new_def Let_def split: prod.splits option.splits)
  qed
  then show ?thesis by (simp add: startGlottalSourcePeriod_def)
qed



lemma upt_0_6: "[0..<maxOralFormants] = [0, 1, 2, 3, 4, 5]"
  by (simp add: maxOralFormants_def upt_rec)

lemma upt_1_6: "[1..<maxOralFormants] = [1, 2, 3, 4, 5]"
  by (simp add: maxOralFormants_def upt_rec)

lemmas binding_defs =
  startUsingNewFrameParameters_def andThen_def onField_def onElem_def assign_def
  setTiltFilter_def setNasalFormantCasc_def setNasalAntiformantCasc_def setOralFormantCasc_def
  setNasalFormantPar_def setOralFormantPar_def truthy_def elemOrNaN_def dbToLin_def
  LpFilter1_setPassthrough_def Resonator_setPassthrough_def Resonator_setMute_def
  AntiResonator_setPassthrough_def

lemmas number_defs = zero_number_def one_number_def minus_number_def

lemmas ex_defs =
  exHeap_def exFrame_def exFrameHighF0_def exFrameF2_def exMainParms_def exRandom_def
  exGenerator_fields exGenerator_sources

lemma ex_startUsing:
  "fst (startUsingNewFrameParameters exHeap (exGenerator\<lparr>fParms := Some r, newFParms := None\<rparr>)) = None" if "r \<noteq> 2"
  using that
  by (simp add: binding_defs ex_defs upt_0_6 Let_def zero_number_def one_number_def
      LpFilter1_new_def Resonator_new_def AntiResonator_new_def)

lemma ex_startNewPeriod_high:
  "fst (startNewPeriod exHeap (exGenerator\<lparr>newFParms := Some 1\<rparr>)) = None \<and>
   map_option periodLength (pState (snd (startNewPeriod exHeap (exGenerator\<lparr>newFParms := Some 1\<rparr>)))) = Some (Fin 0)"
  by (simp add: startNewPeriod_def binding_defs ex_defs upt_0_6 Let_def zero_number_def one_number_def
      LpFilter1_new_def Resonator_new_def AntiResonator_new_def performFrequencyModulation_def
      startGlottalSourcePeriod_def natural_def impulsive_def emptyPeriodState_def)



lemma andThen_None:
  "andThen r f = (None, s') \<longleftrightarrow> (\<exists>s. r = (None, s) \<and> f s = (None, s'))"
  by (cases r) (auto simp: andThen_def split: option.splits)

lemma forEach_preserves:
  assumes "forEach is body s = (e, s')" and "P s"
      and "\<And>i t e' t'. P t \<Longrightarrow> body i t = (e', t') \<Longrightarrow> P t'"
  shows "P s'"
  using assms(1,2)
proof (induction "is" arbitrary: s)
  case Nil
  then show ?case by simp
next
  case (Cons i "is")
  obtain e1 s1 where b: "body i s = (e1, s1)" by (cases "body i s")
  have P1: "P s1" using assms(3) [OF Cons.prems(2) b] .
  show ?case
  proof (cases e1)
    case None
    with Cons.prems(1) b have "forEach is body s1 = (e, s')" by (simp add: andThen_def)
    then show ?thesis using Cons.IH P1 by blast
  next
    case (Some a)
    with Cons.prems(1) b have "s' = s1" by (simp add: andThen_def)
    then show ?thesis using P1 by simp
  qed
qed

lemma forEach_casc_frame:
  assumes "forEach is (\<lambda>i. onElem oralFormantCasc (\<lambda>x s. s\<lparr>oralFormantCasc := x\<rparr>) i (m i)) s = (e, s')"
  shows "s'\<lparr>oralFormantCasc := z\<rparr> = s\<lparr>oralFormantCasc := z\<rparr>"
  by (rule forEach_preserves [OF assms, where P = "\<lambda>t. t\<lparr>oralFormantCasc := z\<rparr> = s\<lparr>oralFormantCasc := z\<rparr>"])
     (auto simp: onElem_def split: if_splits prod.splits)

lemma forEach_par_frame:
  assumes "forEach is (\<lambda>i. onElem oralFormantPar (\<lambda>x s. s\<lparr>oralFormantPar := x\<rparr>) i (m i)) s = (e, s')"
  shows "s'\<lparr>oralFormantPar := z\<rparr> = s\<lparr>oralFormantPar := z\<rparr>"
  by (rule forEach_preserves [OF assms, where P = "\<lambda>t. t\<lparr>oralFormantPar := z\<rparr> = s\<lparr>oralFormantPar := z\<rparr>"])
     (auto simp: onElem_def split: if_splits prod.splits)

subsection \<open>What the binding of frame parameters leaves as it is\<close>

lemma sequence_preserves:
  assumes "sequence ms s = (e, s')" and "P s"
      and "\<And>m t e' t'. m \<in> set ms \<Longrightarrow> P t \<Longrightarrow> m t = (e', t') \<Longrightarrow> P t'"
  shows "P s'"
  using assms
proof (induction ms arbitrary: s)
  case Nil
  then show ?case by simp
next
  case (Cons m ms)
  obtain e1 s1 where b: "m s = (e1, s1)" by (cases "m s")
  have P1: "P s1" using Cons.prems(3) [of m s e1 s1] Cons.prems(2) b by simp
  have rest: "\<And>m' t e' t'. m' \<in> set ms \<Longrightarrow> P t \<Longrightarrow> m' t = (e', t') \<Longrightarrow> P t'"
    using Cons.prems(3) by (meson list.set_intros(2))
  show ?case
  proof (cases e1)
    case None
    with Cons.prems(1) b have "sequence ms s1 = (e, s')" by (simp add: andThen_def)
    then show ?thesis using Cons.IH [of s1] P1 rest by blast
  next
    case (Some a)
    with Cons.prems(1) b have "s' = s1" by (simp add: andThen_def)
    then show ?thesis using P1 by simp
  qed
qed

lemma forEach_casc_shape:
  assumes "forEach is (\<lambda>i. onElem oralFormantCasc (\<lambda>x s. s\<lparr>oralFormantCasc := x\<rparr>) i (m i)) s = (e, s')"
  shows "\<exists>x. s' = s\<lparr>oralFormantCasc := x\<rparr>"
proof (rule forEach_preserves [OF assms, where P = "\<lambda>t. \<exists>x. t = s\<lparr>oralFormantCasc := x\<rparr>"])
  show "\<exists>x. s = s\<lparr>oralFormantCasc := x\<rparr>" by (rule exI [of _ "oralFormantCasc s"]) simp
qed (auto simp: onElem_def split: if_splits prod.splits)

lemma forEach_par_shape:
  assumes "forEach is (\<lambda>i. onElem oralFormantPar (\<lambda>x s. s\<lparr>oralFormantPar := x\<rparr>) i (m i)) s = (e, s')"
  shows "\<exists>x. s' = s\<lparr>oralFormantPar := x\<rparr>"
proof (rule forEach_preserves [OF assms, where P = "\<lambda>t. \<exists>x. t = s\<lparr>oralFormantPar := x\<rparr>"])
  show "\<exists>x. s = s\<lparr>oralFormantPar := x\<rparr>" by (rule exI [of _ "oralFormantPar s"]) simp
qed (auto simp: onElem_def split: if_splits prod.splits)

lemma startUsing_shape:
  assumes "startUsingNewFrameParameters H s = (e, s')"
  shows "\<exists>a b c d u v w.
           s' = s\<lparr>fState := a, tiltFilter := b, nasalFormantCasc := c, nasalAntiformantCasc := d,
                  oralFormantCasc := u, nasalFormantPar := v, oralFormantPar := w\<rparr>"
proof -
  let ?P = "\<lambda>t. \<exists>a b c d u v w.
           t = s\<lparr>fState := a, tiltFilter := b, nasalFormantCasc := c, nasalAntiformantCasc := d,
                  oralFormantCasc := u, nasalFormantPar := v, oralFormantPar := w\<rparr>"
  have P0: "?P s"
    by (rule exI [of _ "fState s"], rule exI [of _ "tiltFilter s"],
        rule exI [of _ "nasalFormantCasc s"], rule exI [of _ "nasalAntiformantCasc s"],
        rule exI [of _ "oralFormantCasc s"], rule exI [of _ "nasalFormantPar s"],
        rule exI [of _ "oralFormantPar s"]) simp
  show ?thesis
  proof (cases "fParms s")
    case None
    with assms P0 show ?thesis by (simp add: startUsingNewFrameParameters_def)
  next
    case (Some r)
    with assms obtain ms where ms: "sequence ms s = (e, s')"
      and ms_def: "ms = [assign (\<lambda>s. s\<lparr>fState := (fState s)
                           \<lparr>breathinessLin := dbToLin (breathinessDb (H r)),
                            gainLin := dbToLin (gainDb (H r))\<rparr>\<rparr>),
                onField tiltFilter (\<lambda>x s. s\<lparr>tiltFilter := x\<rparr>) (setTiltFilter (tiltDb (H r))),
                assign (\<lambda>s. s\<lparr>fState := (fState s)
                           \<lparr>cascadeVoicingLin := dbToLin (cascadeVoicingDb (H r)),
                            cascadeAspirationLin := dbToLin (cascadeAspirationDb (H r))\<rparr>\<rparr>),
                onField nasalFormantCasc (\<lambda>x s. s\<lparr>nasalFormantCasc := x\<rparr>)
                  (setNasalFormantCasc (H r)),
                onField nasalAntiformantCasc (\<lambda>x s. s\<lparr>nasalAntiformantCasc := x\<rparr>)
                  (setNasalAntiformantCasc (H r)),
                forEach [0..<maxOralFormants]
                  (\<lambda>i. onElem oralFormantCasc (\<lambda>x s. s\<lparr>oralFormantCasc := x\<rparr>) i
                         (setOralFormantCasc (H r) i)),
                assign (\<lambda>s. s\<lparr>fState := (fState s)
                           \<lparr>parallelVoicingLin := dbToLin (parallelVoicingDb (H r)),
                            parallelAspirationLin := dbToLin (parallelAspirationDb (H r)),
                            fricationLin := dbToLin (fricationDb (H r)),
                            parallelBypassLin := dbToLin (parallelBypassDb (H r))\<rparr>\<rparr>),
                onField nasalFormantPar (\<lambda>x s. s\<lparr>nasalFormantPar := x\<rparr>)
                  (setNasalFormantPar (H r)),
                forEach [0..<maxOralFormants]
                  (\<lambda>i. onElem oralFormantPar (\<lambda>x s. s\<lparr>oralFormantPar := x\<rparr>) i
                         (setOralFormantPar (mParms s) (H r) i))]"
      by (simp add: startUsingNewFrameParameters_def Let_def)
    show ?thesis
    proof (rule sequence_preserves [OF ms, where P = ?P, OF P0])
      fix m t e' t'
      assume m: "m \<in> set ms" and t: "?P t" and r: "m t = (e', t')"
      from t obtain a b c d u v w where t: "t = s\<lparr>fState := a, tiltFilter := b, nasalFormantCasc := c, nasalAntiformantCasc := d,
                  oralFormantCasc := u, nasalFormantPar := v, oralFormantPar := w\<rparr>" by blast
      from m have "(\<exists>x. t' = t\<lparr>fState := x\<rparr>) \<or> (\<exists>x. t' = t\<lparr>tiltFilter := x\<rparr>)
          \<or> (\<exists>x. t' = t\<lparr>nasalFormantCasc := x\<rparr>) \<or> (\<exists>x. t' = t\<lparr>nasalAntiformantCasc := x\<rparr>)
          \<or> (\<exists>x. t' = t\<lparr>oralFormantCasc := x\<rparr>) \<or> (\<exists>x. t' = t\<lparr>nasalFormantPar := x\<rparr>)
          \<or> (\<exists>x. t' = t\<lparr>oralFormantPar := x\<rparr>)"
        unfolding ms_def using r
          forEach_casc_shape [of "[0..<maxOralFormants]" "setOralFormantCasc (H r)" t e' t']
          forEach_par_shape [of "[0..<maxOralFormants]" "setOralFormantPar (mParms s) (H r)" t e' t']
        by (auto simp: assign_def onField_def split: prod.splits)
      then show "?P t'" unfolding t by (elim disjE exE; cases s; simp)
    qed
  qed
qed

lemma startUsing_fields:
  assumes "startUsingNewFrameParameters H s = (e, s')"
  shows "mParms s' = mParms s" "fParms s' = fParms s" "newFParms s' = newFParms s"
    "pState s' = pState s" "absPosition s' = absPosition s"
    "flutterTimeOffset s' = flutterTimeOffset s" "impulsiveGSource s' = impulsiveGSource s"
    "naturalGSource s' = naturalGSource s" "glottalSource s' = glottalSource s"
    "random s' = random s" "outputLpFilter s' = outputLpFilter s"
    "aspirationSourceCasc s' = aspirationSourceCasc s"
    "aspirationSourcePar s' = aspirationSourcePar s"
    "fricationSourcePar s' = fricationSourcePar s"
    "differencingFilterPar s' = differencingFilterPar s"
  using startUsing_shape [OF assms] by auto

subsection \<open>The lengths of a period\<close>

lemma startGlottalSourcePeriod_fields:
  assumes "startGlottalSourcePeriod s = (e, s')"
  shows "pState s' = pState s" "fParms s' = fParms s" "mParms s' = mParms s"
    "newFParms s' = newFParms s"
  using assms
  by (auto simp: startGlottalSourcePeriod_def split: if_splits option.splits prod.splits)

text \<open>What a successful period start leaves in the period state.\<close>

lemma startNewPeriod_pState:
  assumes "startNewPeriod H this = (None, this')"
  shows "\<exists>r ps0 pf0 pl.
           fParms this' = Some r
         \<and> pf0 = performFrequencyModulation (f0 (H r)) (flutterLevel (H r))
                   (absPosition this / sampleRate (mParms this) + flutterTimeOffset this)
         \<and> pl = (if 0 < pf0 then Math_round (sampleRate (mParms this) / pf0) else 1)
         \<and> pState this' =
               Some (ps0\<lparr>periodF0 := pf0, periodLength := pl,
                         openPhaseLength :=
                           (if 1 < pl then Math_round (pl * openPhaseRatio (H r)) else 0),
                         positionInPeriod := 0\<rparr>)"
proof -
  from assms obtain s1 where
    s1: "(case newFParms this of
            Some r \<Rightarrow> startUsingNewFrameParameters H (this\<lparr>fParms := Some r, newFParms := None\<rparr>)
          | None \<Rightarrow> (None, this)) = (None, s1)"
    and rest: "(let ps0 = (case pState s1 of None \<Rightarrow> emptyPeriodState | Some ps \<Rightarrow> ps);
              this2 = s1\<lparr>pState := Some ps0\<rparr>;
              mp = mParms this2
          in case fParms this2 of
               None \<Rightarrow> (Some TypeError, this2)
             | Some r \<Rightarrow>
                 let fp = H r;
                     flutterTime = absPosition this2 / sampleRate mp + flutterTimeOffset this2;
                     pf0 = performFrequencyModulation (f0 fp) (flutterLevel fp) flutterTime;
                     pl = (if pf0 > 0 then Math_round (sampleRate mp / pf0) else 1);
                     opl = (if pl > 1 then Math_round (pl * openPhaseRatio fp) else 0);
                     ps1 = ps0\<lparr>periodF0 := pf0, periodLength := pl, openPhaseLength := opl,
                               positionInPeriod := 0\<rparr>
                 in startGlottalSourcePeriod (this2\<lparr>pState := Some ps1\<rparr>)) = (None, this')"
    unfolding startNewPeriod_def andThen_None by blast
  have keep: "mParms s1 = mParms this \<and> absPosition s1 = absPosition this
      \<and> flutterTimeOffset s1 = flutterTimeOffset this"
  proof (cases "newFParms this")
    case None
    with s1 show ?thesis by simp
  next
    case (Some r)
    with s1 show ?thesis by (auto dest: startUsing_fields)
  qed
  from rest obtain r where r: "fParms s1 = Some r"
    by (cases "fParms s1") (simp_all add: Let_def)
  define ps0 where "ps0 = (case pState s1 of None \<Rightarrow> emptyPeriodState | Some ps \<Rightarrow> ps)"
  define pf0 where "pf0 = performFrequencyModulation (f0 (H r)) (flutterLevel (H r))
                   (absPosition this / sampleRate (mParms this) + flutterTimeOffset this)"
  define pl where "pl = (if 0 < pf0 then Math_round (sampleRate (mParms this) / pf0) else 1)"
  define ps1 where "ps1 = ps0\<lparr>periodF0 := pf0, periodLength := pl,
                         openPhaseLength :=
                           (if 1 < pl then Math_round (pl * openPhaseRatio (H r)) else 0),
                         positionInPeriod := 0\<rparr>"
  have g: "startGlottalSourcePeriod (s1\<lparr>pState := Some ps1\<rparr>) = (None, this')"
    using rest r keep
    by (simp add: Let_def ps0_def pf0_def pl_def ps1_def split del: if_split cong: if_cong)
  have "pState this' = Some ps1" "fParms this' = Some r"
    using startGlottalSourcePeriod_fields(1,2) [OF g] r by simp_all
  then show ?thesis
    unfolding ps1_def pl_def pf0_def by blast
qed

lemma floor_half_ge_1: "0 < f \<Longrightarrow> f \<le> 2 * sr \<Longrightarrow> 1 \<le> \<lfloor>sr / f + 1 / 2 :: real\<rfloor>"
proof -
  assume f: "0 < f" "f \<le> 2 * sr"
  then have "1 / 2 \<le> sr / f" by (simp add: pos_le_divide_eq)
  then have "(1::real) \<le> sr / f + 1 / 2" by linarith
  then have "of_int 1 \<le> sr / f + 1 / 2" by simp
  then show ?thesis by (simp only: le_floor_iff)
qed

lemma floor_half_ge_0: "0 \<le> x \<Longrightarrow> 0 \<le> \<lfloor>x + 1 / 2 :: real\<rfloor>"
  by (simp add: le_floor_iff)

lemma floor_ratio_le:
  fixes \<rho> :: real and N :: int
  assumes "0 < \<rho>" "\<rho> < 1" "0 \<le> N"
  shows "0 \<le> \<lfloor>of_int N * \<rho> + 1 / 2\<rfloor> \<and> \<lfloor>of_int N * \<rho> + 1 / 2\<rfloor> \<le> N"
proof -
  have "0 \<le> of_int N * \<rho>" using assms by simp
  then have a: "0 \<le> \<lfloor>of_int N * \<rho> + 1 / 2\<rfloor>" by (rule floor_half_ge_0)
  have "of_int N * \<rho> \<le> of_int N * 1" using assms by (intro mult_left_mono) simp_all
  then have "of_int N * \<rho> + 1 / 2 < of_int N + 1" by simp
  then have "\<lfloor>of_int N * \<rho> + 1 / 2\<rfloor> \<le> N" by (simp only: floor_le_iff)
  with a show ?thesis by simp
qed

text \<open>
  Claim C3, amended. A period start that succeeds, in a generator with a positive
  sample rate, leaves a period length \<open>N \<ge> 0\<close>, an integer; when the modulated F0 is not
  positive (or is NaN), \<open>N = 1\<close> and the open phase length is 0; when it is positive and at
  most twice the sample rate, \<open>N \<ge> 1\<close>; and for an open phase ratio in \<open>(0, 1)\<close> the open
  phase length \<open>M\<close> is an integer with \<open>0 \<le> M \<le> N\<close>.
\<close>

theorem startNewPeriod_lengths:
  assumes "startNewPeriod H this = (None, this')"
      and "sampleRate (mParms this) = Fin sr" and "0 < sr"
  shows "\<exists>r ps N. fParms this' = Some r \<and> pState this' = Some ps
            \<and> positionInPeriod ps = 0
            \<and> periodLength ps = Fin (of_int N) \<and> 0 \<le> N
            \<and> (\<not> 0 < periodF0 ps \<longrightarrow> N = 1 \<and> openPhaseLength ps = 0)
            \<and> (0 < periodF0 ps \<and> periodF0 ps \<le> Fin (2 * sr) \<longrightarrow> 1 \<le> N)
            \<and> (\<forall>\<rho>. openPhaseRatio (H r) = Fin \<rho> \<and> 0 < \<rho> \<and> \<rho> < 1
                  \<longrightarrow> (\<exists>M. openPhaseLength ps = Fin (of_int M) \<and> 0 \<le> M \<and> M \<le> N))"
proof -
  from startNewPeriod_pState [OF assms(1)] obtain r ps0 pf0 pl where
    r: "fParms this' = Some r"
    and pl: "pl = (if 0 < pf0 then Math_round (sampleRate (mParms this) / pf0) else 1)"
    and ps: "pState this' =
               Some (ps0\<lparr>periodF0 := pf0, periodLength := pl,
                         openPhaseLength :=
                           (if 1 < pl then Math_round (pl * openPhaseRatio (H r)) else 0),
                         positionInPeriod := 0\<rparr>)"
    by blast
  have "\<exists>N. pl = Fin (of_int N) \<and> 0 \<le> N \<and> (\<not> 0 < pf0 \<longrightarrow> N = 1)
            \<and> (0 < pf0 \<and> pf0 \<le> Fin (2 * sr) \<longrightarrow> 1 \<le> N)"
  proof (cases pf0)
    case NaN
    then show ?thesis using pl by (simp add: zero_number_def one_number_def exI [of _ 1])
  next
    case NInf
    then show ?thesis using pl by (simp add: zero_number_def one_number_def exI [of _ 1])
  next
    case PInf
    then show ?thesis using pl assms(2) by (simp add: zero_number_def exI [of _ 0])
  next
    case (Fin f)
    show ?thesis
    proof (cases "0 < f")
      case True
      then have "pl = Fin (of_int \<lfloor>sr / f + 1 / 2\<rfloor>)"
        using pl Fin assms(2) by (simp add: zero_number_def)
      moreover have "0 \<le> \<lfloor>sr / f + 1 / 2\<rfloor>"
        using True assms(3) by (intro floor_half_ge_0) simp
      moreover have "f \<le> 2 * sr \<longrightarrow> 1 \<le> \<lfloor>sr / f + 1 / 2\<rfloor>"
        using True floor_half_ge_1 by blast
      ultimately show ?thesis using Fin True by (auto simp: zero_number_def)
    next
      case False
      then show ?thesis using pl Fin by (simp add: zero_number_def one_number_def exI [of _ 1])
    qed
  qed
  then obtain N where N: "pl = Fin (of_int N)" "0 \<le> N" "\<not> 0 < pf0 \<longrightarrow> N = 1"
    "0 < pf0 \<and> pf0 \<le> Fin (2 * sr) \<longrightarrow> 1 \<le> N" by blast
  have opl: "\<exists>M. (if 1 < pl then Math_round (pl * openPhaseRatio (H r)) else 0) = Fin (of_int M)
               \<and> 0 \<le> M \<and> M \<le> N"
    if "openPhaseRatio (H r) = Fin \<rho>" "0 < \<rho>" "\<rho> < 1" for \<rho>
  proof (cases "1 < N")
    case True
    then show ?thesis
      using that N(1,2) floor_ratio_le [of \<rho> N]
      by (simp add: one_number_def)
  next
    case False
    then show ?thesis using N(1,2) by (simp add: one_number_def zero_number_def exI [of _ 0])
  qed
  have unv: "\<not> 0 < pf0 \<longrightarrow> (if 1 < pl then Math_round (pl * openPhaseRatio (H r)) else 0) = 0"
    using N(1,3) by (simp add: one_number_def)
  show ?thesis
    apply (rule exI [of _ r])
    apply (rule exI [of _ "ps0\<lparr>periodF0 := pf0, periodLength := pl,
                         openPhaseLength :=
                           (if 1 < pl then Math_round (pl * openPhaseRatio (H r)) else 0),
                         positionInPeriod := 0\<rparr>"])
    apply (rule exI [of _ N])
    using r ps N opl unv by (simp split del: if_split)
qed

subsection \<open>What the computation of a sample leaves as it is\<close>

lemma LpFilter1_step_coeffs [simp]:
  "LpFilter1_coeffs (snd (LpFilter1_step x flt)) = LpFilter1_coeffs flt"
  by (simp add: LpFilter1_step_def LpFilter1_coeffs_def Let_def)

lemma Resonator_step_coeffs [simp]:
  "Resonator_coeffs (snd (Resonator_step x res)) = Resonator_coeffs res"
  by (simp add: Resonator_step_def Resonator_coeffs_def Let_def)

lemma AntiResonator_step_coeffs [simp]:
  "AntiResonator_coeffs (snd (AntiResonator_step x ares)) = AntiResonator_coeffs ares"
  by (simp add: AntiResonator_step_def AntiResonator_coeffs_def Let_def)

lemma LpNoiseSource_getNext_coeffs [simp]:
  "LpFilter1_coeffs (ns_lpFilter (fst (snd (LpNoiseSource_getNext src rnd))))
     = LpFilter1_coeffs (ns_lpFilter src)"
  by (simp add: LpNoiseSource_getNext_def Let_def split: prod.splits)
     (metis LpFilter1_step_coeffs snd_conv)

lemma LpFilter1_step_coeffsD:
  "LpFilter1_step x flt = (y, flt') \<Longrightarrow> LpFilter1_coeffs flt' = LpFilter1_coeffs flt"
  using LpFilter1_step_coeffs [of x flt] by simp

lemma Resonator_step_coeffsD:
  "Resonator_step x res = (y, res') \<Longrightarrow> Resonator_coeffs res' = Resonator_coeffs res"
  using Resonator_step_coeffs [of x res] by simp

lemma AntiResonator_step_coeffsD:
  "AntiResonator_step x ares = (y, ares') \<Longrightarrow> AntiResonator_coeffs ares' = AntiResonator_coeffs ares"
  using AntiResonator_step_coeffs [of x ares] by simp

lemma LpNoiseSource_getNext_coeffsD:
  "LpNoiseSource_getNext src rnd = (y, src', rnd')
     \<Longrightarrow> LpFilter1_coeffs (ns_lpFilter src') = LpFilter1_coeffs (ns_lpFilter src)"
  using LpNoiseSource_getNext_coeffs [of src rnd] by simp

lemmas step_coeffsD =
  LpFilter1_step_coeffsD Resonator_step_coeffsD AntiResonator_step_coeffsD
  LpNoiseSource_getNext_coeffsD

lemma sameSetup_refl [simp]: "sameSetup s s"
  by (simp add: sameSetup_def)

lemma sameSetup_trans: "sameSetup s t \<Longrightarrow> sameSetup t u \<Longrightarrow> sameSetup s u"
  by (simp add: sameSetup_def)

lemma callGlottalSource_same:
  assumes "callGlottalSource s = (res, s')"
  shows "sameSetup s s'"
  using assms
  by (auto simp: callGlottalSource_def sameSetup_def config_def filterConfig_def sourceConfig_def
      ImpulsiveGlottalSource_getNext_def NaturalGlottalSource_getNext_def Let_def
      split: GlottalSourceFn.splits option.splits prod.splits if_splits
      dest: step_coeffsD)

text \<open>The loops over the oral formant filters.\<close>

lemma stepOralFormantCasc_same:
  assumes "stepOralFormantCasc i (v, s) = (e, (v', s'))"
  shows "sameSetup s s'"
  using assms
  by (auto simp: stepOralFormantCasc_def sameSetup_def config_def filterConfig_def sourceConfig_def
      map_update list_eq_iff_nth_eq nth_list_update
      split: if_splits prod.splits dest: step_coeffsD)

lemma stepOralFormantPar_same:
  assumes "stepOralFormantPar sg x i (v, s) = (e, (v', s'))"
  shows "sameSetup s s'"
  using assms
  by (auto simp: stepOralFormantPar_def sameSetup_def config_def filterConfig_def sourceConfig_def
      map_update list_eq_iff_nth_eq nth_list_update
      split: if_splits prod.splits dest: step_coeffsD)

lemma forEach_same:
  assumes "forEach is body (v, s) = (e, (v', s'))"
      and "\<And>i v t e' v' t'. body i (v, t) = (e', (v', t')) \<Longrightarrow> sameSetup t t'"
  shows "sameSetup s s'"
proof -
  have "sameSetup s (snd (v', s'))"
  proof (rule forEach_preserves [OF assms(1), where P = "\<lambda>st. sameSetup s (snd st)"])
    show "sameSetup s (snd (v, s))" by simp
  next
    fix i t e' t'
    assume t: "sameSetup s (snd t)" and b: "body i t = (e', t')"
    from b have "sameSetup (snd t) (snd t')"
      using assms(2) [of i "fst t" "snd t" e' "fst t'" "snd t'"] by simp
    with t show "sameSetup s (snd t')" by (rule sameSetup_trans)
  qed
  then show ?thesis by simp
qed

lemma computeCascadeBranch_same:
  assumes "computeCascadeBranch fp ps voice s = (res, s')"
  shows "sameSetup s s'"
proof -
  obtain n src rnd where n: "LpNoiseSource_getNext (aspirationSourceCasc s) (random s) = (n, src, rnd)"
    by (cases "LpNoiseSource_getNext (aspirationSourceCasc s) (random s)") auto
  define v0 where "v0 = voice * cascadeVoicingLin (fState s)
     + n * cascadeAspirationLin (fState s)
         * (1 - (if positionInPeriod ps \<ge> periodLength ps / Fin 2 then cascadeAspirationMod fp else 0))"
  obtain v1 ares where a: "AntiResonator_step v0 (nasalAntiformantCasc s) = (v1, ares)"
    by (cases "AntiResonator_step v0 (nasalAntiformantCasc s)")
  obtain v2 rs where r: "Resonator_step v1 (nasalFormantCasc s) = (v2, rs)"
    by (cases "Resonator_step v1 (nasalFormantCasc s)")
  define s1 where "s1 = s\<lparr>aspirationSourceCasc := src, random := rnd,
                       nasalAntiformantCasc := ares, nasalFormantCasc := rs\<rparr>"
  have 1: "sameSetup s s1"
    using n a r
    by (auto simp: s1_def sameSetup_def config_def filterConfig_def sourceConfig_def
        dest: step_coeffsD)
  obtain e v s2 where f: "forEach [0..<maxOralFormants] stepOralFormantCasc (v2, s1) = (e, (v, s2))"
    by (cases "forEach [0..<maxOralFormants] stepOralFormantCasc (v2, s1)") auto
  have 2: "sameSetup s1 s2"
    by (rule forEach_same [OF f]) (rule stepOralFormantCasc_same)
  have "s' = s2"
    using assms n a r f
    by (simp add: computeCascadeBranch_def Let_def v0_def s1_def split: option.splits)
  then show ?thesis using 1 2 by (auto intro: sameSetup_trans)
qed

subsection \<open>The parallel branch\<close>

lemma parallelSource_coeffs:
  assumes "parallelSource fp ps voice s = (x, src, rnd)"
  shows "LpFilter1_coeffs (ns_lpFilter src) = LpFilter1_coeffs (ns_lpFilter (aspirationSourcePar s))"
  using assms
  by (auto simp: parallelSource_def Let_def split: prod.splits dest: step_coeffsD)

lemma parallelSource2_coeffs:
  assumes "parallelSource2 fp ps x rnd s = (x2, dflt, src, rnd')"
  shows "LpFilter1_coeffs (ns_lpFilter src) = LpFilter1_coeffs (ns_lpFilter (fricationSourcePar s))"
  using assms
  by (auto simp: parallelSource2_def Let_def split: prod.splits dest: step_coeffsD)

lemma computeParallelBranch_same:
  assumes "computeParallelBranch fp ps voice s = (res, s')"
  shows "sameSetup s s'"
proof -
  obtain source asrc rnd1 where p1: "parallelSource fp ps voice s = (source, asrc, rnd1)"
    by (cases "parallelSource fp ps voice s") auto
  obtain source2 dflt fsrc rnd2 where p2: "parallelSource2 fp ps source rnd1 s = (source2, dflt, fsrc, rnd2)"
    by (cases "parallelSource2 fp ps source rnd1 s") auto
  obtain y rs where r: "Resonator_step source (nasalFormantPar s) = (y, rs)"
    by (cases "Resonator_step source (nasalFormantPar s)")
  define s2 where "s2 = s\<lparr>aspirationSourcePar := asrc, differencingFilterPar := dflt,
                       fricationSourcePar := fsrc, random := rnd2, nasalFormantPar := rs\<rparr>"
  have 1: "sameSetup s s2"
    using parallelSource_coeffs [OF p1] parallelSource2_coeffs [OF p2] r
    by (auto simp: s2_def sameSetup_def config_def filterConfig_def sourceConfig_def
        dest: step_coeffsD)
  obtain e1 v1 s3 where f1: "stepOralFormantPar 1 source 0 (0 + y, s2) = (e1, (v1, s3))"
    by (cases "stepOralFormantPar 1 source 0 (0 + y, s2)") auto
  have 2: "sameSetup s2 s3" by (rule stepOralFormantPar_same [OF f1])
  obtain e v s4 where f: "andThen (stepOralFormantPar 1 source 0 (0 + y, s2))
                (forEach [1..<maxOralFormants]
                   (\<lambda>i. stepOralFormantPar (alternatingSign i) source2 i)) = (e, (v, s4))"
    by (cases "andThen (stepOralFormantPar 1 source 0 (0 + y, s2))
                (forEach [1..<maxOralFormants]
                   (\<lambda>i. stepOralFormantPar (alternatingSign i) source2 i))") auto
  have 3: "sameSetup s3 s4"
  proof (cases e1)
    case None
    with f f1 have "forEach [1..<maxOralFormants]
                   (\<lambda>i. stepOralFormantPar (alternatingSign i) source2 i) (v1, s3) = (e, (v, s4))"
      by (simp add: andThen_def)
    then show ?thesis by (rule forEach_same) (rule stepOralFormantPar_same)
  next
    case (Some a)
    with f f1 show ?thesis by (simp add: andThen_def)
  qed
  have "s' = s4"
    using assms p1 p2 r f
    by (simp add: computeParallelBranch_def Let_def s2_def split: option.splits)
  then show ?thesis using 1 2 3 by (auto intro: sameSetup_trans)
qed

lemma stepOralFormantPar_ok:
  assumes "i < length (oralFormantPar s)"
  shows "stepOralFormantPar sg x i (v, s) =
           (None, (v + sg * fst (Resonator_step x (oralFormantPar s ! i)),
                   s\<lparr>oralFormantPar :=
                       (oralFormantPar s)[i := snd (Resonator_step x (oralFormantPar s ! i))]\<rparr>))"
  using assms by (simp add: stepOralFormantPar_def split_beta)

lemma alternatingSign_eq: "alternatingSign i = Fin ((- 1) ^ i)"
proof (cases "even i")
  case True
  then show ?thesis by (simp add: alternatingSign_def one_number_def even_iff_mod_2_eq_zero)
next
  case False
  then show ?thesis by (simp add: alternatingSign_def one_number_def even_iff_mod_2_eq_zero)
qed

lemma forEach_stepOralFormantPar:
  assumes "\<forall>i \<in> set is. i < length (oralFormantPar s)" and "distinct is"
  shows "\<exists>s'. forEach is (\<lambda>i. stepOralFormantPar (sg i) x i) (v, s) =
                (None, (foldl (+) v
                          (map (\<lambda>i. sg i * fst (Resonator_step x (oralFormantPar s ! i))) is),
                        s'))
              \<and> fState s' = fState s
              \<and> length (oralFormantPar s') = length (oralFormantPar s)
              \<and> (\<forall>j. j \<notin> set is \<longrightarrow> oralFormantPar s' ! j = oralFormantPar s ! j)"
  using assms
proof (induction "is" arbitrary: v s)
  case Nil
  then show ?case by simp
next
  case (Cons i "is")
  define s1 where "s1 = s\<lparr>oralFormantPar :=
                       (oralFormantPar s)[i := snd (Resonator_step x (oralFormantPar s ! i))]\<rparr>"
  define v1 where "v1 = v + sg i * fst (Resonator_step x (oralFormantPar s ! i))"
  have step: "stepOralFormantPar (sg i) x i (v, s) = (None, (v1, s1))"
    using Cons.prems(1) by (simp add: stepOralFormantPar_ok s1_def v1_def)
  have len: "length (oralFormantPar s1) = length (oralFormantPar s)" by (simp add: s1_def)
  have same: "oralFormantPar s1 ! j = oralFormantPar s ! j" if "j \<noteq> i" for j
    using that by (simp add: s1_def)
  have "\<forall>j \<in> set is. j < length (oralFormantPar s1)" using Cons.prems(1) len by simp
  moreover have "distinct is" using Cons.prems(2) by simp
  ultimately obtain s' where
    s': "forEach is (\<lambda>i. stepOralFormantPar (sg i) x i) (v1, s1) =
                (None, (foldl (+) v1
                          (map (\<lambda>i. sg i * fst (Resonator_step x (oralFormantPar s1 ! i))) is),
                        s'))"
    "fState s' = fState s1" "length (oralFormantPar s') = length (oralFormantPar s1)"
    "\<forall>j. j \<notin> set is \<longrightarrow> oralFormantPar s' ! j = oralFormantPar s1 ! j"
    using Cons.IH [of s1 v1] by blast
  have notin: "i \<notin> set is" using Cons.prems(2) by simp
  have m: "map (\<lambda>i. sg i * fst (Resonator_step x (oralFormantPar s1 ! i))) is
         = map (\<lambda>i. sg i * fst (Resonator_step x (oralFormantPar s ! i))) is"
  proof (intro map_cong refl)
    fix j assume "j \<in> set is"
    with notin have "j \<noteq> i" by auto
    then show "sg j * fst (Resonator_step x (oralFormantPar s1 ! j))
             = sg j * fst (Resonator_step x (oralFormantPar s ! j))"
      by (simp add: same)
  qed
  show ?case
    apply (rule exI [of _ s'])
    using step s'(1) [unfolded m] s'(2-4) len same by (simp add: andThen_def v1_def s1_def)
qed

lemma computeParallelBranch_value:
  assumes "length (oralFormantPar this) = maxOralFormants"
  shows "fst (computeParallelBranch fp ps voice this) =
           Inr (parallelSum (\<lambda>i. Fin ((- 1) ^ i))
                  (fst (parallelSource fp ps voice this))
                  (fst (parallelSource2 fp ps (fst (parallelSource fp ps voice this))
                          (snd (snd (parallelSource fp ps voice this))) this))
                  this)"
proof -
  obtain source asrc rnd1 where p1: "parallelSource fp ps voice this = (source, asrc, rnd1)"
    by (cases "parallelSource fp ps voice this") auto
  obtain source2 dflt fsrc rnd2 where
    p2: "parallelSource2 fp ps source rnd1 this = (source2, dflt, fsrc, rnd2)"
    by (cases "parallelSource2 fp ps source rnd1 this") auto
  obtain y rs where r: "Resonator_step source (nasalFormantPar this) = (y, rs)"
    by (cases "Resonator_step source (nasalFormantPar this)")
  define s2 where "s2 = this\<lparr>aspirationSourcePar := asrc, differencingFilterPar := dflt,
                       fricationSourcePar := fsrc, random := rnd2, nasalFormantPar := rs\<rparr>"
  define s3 where "s3 = s2\<lparr>oralFormantPar :=
                       (oralFormantPar s2)[0 := snd (Resonator_step source (oralFormantPar s2 ! 0))]\<rparr>"
  define v1 where "v1 = y + fst (Resonator_step source (oralFormantPar this ! 0))"
  have len2: "length (oralFormantPar s2) = 6"
    using assms by (simp add: s2_def maxOralFormants_def)
  have f1: "stepOralFormantPar 1 source 0 (0 + y, s2) = (None, (v1, s3))"
    using len2 by (simp add: stepOralFormantPar_ok s3_def v1_def s2_def)
  have len3: "length (oralFormantPar s3) = 6" using len2 by (simp add: s3_def)
  have "\<forall>i \<in> set [1..<maxOralFormants]. i < length (oralFormantPar s3)"
    using len3 by (simp add: maxOralFormants_def)
  then obtain s4 where
    f: "forEach [1..<maxOralFormants] (\<lambda>i. stepOralFormantPar (alternatingSign i) source2 i) (v1, s3) =
          (None, (foldl (+) v1
                    (map (\<lambda>i. alternatingSign i * fst (Resonator_step source2 (oralFormantPar s3 ! i)))
                       [1..<maxOralFormants]), s4))"
    and fs: "fState s4 = fState s3"
    using forEach_stepOralFormantPar [of "[1..<maxOralFormants]" s3 alternatingSign source2 v1]
    by auto
  have m: "map (\<lambda>i. alternatingSign i * fst (Resonator_step source2 (oralFormantPar s3 ! i)))
             [1..<maxOralFormants]
         = map (\<lambda>i. Fin ((- 1) ^ i) * fst (Resonator_step source2 (oralFormantPar this ! i)))
             [1..<maxOralFormants]"
    by (intro map_cong) (auto simp: alternatingSign_eq s3_def s2_def)
  have "fst (computeParallelBranch fp ps voice this) =
          Inr (foldl (+) v1
                 (map (\<lambda>i. alternatingSign i * fst (Resonator_step source2 (oralFormantPar s3 ! i)))
                    [1..<maxOralFormants])
               + parallelBypassLin (fState this) * source2)"
    using p1 p2 r f1 f fs
    by (simp add: computeParallelBranch_def Let_def andThen_def s2_def [symmetric] del: One_nat_def)
       (simp add: s3_def s2_def)
  then show ?thesis
    unfolding m parallelSum_def v1_def using p1 p2 r by simp
qed

text \<open>
  Claim C2, amended. With its six oral formant filters, the parallel branch returns
  \<open>nasal(source) + oral[0](source) + (\<Sum>i = 1..5. (-1)^i * oral[i](source2)) + bypass * source2\<close>,
  added in this order: the sign of \<open>oral[i]\<close> is \<open>(-1)^i\<close>, negative for \<open>oral[1]\<close> (F2).
\<close>

theorem computeParallelBranch_sum:
  assumes "length (oralFormantPar this) = maxOralFormants"
  shows "fst (computeParallelBranch fp ps voice this) =
           Inr (parallelSum (\<lambda>i. Fin ((- 1) ^ i))
                  (fst (parallelSource fp ps voice this))
                  (fst (parallelSource2 fp ps (fst (parallelSource fp ps voice this))
                          (snd (snd (parallelSource fp ps voice this))) this))
                  this)"
  by (rule computeParallelBranch_value [OF assms])

subsection \<open>What a whole sample leaves as it is\<close>

text \<open>The whole sample\<close>

lemma computeNextOutputSignalSample_same:
  assumes "computeNextOutputSignalSample H s = (res, s')"
  shows "sameSetup s s'"
proof -
  obtain r1 s1 where c: "callGlottalSource s = (r1, s1)" by (cases "callGlottalSource s")
  have 1: "sameSetup s s1" by (rule callGlottalSource_same [OF c])
  show ?thesis
  proof (cases r1)
    case (Inl e)
    with assms c 1 show ?thesis by (simp add: computeNextOutputSignalSample_def)
  next
    case (Inr voice0)
    obtain voice1 tf where t: "LpFilter1_step voice0 (tiltFilter s1) = (voice1, tf)"
      by (cases "LpFilter1_step voice0 (tiltFilter s1)")
    let ?s2 = "s1\<lparr>tiltFilter := tf\<rparr>"
    have 2: "sameSetup s1 ?s2"
      using t by (auto simp: sameSetup_def config_def filterConfig_def sourceConfig_def
          dest: step_coeffsD)
    show ?thesis
    proof (cases "pState s1")
      case None
      with assms c Inr t 1 2 show ?thesis
        by (auto simp: computeNextOutputSignalSample_def intro: sameSetup_trans)
    next
      case (Some ps)
      obtain voice2 s3 where b: "(if positionInPeriod ps < openPhaseLength ps
                           then (let (n, rnd) = getWhiteNoise (random ?s2)
                                 in (voice1 + n * breathinessLin (fState ?s2),
                                     ?s2\<lparr>random := rnd\<rparr>))
                           else (voice1, ?s2)) = (voice2, s3)"
        by (cases "(if positionInPeriod ps < openPhaseLength ps
                           then (let (n, rnd) = getWhiteNoise (random ?s2)
                                 in (voice1 + n * breathinessLin (fState ?s2),
                                     ?s2\<lparr>random := rnd\<rparr>))
                           else (voice1, ?s2))")
      have 3: "sameSetup ?s2 s3"
        using b by (auto simp: sameSetup_def config_def filterConfig_def sourceConfig_def Let_def
            split: if_splits prod.splits)
      have 03: "sameSetup s s3" using 1 2 3 by (blast intro: sameSetup_trans)
      show ?thesis
      proof (cases "fParms s3")
        case None
        with assms c Inr t Some b 03 show ?thesis
          by (simp add: computeNextOutputSignalSample_def)
      next
        case fp: (Some r)
        obtain r4 s4 where c4: "(if cascadeEnabled (H r)
                                   then computeCascadeBranch (H r) ps voice2 s3
                                   else (Inr 0, s3)) = (r4, s4)"
          by (cases "(if cascadeEnabled (H r)
                                   then computeCascadeBranch (H r) ps voice2 s3
                                   else (Inr 0, s3))")
        have 4: "sameSetup s3 s4"
          using c4 computeCascadeBranch_same by (auto split: if_splits)
        show ?thesis
        proof (cases r4)
          case (Inl e)
          with assms c Inr t Some b fp c4 03 4 show ?thesis
            by (auto simp: computeNextOutputSignalSample_def
                intro: sameSetup_trans)
        next
          case r4: (Inr cascadeOut)
          obtain r5 s5 where c5: "(if parallelEnabled (H r)
                                        then computeParallelBranch (H r) ps voice2 s4
                                        else (Inr 0, s4)) = (r5, s5)"
            by (cases "(if parallelEnabled (H r)
                                        then computeParallelBranch (H r) ps voice2 s4
                                        else (Inr 0, s4))")
          have 5: "sameSetup s4 s5"
            using c5 computeParallelBranch_same by (auto split: if_splits)
          have 05: "sameSetup s s5" using 03 4 5 by (blast intro: sameSetup_trans)
          show ?thesis
          proof (cases r5)
            case (Inl e)
            with assms c Inr t Some b fp c4 r4 c5 05 show ?thesis
              by (simp add: computeNextOutputSignalSample_def)
          next
            case r5: (Inr parallelOut)
            obtain out1 lpf where o: "Resonator_step (cascadeOut + parallelOut) (outputLpFilter s5)
                                        = (out1, lpf)"
              by (cases "Resonator_step (cascadeOut + parallelOut) (outputLpFilter s5)")
            have 6: "sameSetup s5 (s5\<lparr>outputLpFilter := lpf\<rparr>)"
              using o by (auto simp: sameSetup_def config_def filterConfig_def sourceConfig_def
                  dest: step_coeffsD)
            have "s' = s5\<lparr>outputLpFilter := lpf\<rparr>"
              using assms c Inr t Some b fp c4 r4 c5 r5 o
              by (simp add: computeNextOutputSignalSample_def Let_def)
            with 05 6 show ?thesis by (blast intro: sameSetup_trans)
          qed
        qed
      qed
    qed
  qed
qed

subsection \<open>The pending parameters have no influence on a sample\<close>

text \<open>The pending parameters are not read\<close>

lemma pending_out:
  "(t\<lparr>newFParms := x\<rparr>)\<lparr>tiltFilter := a1\<rparr> = (t\<lparr>tiltFilter := a1\<rparr>)\<lparr>newFParms := x\<rparr>"
  "(t\<lparr>newFParms := x\<rparr>)\<lparr>random := a2\<rparr> = (t\<lparr>random := a2\<rparr>)\<lparr>newFParms := x\<rparr>"
  "(t\<lparr>newFParms := x\<rparr>)\<lparr>impulsiveGSource := a3\<rparr> = (t\<lparr>impulsiveGSource := a3\<rparr>)\<lparr>newFParms := x\<rparr>"
  "(t\<lparr>newFParms := x\<rparr>)\<lparr>naturalGSource := a4\<rparr> = (t\<lparr>naturalGSource := a4\<rparr>)\<lparr>newFParms := x\<rparr>"
  "(t\<lparr>newFParms := x\<rparr>)\<lparr>aspirationSourceCasc := a5\<rparr> = (t\<lparr>aspirationSourceCasc := a5\<rparr>)\<lparr>newFParms := x\<rparr>"
  "(t\<lparr>newFParms := x\<rparr>)\<lparr>nasalAntiformantCasc := a6\<rparr> = (t\<lparr>nasalAntiformantCasc := a6\<rparr>)\<lparr>newFParms := x\<rparr>"
  "(t\<lparr>newFParms := x\<rparr>)\<lparr>nasalFormantCasc := a7\<rparr> = (t\<lparr>nasalFormantCasc := a7\<rparr>)\<lparr>newFParms := x\<rparr>"
  "(t\<lparr>newFParms := x\<rparr>)\<lparr>oralFormantCasc := a8\<rparr> = (t\<lparr>oralFormantCasc := a8\<rparr>)\<lparr>newFParms := x\<rparr>"
  "(t\<lparr>newFParms := x\<rparr>)\<lparr>aspirationSourcePar := a9\<rparr> = (t\<lparr>aspirationSourcePar := a9\<rparr>)\<lparr>newFParms := x\<rparr>"
  "(t\<lparr>newFParms := x\<rparr>)\<lparr>differencingFilterPar := b1\<rparr> = (t\<lparr>differencingFilterPar := b1\<rparr>)\<lparr>newFParms := x\<rparr>"
  "(t\<lparr>newFParms := x\<rparr>)\<lparr>fricationSourcePar := b2\<rparr> = (t\<lparr>fricationSourcePar := b2\<rparr>)\<lparr>newFParms := x\<rparr>"
  "(t\<lparr>newFParms := x\<rparr>)\<lparr>nasalFormantPar := b3\<rparr> = (t\<lparr>nasalFormantPar := b3\<rparr>)\<lparr>newFParms := x\<rparr>"
  "(t\<lparr>newFParms := x\<rparr>)\<lparr>oralFormantPar := b4\<rparr> = (t\<lparr>oralFormantPar := b4\<rparr>)\<lparr>newFParms := x\<rparr>"
  "(t\<lparr>newFParms := x\<rparr>)\<lparr>outputLpFilter := b5\<rparr> = (t\<lparr>outputLpFilter := b5\<rparr>)\<lparr>newFParms := x\<rparr>"
  "(t\<lparr>newFParms := x\<rparr>)\<lparr>pState := b6\<rparr> = (t\<lparr>pState := b6\<rparr>)\<lparr>newFParms := x\<rparr>"
  "(t\<lparr>newFParms := x\<rparr>)\<lparr>absPosition := b7\<rparr> = (t\<lparr>absPosition := b7\<rparr>)\<lparr>newFParms := x\<rparr>"
  by simp_all

lemma callGlottalSource_pending:
  "callGlottalSource (s\<lparr>newFParms := x\<rparr>) = apsnd (\<lambda>t. t\<lparr>newFParms := x\<rparr>) (callGlottalSource s)"
  by (simp add: callGlottalSource_def split_beta Let_def pending_out
      split: GlottalSourceFn.splits option.splits)

lemma forEach_commute:
  assumes "\<And>i st. body i (T st) = apsnd T (body i st)"
  shows "forEach is body (T st) = apsnd T (forEach is body st)"
proof (induction "is" arbitrary: st)
  case Nil
  then show ?case by simp
next
  case (Cons i "is")
  obtain e st1 where b: "body i st = (e, st1)" by (cases "body i st")
  show ?case
    using b assms [of i st] Cons.IH [of st1]
    by (cases e) (simp_all add: andThen_def)
qed

lemma stepOralFormantCasc_pending:
  "stepOralFormantCasc i (apsnd (\<lambda>t. t\<lparr>newFParms := x\<rparr>) st)
     = apsnd (apsnd (\<lambda>t. t\<lparr>newFParms := x\<rparr>)) (stepOralFormantCasc i st)"
  by (cases st) (simp add: stepOralFormantCasc_def split_beta pending_out)

lemma stepOralFormantPar_pending:
  "stepOralFormantPar sg y i (apsnd (\<lambda>t. t\<lparr>newFParms := x\<rparr>) st)
     = apsnd (apsnd (\<lambda>t. t\<lparr>newFParms := x\<rparr>)) (stepOralFormantPar sg y i st)"
  by (cases st) (simp add: stepOralFormantPar_def split_beta pending_out)

lemma computeCascadeBranch_pending:
  "computeCascadeBranch fp ps voice (s\<lparr>newFParms := x\<rparr>)
     = apsnd (\<lambda>t. t\<lparr>newFParms := x\<rparr>) (computeCascadeBranch fp ps voice s)"
proof -
  have "forEach is stepOralFormantCasc (v, t\<lparr>newFParms := x\<rparr>)
          = apsnd (apsnd (\<lambda>t. t\<lparr>newFParms := x\<rparr>)) (forEach is stepOralFormantCasc (v, t))"
    for "is" v t
    using forEach_commute [of stepOralFormantCasc "apsnd (\<lambda>t. t\<lparr>newFParms := x\<rparr>)" "is" "(v, t)",
            OF stepOralFormantCasc_pending]
    by simp
  then show ?thesis
    by (simp add: computeCascadeBranch_def split_beta Let_def pending_out
        split: option.splits)
qed

lemma andThen_commute:
  assumes "\<And>st. f (T st) = apsnd T (f st)"
  shows "andThen (apsnd T r) f = apsnd T (andThen r f)"
  using assms by (cases r) (simp add: andThen_def split: option.splits)

lemma computeParallelBranch_pending:
  "computeParallelBranch fp ps voice (s\<lparr>newFParms := x\<rparr>)
     = apsnd (\<lambda>t. t\<lparr>newFParms := x\<rparr>) (computeParallelBranch fp ps voice s)"
proof -
  let ?T = "apsnd (\<lambda>t. t\<lparr>newFParms := x\<rparr>) :: number \<times> Generator \<Rightarrow> number \<times> Generator"
  have f: "forEach is (\<lambda>i. stepOralFormantPar (sg i) y i) (?T st)
          = apsnd ?T (forEach is (\<lambda>i. stepOralFormantPar (sg i) y i) st)"
    for "is" sg y st
    by (rule forEach_commute) (rule stepOralFormantPar_pending)
  have g: "stepOralFormantPar sg y i (v, t\<lparr>newFParms := x\<rparr>)
          = apsnd ?T (stepOralFormantPar sg y i (v, t))"
    for sg y i v t
    using stepOralFormantPar_pending [of sg y i x "(v, t)"] by simp
  have h: "andThen (apsnd ?T r) (forEach is (\<lambda>i. stepOralFormantPar (sg i) y i))
          = apsnd ?T (andThen r (forEach is (\<lambda>i. stepOralFormantPar (sg i) y i)))"
    for r "is" sg y
    by (rule andThen_commute) (rule f)
  have p1: "parallelSource fp ps voice (s\<lparr>newFParms := x\<rparr>) = parallelSource fp ps voice s"
    by (simp add: parallelSource_def)
  have p2: "parallelSource2 fp ps y rnd (s\<lparr>newFParms := x\<rparr>) = parallelSource2 fp ps y rnd s"
    for y rnd
    by (simp add: parallelSource2_def)
  show ?thesis
    by (simp add: computeParallelBranch_def p1 p2 split_beta Let_def pending_out g h
        split: option.splits)
qed

lemma computeNextOutputSignalSample_pending:
  "computeNextOutputSignalSample H (s\<lparr>newFParms := x\<rparr>)
     = apsnd (\<lambda>t. t\<lparr>newFParms := x\<rparr>) (computeNextOutputSignalSample H s)"
  by (simp add: computeNextOutputSignalSample_def callGlottalSource_pending
      computeCascadeBranch_pending computeParallelBranch_pending split_beta Let_def pending_out
      split: option.splits sum.splits)

subsection \<open>The computation of a sample returns a value\<close>

lemma sameSetup_fields:
  assumes "sameSetup s s'"
  shows "fParms s' = fParms s" "mParms s' = mParms s" "fState s' = fState s"
    "pState s' = pState s" "newFParms s' = newFParms s" "absPosition s' = absPosition s"
    "glottalSource s' = glottalSource s"
    "length (oralFormantCasc s') = length (oralFormantCasc s)"
    "length (oralFormantPar s') = length (oralFormantPar s)"
    "(impulsiveGSource s' = None) = (impulsiveGSource s = None)"
    "(naturalGSource s' = None) = (naturalGSource s = None)"
  using assms
  by (auto simp: sameSetup_def config_def filterConfig_def sourceConfig_def
      dest: map_eq_imp_length_eq)

lemma sameSetup_wellFormed:
  assumes "sameSetup s s'"
  shows "wellFormed s' = wellFormed s"
  using sameSetup_fields [OF assms]
  by (auto simp: wellFormed_def split: GlottalSourceFn.splits option.splits)

lemma callGlottalSource_ok:
  assumes "wellFormed s"
  shows "\<exists>v s'. callGlottalSource s = (Inr v, s')"
  using assms
  by (auto simp: wellFormed_def callGlottalSource_def split_beta
      split: GlottalSourceFn.splits option.splits)

lemma forEach_stepOralFormantCasc_ok:
  assumes "\<forall>i \<in> set is. i < length (oralFormantCasc s)"
  shows "fst (forEach is stepOralFormantCasc (v, s)) = None"
  using assms
proof (induction "is" arbitrary: v s)
  case Nil
  then show ?case by simp
next
  case (Cons i "is")
  then show ?case
    by (simp add: stepOralFormantCasc_def split_beta andThen_def)
qed

lemma computeCascadeBranch_ok:
  assumes "length (oralFormantCasc s) = maxOralFormants"
  shows "\<exists>v s'. computeCascadeBranch fp ps voice s = (Inr v, s')"
proof -
  have "fst (forEach [0..<maxOralFormants] stepOralFormantCasc (v, t)) = None"
    if "length (oralFormantCasc t) = maxOralFormants" for v t
    using that by (intro forEach_stepOralFormantCasc_ok) simp
  then show ?thesis
    using assms
    by (simp add: computeCascadeBranch_def split_beta Let_def split: option.splits)
qed


lemma computeParallelBranch_ok:
  assumes "length (oralFormantPar s) = maxOralFormants"
  shows "\<exists>v s'. computeParallelBranch fp ps voice s = (Inr v, s')"
  using computeParallelBranch_value [OF assms, of fp ps voice]
  by (cases "computeParallelBranch fp ps voice s") auto

lemma computeNextOutputSignalSample_ok:
  assumes "wellFormed s" and "pState s = Some ps"
  shows "\<exists>v s'. computeNextOutputSignalSample H s = (Inr v, s')"
proof -
  obtain voice0 s1 where c: "callGlottalSource s = (Inr voice0, s1)"
    using callGlottalSource_ok [OF assms(1)] by blast
  have 1: "sameSetup s s1" by (rule callGlottalSource_same [OF c])
  obtain voice1 tf where t: "LpFilter1_step voice0 (tiltFilter s1) = (voice1, tf)"
    by (cases "LpFilter1_step voice0 (tiltFilter s1)")
  let ?s2 = "s1\<lparr>tiltFilter := tf\<rparr>"
  have 2: "sameSetup s1 ?s2"
    using t by (auto simp: sameSetup_def config_def filterConfig_def sourceConfig_def
        dest: step_coeffsD)
  have ps1: "pState s1 = Some ps" using sameSetup_fields(4) [OF 1] assms(2) by simp
  obtain voice2 s3 where b: "(if positionInPeriod ps < openPhaseLength ps
                           then (let (n, rnd) = getWhiteNoise (random ?s2)
                                 in (voice1 + n * breathinessLin (fState ?s2),
                                     ?s2\<lparr>random := rnd\<rparr>))
                           else (voice1, ?s2)) = (voice2, s3)"
    by (cases "(if positionInPeriod ps < openPhaseLength ps
                           then (let (n, rnd) = getWhiteNoise (random ?s2)
                                 in (voice1 + n * breathinessLin (fState ?s2),
                                     ?s2\<lparr>random := rnd\<rparr>))
                           else (voice1, ?s2))")
  have 3: "sameSetup ?s2 s3"
    using b by (auto simp: sameSetup_def config_def filterConfig_def sourceConfig_def Let_def
        split: if_splits prod.splits)
  have 03: "sameSetup s s3" using 1 2 3 by (blast intro: sameSetup_trans)
  have wf3: "wellFormed s3" using sameSetup_wellFormed [OF 03] assms(1) by simp
  obtain r where fp: "fParms s3 = Some r"
    using sameSetup_fields(1) [OF 03] assms by (auto simp: wellFormed_def)
  have "\<exists>cascadeOut s4. (if cascadeEnabled (H r)
                                   then computeCascadeBranch (H r) ps voice2 s3
                                   else (Inr 0, s3)) = (Inr cascadeOut, s4)"
    using computeCascadeBranch_ok [of s3 "H r" ps voice2] wf3
    by (simp add: wellFormed_def)
  then obtain cascadeOut s4 where c4: "(if cascadeEnabled (H r)
                                   then computeCascadeBranch (H r) ps voice2 s3
                                   else (Inr 0, s3)) = (Inr cascadeOut, s4)"
    by blast
  have 4: "sameSetup s3 s4"
    using c4 computeCascadeBranch_same by (auto split: if_splits)
  have wf4: "wellFormed s4" using sameSetup_wellFormed [OF 4] wf3 by simp
  have "\<exists>parallelOut s5. (if parallelEnabled (H r)
                                        then computeParallelBranch (H r) ps voice2 s4
                                        else (Inr 0, s4)) = (Inr parallelOut, s5)"
    using computeParallelBranch_ok [of s4 "H r" ps voice2] wf4
    by (simp add: wellFormed_def)
  then obtain parallelOut s5 where c5: "(if parallelEnabled (H r)
                                        then computeParallelBranch (H r) ps voice2 s4
                                        else (Inr 0, s4)) = (Inr parallelOut, s5)"
    by blast
  obtain out1 lpf where o: "Resonator_step (cascadeOut + parallelOut) (outputLpFilter s5)
                              = (out1, lpf)"
    by (cases "Resonator_step (cascadeOut + parallelOut) (outputLpFilter s5)")
  show ?thesis
    using c t ps1 b fp c4 c5 o
    by (simp add: computeNextOutputSignalSample_def Let_def)
qed

subsection \<open>Frame parameters and period starts\<close>

lemma config_position [simp]:
  "config (s\<lparr>pState := Some (ps\<lparr>positionInPeriod := p\<rparr>), absPosition := a\<rparr>)
     = config (s\<lparr>pState := Some ps\<rparr>)"
  by (simp add: config_def filterConfig_def sourceConfig_def)

lemma config_pState_same:
  "pState s = Some ps \<Longrightarrow> config (s\<lparr>pState := Some ps\<rparr>) = config s"
  by (simp add: config_def filterConfig_def sourceConfig_def)

lemma generateFrame_body_mid:
  assumes "\<not> needsNewPeriod s"
  shows "generateFrame_body H i (s, buf) =
     (case computeNextOutputSignalSample H s of
        (Inl e, s2) \<Rightarrow> (Some e, (s2, buf))
      | (Inr v, s2) \<Rightarrow>
          (case pState s2 of
             None \<Rightarrow> (Some TypeError, (s2, buf[i := v]))
           | Some ps \<Rightarrow>
               (None,
                (s2\<lparr>pState := Some (ps\<lparr>positionInPeriod := positionInPeriod ps + 1\<rparr>),
                    absPosition := absPosition s2 + 1\<rparr>,
                 buf[i := v]))))"
  using assms by (simp add: generateFrame_body_def)

lemma generateFrame_body_mid_config:
  assumes "\<not> needsNewPeriod s" and "generateFrame_body H i (s, buf) = (e, (s', buf'))"
  shows "config s' = config s \<and> newFParms s' = newFParms s"
proof -
  obtain res s2 where c: "computeNextOutputSignalSample H s = (res, s2)"
    by (cases "computeNextOutputSignalSample H s")
  have same: "sameSetup s s2" by (rule computeNextOutputSignalSample_same [OF c])
  then have cf: "config s2 = config s" "newFParms s2 = newFParms s"
    by (simp_all add: sameSetup_def)
  show ?thesis
  proof (cases res)
    case (Inl a)
    with assms c cf show ?thesis by (simp add: generateFrame_body_mid)
  next
    case (Inr v)
    show ?thesis
    proof (cases "pState s2")
      case None
      with assms c cf Inr show ?thesis by (simp add: generateFrame_body_mid)
    next
      case (Some ps)
      with assms c Inr have "s' = s2\<lparr>pState := Some (ps\<lparr>positionInPeriod := positionInPeriod ps + 1\<rparr>),
                    absPosition := absPosition s2 + 1\<rparr>"
        by (simp add: generateFrame_body_mid)
      then show ?thesis using cf Some by (simp add: config_pState_same)
    qed
  qed
qed

lemma needsNewPeriod_pending [simp]:
  "needsNewPeriod (s\<lparr>newFParms := x\<rparr>) = needsNewPeriod s"
  by (simp add: needsNewPeriod_def)

lemma generateFrame_body_mid_pending:
  assumes "\<not> needsNewPeriod s"
  shows "generateFrame_body H i (s\<lparr>newFParms := x\<rparr>, buf)
           = setPending x (generateFrame_body H i (s, buf))"
proof -
  obtain res s2 where c: "computeNextOutputSignalSample H s = (res, s2)"
    by (cases "computeNextOutputSignalSample H s")
  have c': "computeNextOutputSignalSample H (s\<lparr>newFParms := x\<rparr>) = (res, s2\<lparr>newFParms := x\<rparr>)"
    using c by (simp add: computeNextOutputSignalSample_pending)
  show ?thesis
    using assms c c'
    by (simp add: generateFrame_body_mid setPending_def pending_out
        split: sum.splits option.splits)
qed

text \<open>The trace of a loop\<close>

lemma frameTrace_nth_0 [simp]: "frameTrace H is st ! 0 = fst st"
  by (cases "is") simp_all

lemma frameTrace_length [simp]: "0 < length (frameTrace H is st)"
  by (cases "is") simp_all

lemma frameTrace_step:
  assumes "Suc j < length (frameTrace H is st)" and "\<not> needsNewPeriod (frameTrace H is st ! j)"
  shows "config (frameTrace H is st ! Suc j) = config (frameTrace H is st ! j)
       \<and> newFParms (frameTrace H is st ! Suc j) = newFParms (frameTrace H is st ! j)"
  using assms
proof (induction "is" arbitrary: st j)
  case Nil
  then show ?case by simp
next
  case (Cons i "is")
  obtain e s1 buf1 where b: "generateFrame_body H i st = (e, (s1, buf1))"
    by (cases "generateFrame_body H i st") auto
  show ?case
  proof (cases j)
    case 0
    with Cons.prems have n: "\<not> needsNewPeriod (fst st)" by simp
    have "config s1 = config (fst st) \<and> newFParms s1 = newFParms (fst st)"
      using generateFrame_body_mid_config [OF n, of H i "snd st" e s1 buf1] b by simp
    then show ?thesis using 0 b by (cases e) simp_all
  next
    case (Suc j')
    show ?thesis
    proof (cases e)
      case None
      with Cons.prems b Suc show ?thesis using Cons.IH [of j' "(s1, buf1)"] by simp
    next
      case (Some a)
      with Cons.prems b Suc show ?thesis by simp
    qed
  qed
qed

lemma frameTrace_const:
  assumes "k < length (frameTrace H is st)" and "j \<le> k"
      and "\<forall>m. j \<le> m \<and> m < k \<longrightarrow> \<not> needsNewPeriod (frameTrace H is st ! m)"
  shows "config (frameTrace H is st ! k) = config (frameTrace H is st ! j)"
  using assms
proof (induction k)
  case 0
  then show ?case by simp
next
  case (Suc k)
  show ?case
  proof (cases "j = Suc k")
    case True
    then show ?thesis by simp
  next
    case False
    with Suc.prems have jk: "j \<le> k" by simp
    have "config (frameTrace H is st ! k) = config (frameTrace H is st ! j)"
      using Suc.IH Suc.prems jk by simp
    moreover have "config (frameTrace H is st ! Suc k) = config (frameTrace H is st ! k)"
      using frameTrace_step [of k H "is" st] Suc.prems jk by simp
    ultimately show ?thesis by simp
  qed
qed

lemma forEach_pending:
  assumes "\<forall>t \<in> set (butlast (frameTrace H is (s, buf))). \<not> needsNewPeriod t"
  shows "forEach is (generateFrame_body H) (s\<lparr>newFParms := x\<rparr>, buf)
           = setPending x (forEach is (generateFrame_body H) (s, buf))"
  using assms
proof (induction "is" arbitrary: s buf)
  case Nil
  then show ?case by (simp add: setPending_def)
next
  case (Cons i "is")
  obtain e s1 buf1 where b: "generateFrame_body H i (s, buf) = (e, (s1, buf1))"
    by (cases "generateFrame_body H i (s, buf)") auto
  have tr: "frameTrace H (i # is) (s, buf)
              = s # (case e of None \<Rightarrow> frameTrace H is (s1, buf1) | Some a \<Rightarrow> [s1])"
    using b by (cases e) simp_all
  have ne: "(case e of None \<Rightarrow> frameTrace H is (s1, buf1) | Some a \<Rightarrow> [s1]) \<noteq> []"
    using frameTrace_length [of H "is" "(s1, buf1)"] by (cases e) auto
  have n: "\<not> needsNewPeriod s" using Cons.prems tr ne by simp
  have b': "generateFrame_body H i (s\<lparr>newFParms := x\<rparr>, buf) = (e, (s1\<lparr>newFParms := x\<rparr>, buf1))"
    using generateFrame_body_mid_pending [OF n, of H i x buf] b by (simp add: setPending_def)
  show ?case
  proof (cases e)
    case None
    have "\<forall>t \<in> set (butlast (frameTrace H is (s1, buf1))). \<not> needsNewPeriod t"
      using Cons.prems tr ne None by simp
    then show ?thesis using Cons.IH b b' None by (simp add: andThen_def)
  next
    case (Some a)
    then show ?thesis using b b' by (simp add: andThen_def setPending_def)
  qed
qed

lemma startNewPeriod_adopts:
  assumes "startNewPeriod H s = (None, s')" and "newFParms s = Some r"
  shows "fParms s' = Some r \<and> newFParms s' = None"
proof -
  from assms obtain s1 where
    s1: "startUsingNewFrameParameters H (s\<lparr>fParms := Some r, newFParms := None\<rparr>) = (None, s1)"
    and rest: "(let ps0 = (case pState s1 of None \<Rightarrow> emptyPeriodState | Some ps \<Rightarrow> ps);
              this2 = s1\<lparr>pState := Some ps0\<rparr>;
              mp = mParms this2
          in case fParms this2 of
               None \<Rightarrow> (Some TypeError, this2)
             | Some r \<Rightarrow>
                 let fp = H r;
                     flutterTime = absPosition this2 / sampleRate mp + flutterTimeOffset this2;
                     pf0 = performFrequencyModulation (f0 fp) (flutterLevel fp) flutterTime;
                     pl = (if pf0 > 0 then Math_round (sampleRate mp / pf0) else 1);
                     opl = (if pl > 1 then Math_round (pl * openPhaseRatio fp) else 0);
                     ps1 = ps0\<lparr>periodF0 := pf0, periodLength := pl, openPhaseLength := opl,
                               positionInPeriod := 0\<rparr>
                 in startGlottalSourcePeriod (this2\<lparr>pState := Some ps1\<rparr>)) = (None, s')"
    unfolding startNewPeriod_def andThen_None by auto
  have k: "fParms s1 = Some r" "newFParms s1 = None"
    using startUsing_fields(2,3) [OF s1] by simp_all
  from rest k have "\<exists>t. startGlottalSourcePeriod t = (None, s') \<and> fParms t = Some r
                    \<and> newFParms t = None"
    by (auto simp: Let_def)
  then obtain t where t: "startGlottalSourcePeriod t = (None, s')" "fParms t = Some r"
    "newFParms t = None" by blast
  show ?thesis
    using startGlottalSourcePeriod_fields(2,4) [OF t(1)] t(2,3) by simp
qed

text \<open>
  Claim C1. A call of \<open>generateFrame\<close> with frame parameters other than the active ones
  only records them as pending and runs the loop. From one iteration of the loop to the
  next the configuration (the active frame parameters, the frame state, the period
  lengths and every filter coefficient) and the pending parameters change only in an
  iteration that starts a period, so the configuration is the same all along a stretch
  of iterations without a period start; while no period starts the pending parameters
  have no influence on the loop and are still pending at its end; and an iteration that
  starts a period makes the pending parameters the active ones.
\<close>

theorem frame_parameters_adopted_at_period_start:
  "(fParms this \<noteq> Some r \<longrightarrow>
      generateFrame H r outBuf this =
        forEach [0..<length outBuf] (generateFrame_body H) (this\<lparr>newFParms := Some r\<rparr>, outBuf))
   \<and> (\<forall>j. Suc j < length (frameTrace H is st) \<longrightarrow>
          needsNewPeriod (frameTrace H is st ! j)
          \<or> (config (frameTrace H is st ! Suc j) = config (frameTrace H is st ! j)
              \<and> newFParms (frameTrace H is st ! Suc j) = newFParms (frameTrace H is st ! j)))
   \<and> (\<forall>j k. j \<le> k \<and> k < length (frameTrace H is st)
          \<and> (\<forall>m. j \<le> m \<and> m < k \<longrightarrow> \<not> needsNewPeriod (frameTrace H is st ! m))
          \<longrightarrow> config (frameTrace H is st ! k) = config (frameTrace H is st ! j))
   \<and> ((\<forall>t \<in> set (butlast (frameTrace H is (this, outBuf))). \<not> needsNewPeriod t) \<longrightarrow>
        forEach is (generateFrame_body H) (this\<lparr>newFParms := x\<rparr>, outBuf)
          = setPending x (forEach is (generateFrame_body H) (this, outBuf)))
   \<and> (needsNewPeriod this \<and> newFParms this = Some r
        \<and> generateFrame_body H i (this, outBuf) = (None, (this', outBuf'))
        \<longrightarrow> fParms this' = Some r \<and> newFParms this' = None)"
proof (intro conjI allI impI)
  assume "fParms this \<noteq> Some r"
  then show "generateFrame H r outBuf this =
        forEach [0..<length outBuf] (generateFrame_body H) (this\<lparr>newFParms := Some r\<rparr>, outBuf)"
    by (simp add: generateFrame_def)
next
  fix j
  assume "Suc j < length (frameTrace H is st)"
  then show "needsNewPeriod (frameTrace H is st ! j)
          \<or> (config (frameTrace H is st ! Suc j) = config (frameTrace H is st ! j)
              \<and> newFParms (frameTrace H is st ! Suc j) = newFParms (frameTrace H is st ! j))"
    using frameTrace_step [of j H "is" st] by blast
next
  fix j k
  assume "j \<le> k \<and> k < length (frameTrace H is st)
          \<and> (\<forall>m. j \<le> m \<and> m < k \<longrightarrow> \<not> needsNewPeriod (frameTrace H is st ! m))"
  then show "config (frameTrace H is st ! k) = config (frameTrace H is st ! j)"
    using frameTrace_const [of k H "is" st j] by blast
next
  assume "\<forall>t \<in> set (butlast (frameTrace H is (this, outBuf))). \<not> needsNewPeriod t"
  then show "forEach is (generateFrame_body H) (this\<lparr>newFParms := x\<rparr>, outBuf)
          = setPending x (forEach is (generateFrame_body H) (this, outBuf))"
    by (rule forEach_pending)
next
  assume a: "needsNewPeriod this \<and> newFParms this = Some r
        \<and> generateFrame_body H i (this, outBuf) = (None, (this', outBuf'))"
  then obtain s1 where s1: "startNewPeriod H this = (None, s1)"
    by (auto simp: generateFrame_body_def split: option.splits prod.splits)
  have ad: "fParms s1 = Some r" "newFParms s1 = None"
    using startNewPeriod_adopts [OF s1] a by simp_all
  obtain res s2 where c: "computeNextOutputSignalSample H s1 = (res, s2)"
    by (cases "computeNextOutputSignalSample H s1")
  have same: "sameSetup s1 s2" by (rule computeNextOutputSignalSample_same [OF c])
  have "fParms this' = fParms s2 \<and> newFParms this' = newFParms s2"
    using a s1 c by (auto simp: generateFrame_body_def split: sum.splits option.splits)
  then show "fParms this' = Some r" "newFParms this' = None"
    using sameSetup_fields(1,5) [OF same] ad by simp_all
qed


subsection \<open>The error of a reused frame\<close>

lemma andThen_not_error:
  assumes "fst r \<noteq> Some E" and "\<And>s. fst (f s) \<noteq> Some E"
  shows "fst (andThen r f) \<noteq> Some E"
  using assms by (cases r; cases "fst r") (auto simp: andThen_def)

lemma forEach_not_error:
  assumes "\<And>i s. fst (body i s) \<noteq> Some E"
  shows "fst (forEach is body s) \<noteq> Some E"
proof (induction "is" arbitrary: s)
  case Nil
  show ?case by simp
next
  case (Cons i "is")
  show ?case using assms Cons.IH by (simp add: andThen_not_error)
qed

lemma sequence_not_error:
  assumes "\<And>m s. m \<in> set ms \<Longrightarrow> fst (m s) \<noteq> Some E"
  shows "fst (sequence ms s) \<noteq> Some E"
  using assms
proof (induction ms arbitrary: s)
  case Nil
  show ?case by simp
next
  case (Cons m ms)
  show ?case using Cons.prems Cons.IH by (simp add: andThen_not_error)
qed

lemma onField_not_error:
  assumes "\<And>x. fst (m x) \<noteq> Some E"
  shows "fst (onField get put m s) \<noteq> Some E"
  using assms [of "get s"] by (cases "m (get s)") (simp add: onField_def)

lemma onElem_not_reused:
  assumes "\<And>x. fst (m x) \<noteq> Some FrameParmsReused"
  shows "fst (onElem get put i m s) \<noteq> Some FrameParmsReused"
  using assms [of "get s ! i"] by (cases "m (get s ! i)") (simp add: onElem_def)

lemma filters_not_reused:
  "fst (LpFilter1_set f g extraGain flt) \<noteq> Some FrameParmsReused"
  "fst (Resonator_set f bw dcGain res) \<noteq> Some FrameParmsReused"
  "fst (AntiResonator_set f bw ares) \<noteq> Some FrameParmsReused"
  "fst (adjustPeakGain peakGain res) \<noteq> Some FrameParmsReused"
  "fst (adjustImpulseGain newA res) \<noteq> Some FrameParmsReused"
  by (simp_all add: LpFilter1_set_def Resonator_set_def AntiResonator_set_def adjustPeakGain_def
      adjustImpulseGain_def Let_def)

lemma fst_neD: "fst x \<noteq> a \<Longrightarrow> x \<noteq> (a, y)"
  by auto

lemmas filters_not_reused' = filters_not_reused [THEN fst_neD]

lemma binding_not_reused:
  "fst (setTiltFilter db flt) \<noteq> Some FrameParmsReused"
  "fst (setNasalFormantCasc fp res) \<noteq> Some FrameParmsReused"
  "fst (setNasalAntiformantCasc fp ares) \<noteq> Some FrameParmsReused"
  "fst (setOralFormantCasc fp i res) \<noteq> Some FrameParmsReused"
  "fst (setNasalFormantPar fp res) \<noteq> Some FrameParmsReused"
  "fst (setOralFormantPar mp fp i res) \<noteq> Some FrameParmsReused"
  by (simp_all add: setTiltFilter_def setNasalFormantCasc_def setNasalAntiformantCasc_def
      setOralFormantCasc_def setNasalFormantPar_def setOralFormantPar_def Let_def
      filters_not_reused andThen_not_error)

lemma startUsingNewFrameParameters_not_reused:
  "fst (startUsingNewFrameParameters H s) \<noteq> Some FrameParmsReused"
proof (cases "fParms s")
  case None
  then show ?thesis by (simp add: startUsingNewFrameParameters_def)
next
  case (Some r)
  show ?thesis
    unfolding startUsingNewFrameParameters_def Some option.case Let_def
    by (rule sequence_not_error)
       (auto simp: assign_def onField_not_error forEach_not_error onElem_not_reused
          binding_not_reused)
qed

lemma startGlottalSourcePeriod_not_reused:
  "fst (startGlottalSourcePeriod s) \<noteq> Some FrameParmsReused"
proof -
  have "fst (ImpulsiveGlottalSource_startPeriod l src) \<noteq> Some FrameParmsReused" for l src
    by (auto simp: ImpulsiveGlottalSource_startPeriod_def Let_def adjustImpulseGain_def
        filters_not_reused' split: prod.splits option.splits)
  from this [THEN fst_neD] show ?thesis
    by (auto simp: startGlottalSourcePeriod_def split: option.splits prod.splits)
qed

lemma startNewPeriod_not_reused:
  "fst (startNewPeriod H s) \<noteq> Some FrameParmsReused"
  unfolding startNewPeriod_def
  by (rule andThen_not_error)
     (auto simp: startUsingNewFrameParameters_not_reused startGlottalSourcePeriod_not_reused
        Let_def split: option.splits)

lemma computeCascadeBranch_not_reused:
  "fst (computeCascadeBranch fp ps voice s) \<noteq> Inl FrameParmsReused"
proof -
  have "fst (forEach is stepOralFormantCasc vs) \<noteq> Some FrameParmsReused" for "is" vs
    by (rule forEach_not_error) (auto simp: stepOralFormantCasc_def split: prod.splits)
  from this [THEN fst_neD] show ?thesis
    by (auto simp: computeCascadeBranch_def Let_def split: prod.splits option.splits)
qed

lemma computeParallelBranch_not_reused:
  "fst (computeParallelBranch fp ps voice s) \<noteq> Inl FrameParmsReused"
proof -
  have 1: "fst (stepOralFormantPar sg x i vs) \<noteq> Some FrameParmsReused" for sg x i vs
    by (auto simp: stepOralFormantPar_def split: prod.splits)
  have "fst (andThen (stepOralFormantPar sg x i vs)
               (forEach is (\<lambda>i. stepOralFormantPar (alternatingSign i) y i))) \<noteq> Some FrameParmsReused"
    for sg x i vs "is" y
    by (intro andThen_not_error forEach_not_error 1)
  from this [THEN fst_neD] show ?thesis
    by (auto simp: computeParallelBranch_def Let_def split: prod.splits option.splits)
qed

lemma computeNextOutputSignalSample_not_reused:
  "fst (computeNextOutputSignalSample H s) \<noteq> Inl FrameParmsReused"
proof -
  have 1: "fst (callGlottalSource s) \<noteq> Inl FrameParmsReused"
    by (auto simp: callGlottalSource_def split: GlottalSourceFn.splits option.splits prod.splits)
  have c: "fst (if b then computeCascadeBranch fp ps v t else (Inr 0, t)) \<noteq> Inl FrameParmsReused"
    for b fp ps v t
    by (simp add: computeCascadeBranch_not_reused)
  have p: "fst (if b then computeParallelBranch fp ps v t else (Inr 0, t)) \<noteq> Inl FrameParmsReused"
    for b fp ps v t
    by (simp add: computeParallelBranch_not_reused)
  show ?thesis
    unfolding computeNextOutputSignalSample_def Let_def
    using 1 [THEN fst_neD] c [THEN fst_neD] p [THEN fst_neD]
    by (auto split: prod.splits option.splits sum.splits simp del: if_split split del: if_split)
qed

lemma generateFrame_body_not_reused:
  "fst (generateFrame_body H i st) \<noteq> Some FrameParmsReused"
  by (auto simp: generateFrame_body_def startNewPeriod_not_reused [THEN fst_neD]
      computeNextOutputSignalSample_not_reused [THEN fst_neD]
      split: prod.splits option.splits sum.splits if_splits)

lemma startNewPeriod_keeps:
  assumes "startNewPeriod H s = (None, s')" and "newFParms s = None"
  shows "fParms s' = fParms s \<and> newFParms s' = None"
proof -
  from assms have "\<exists>t. startGlottalSourcePeriod t = (None, s') \<and> fParms t = fParms s
                    \<and> newFParms t = None"
    by (auto simp: startNewPeriod_def andThen_def Let_def split: option.splits)
  then obtain t where t: "startGlottalSourcePeriod t = (None, s')" "fParms t = fParms s"
    "newFParms t = None" by blast
  show ?thesis
    using startGlottalSourcePeriod_fields(2,4) [OF t(1)] t(2,3) by simp
qed

lemma generateFrame_body_fields:
  assumes "generateFrame_body H i (s, buf) = (None, (s', buf'))"
  shows "\<exists>s1. (if needsNewPeriod s then startNewPeriod H s else (None, s)) = (None, s1)
            \<and> fParms s' = fParms s1 \<and> newFParms s' = newFParms s1"
proof -
  obtain s1 where s1: "(if needsNewPeriod s then startNewPeriod H s else (None, s)) = (None, s1)"
    using assms
    by (cases "if needsNewPeriod s then startNewPeriod H s else (None, s)")
       (auto simp: generateFrame_body_def split: option.splits simp del: if_split split del: if_split)
  obtain res s2 where c: "computeNextOutputSignalSample H s1 = (res, s2)"
    by (cases "computeNextOutputSignalSample H s1")
  have same: "sameSetup s1 s2" by (rule computeNextOutputSignalSample_same [OF c])
  have "fParms s' = fParms s2 \<and> newFParms s' = newFParms s2"
    using assms s1 c
    by (auto simp: generateFrame_body_def split: sum.splits option.splits
        simp del: if_split split del: if_split)
  then show ?thesis
    using sameSetup_fields(1,5) [OF same] s1 by auto
qed

lemma generateFrame_body_adopts:
  assumes "generateFrame_body H i (s, buf) = (None, (s', buf'))"
      and "needsNewPeriod s" and "newFParms s = Some r"
  shows "fParms s' = Some r \<and> newFParms s' = None"
  using generateFrame_body_fields [OF assms(1)] assms(2,3)
  by (auto dest: startNewPeriod_adopts)

lemma generateFrame_body_active:
  assumes "generateFrame_body H i (s, buf) = (None, (s', buf'))"
      and "fParms s = Some r \<and> newFParms s = None"
  shows "fParms s' = Some r \<and> newFParms s' = None"
  using generateFrame_body_fields [OF assms(1)] assms(2)
  by (auto dest: startNewPeriod_keeps split: if_splits)

lemma forEach_success_preserves:
  assumes "forEach is body s = (None, s')" and "P s"
      and "\<And>i t t'. P t \<Longrightarrow> body i t = (None, t') \<Longrightarrow> P t'"
  shows "P s'"
  using assms(1,2)
proof (induction "is" arbitrary: s)
  case Nil
  then show ?case by simp
next
  case (Cons i "is")
  from Cons.prems(1) obtain t where t: "body i s = (None, t)" "forEach is body t = (None, s')"
    by (auto simp: andThen_None)
  show ?case using Cons.IH [OF t(2)] assms(3) [OF Cons.prems(2) t(1)] by simp
qed

lemma generateFrame_adopts:
  assumes "generateFrame H r outBuf this = (None, (this', outBuf'))"
      and "needsNewPeriod this" and "outBuf \<noteq> []"
  shows "fParms this' = Some r \<and> newFParms this' = None"
proof -
  have u: "[0..<length outBuf] = 0 # [1..<length outBuf]"
    using assms(3) by (simp add: upt_rec)
  from assms(1) have f: "forEach (0 # [1..<length outBuf]) (generateFrame_body H)
      (this\<lparr>newFParms := Some r\<rparr>, outBuf) = (None, (this', outBuf'))"
    unfolding generateFrame_def u by (simp split: if_splits)
  then obtain t buf where
    b: "generateFrame_body H 0 (this\<lparr>newFParms := Some r\<rparr>, outBuf) = (None, (t, buf))"
    and g: "forEach [1..<length outBuf] (generateFrame_body H) (t, buf) = (None, (this', outBuf'))"
    by (auto simp: andThen_None)
  have t: "fParms t = Some r \<and> newFParms t = None"
    using generateFrame_body_adopts [OF b] assms(2) by simp
  have "fParms (fst (this', outBuf')) = Some r \<and> newFParms (fst (this', outBuf')) = None"
    by (rule forEach_success_preserves [OF g, where P = "\<lambda>st. fParms (fst st) = Some r \<and> newFParms (fst st) = None"])
       (use t in \<open>auto dest: generateFrame_body_active\<close>)
  then show ?thesis by simp
qed

lemma wellFormed_pending [simp]: "wellFormed (s\<lparr>newFParms := x\<rparr>) = wellFormed s"
  by (cases "glottalSource s"; cases "pState s"; simp add: wellFormed_def)

lemma generateFrame_mid_one:
  assumes "\<not> needsNewPeriod s" and "wellFormed s" and "pState s = Some ps"
      and "fParms s \<noteq> Some r"
  shows "\<exists>v s2. generateFrame H r [x] s =
           (None, (s2\<lparr>pState := Some (ps\<lparr>positionInPeriod := positionInPeriod ps + 1\<rparr>),
                      absPosition := absPosition s + 1\<rparr>, [v]))
         \<and> sameSetup (s\<lparr>newFParms := Some r\<rparr>) s2"
proof -
  let ?s = "s\<lparr>newFParms := Some r\<rparr>"
  have wf: "wellFormed ?s" using assms(2) by simp
  have ps: "pState ?s = Some ps" using assms(3) by simp
  obtain v s2 where c: "computeNextOutputSignalSample H ?s = (Inr v, s2)"
    using computeNextOutputSignalSample_ok [OF wf ps] by blast
  have same: "sameSetup ?s s2" by (rule computeNextOutputSignalSample_same [OF c])
  have "generateFrame H r [x] s =
           (None, (s2\<lparr>pState := Some (ps\<lparr>positionInPeriod := positionInPeriod ps + 1\<rparr>),
                      absPosition := absPosition s + 1\<rparr>, [v]))"
    using assms(1,3,4) c sameSetup_fields(4,6) [OF same]
    by (simp add: generateFrame_def generateFrame_body_mid andThen_def)
  with same show ?thesis by blast
qed


text \<open>
  Claim C4, amended. \<open>generateFrame\<close> compares the frame parameters it is given with the
  active ones, those adopted at the last period start. When they are the active ones it
  raises \<open>FrameParmsReused\<close> before the loop, and the buffer and the generator are as they
  were; with any other parameters it does not raise this error. After a call that
  returns, with a buffer that is not empty, on a generator that had to start a period,
  the parameters of that call are the active ones, so that a next call with them raises
  the error.
\<close>

theorem generateFrame_reuse_check:
  "(fParms this = Some r \<longrightarrow>
      generateFrame H r outBuf this = (Some FrameParmsReused, (this, outBuf)))
   \<and> (fParms this \<noteq> Some r \<longrightarrow> fst (generateFrame H r outBuf this) \<noteq> Some FrameParmsReused)
   \<and> (needsNewPeriod this \<and> outBuf \<noteq> []
        \<and> generateFrame H r outBuf this = (None, (this', outBuf'))
      \<longrightarrow> generateFrame H r outBuf2 this' = (Some FrameParmsReused, (this', outBuf2)))"
proof (intro conjI impI)
  assume "fParms this = Some r"
  then show "generateFrame H r outBuf this = (Some FrameParmsReused, (this, outBuf))"
    by (simp add: generateFrame_def)
next
  assume "fParms this \<noteq> Some r"
  then show "fst (generateFrame H r outBuf this) \<noteq> Some FrameParmsReused"
    by (simp add: generateFrame_def forEach_not_error generateFrame_body_not_reused)
next
  assume "needsNewPeriod this \<and> outBuf \<noteq> []
        \<and> generateFrame H r outBuf this = (None, (this', outBuf'))"
  then have "fParms this' = Some r" using generateFrame_adopts [of H r outBuf this this' outBuf'] by simp
  then show "generateFrame H r outBuf2 this' = (Some FrameParmsReused, (this', outBuf2))"
    by (simp add: generateFrame_def)
qed


subsection \<open>The noise sources\<close>

lemma LpFilter1_set_shape:
  assumes "lp_sampleRate flt = Fin sr" "2 * f < sr" "0 < f" "0 < g" "g < 1"
  shows "\<exists>a b. LpFilter1_set (Fin f) (Fin g) (Fin x) flt =
           (None, flt\<lparr>lp_b := Fin b, lp_a := Fin a, lp_passthrough := False, lp_muted := False\<rparr>)"
proof -
  define w where "w = 2 * pi * f / sr"
  define q where "q = (1 - g * g * cos w) / (1 - g * g)"
  have g2: "g * g < 1" using mult_strict_mono [of g 1 g 1] assms(4,5) by simp
  have "1 - g * g \<le> 1 - g * g * cos w"
    using mult_left_mono [of "cos w" 1 "g * g"] assms(4) by simp
  then have q1: "1 \<le> q" using g2 by (simp add: q_def pos_le_divide_eq)
  then have q2: "\<not> q * q - 1 < 0"
    using mult_mono [of 1 q 1 q] by simp
  have sr: "sr \<noteq> 0" using assms(2,3) by simp
  have guard: "\<not> (Fin f \<le> 0 \<or> Fin f \<ge> lp_sampleRate flt / Fin 2 \<or> Fin g \<le> 0 \<or> Fin g \<ge> 1
         \<or> \<not> isFinite (Fin f) \<or> \<not> isFinite (Fin g) \<or> \<not> isFinite (Fin x))"
    using assms by (simp add: number_defs)
  have w: "Fin 2 * Math_PI * Fin f / lp_sampleRate flt = Fin w"
    using assms(1) sr by (simp add: Math_PI_def w_def)
  have p: "Math_pow (Fin g) (Fin 2) = Fin (g * g)" by (rule Math_pow_2)
  have q: "(1 - Fin (g * g) * Math_cos (Fin w)) / (1 - Fin (g * g)) = Fin q"
    using g2 by (simp add: number_defs q_def)
  have pq: "Math_pow (Fin q) (Fin 2) = Fin (q * q)" by (rule Math_pow_2)
  have b: "Fin q - Math_sqrt (Fin (q * q) - 1) = Fin (q - sqrt (q * q - 1))"
    using q2 by (simp add: number_defs)
  have a: "(1 - Fin (q - sqrt (q * q - 1))) * Fin x = Fin ((1 - (q - sqrt (q * q - 1))) * x)"
    by (simp add: number_defs)
  have "LpFilter1_set (Fin f) (Fin g) (Fin x) flt =
           (None, flt\<lparr>lp_b := Fin (q - sqrt (q * q - 1)),
                       lp_a := Fin ((1 - (q - sqrt (q * q - 1))) * x),
                       lp_passthrough := False, lp_muted := False\<rparr>)"
    unfolding LpFilter1_set_def Let_def
    by (simp only: guard if_False w p q pq b a)
  then show ?thesis by blast
qed

lemma LpNoiseSource_new_shape:
  assumes "LpNoiseSource_new (Fin sr) = Inr src" and "2000 < sr"
  shows "\<exists>a b. ns_lpFilter src =
           \<lparr>lp_sampleRate = Fin sr, lp_a = Fin a, lp_b = Fin b, lp_y1 = Fin 0,
            lp_passthrough = False, lp_muted = False\<rparr>"
proof -
  obtain g where g: "LpNoiseSource_g = Fin g" "0 < g" "g < 1" using g_bounds by blast
  have pw: "Math_pow (Fin sr / Fin 10000) (Fin 0.33) = Fin ((sr / 10000) powr 0.33)"
    using assms(2) by simp
  define x where "x = 2.5 * ((sr / 10000) powr 0.33)"
  have x: "Fin 2.5 * Math_pow (Fin sr / Fin 10000) (Fin 0.33) = Fin x"
    by (simp only: pw times_number.simps x_def)
  obtain a b where ab: "LpFilter1_set (Fin 1000) (Fin g) (Fin x) (LpFilter1_new (Fin sr)) =
      (None, (LpFilter1_new (Fin sr))\<lparr>lp_b := Fin b, lp_a := Fin a, lp_passthrough := False,
                                        lp_muted := False\<rparr>)"
    using LpFilter1_set_shape [of "LpFilter1_new (Fin sr)" sr 1000 g x] assms(2) g
    by (auto simp: LpFilter1_new_def)
  have "ns_lpFilter src = (LpFilter1_new (Fin sr))\<lparr>lp_b := Fin b, lp_a := Fin a,
      lp_passthrough := False, lp_muted := False\<rparr>"
    using assms(1) unfolding LpNoiseSource_new_def Let_def g x ab by auto
  then show ?thesis by (simp add: LpFilter1_new_def zero_number_def)
qed

lemma LpNoiseSource_getNext_silent:
  assumes "LpNoiseSource_new (Fin sr) = Inr src" and "2000 < sr" and "draws rnd (drawn rnd) = 1 / 2"
  shows "LpNoiseSource_getNext src rnd = (Fin 0, src, rnd\<lparr>drawn := Suc (drawn rnd)\<rparr>)"
proof -
  obtain a b where f: "ns_lpFilter src =
           \<lparr>lp_sampleRate = Fin sr, lp_a = Fin a, lp_b = Fin b, lp_y1 = Fin 0,
            lp_passthrough = False, lp_muted = False\<rparr>"
    using LpNoiseSource_new_shape [OF assms(1,2)] by blast
  show ?thesis
    using assms(3) f
    by (cases src) (simp add: LpNoiseSource_getNext_def getWhiteNoise_def Math_random_def
        LpFilter1_step_def Let_def number_defs)
qed


lemma generateFrame_body_mid_ok:
  assumes "\<not> needsNewPeriod s" and "wellFormed s" and "pState s = Some ps"
  shows "\<exists>v s2. generateFrame_body H i (s, buf) =
           (None, (s2\<lparr>pState := Some (ps\<lparr>positionInPeriod := positionInPeriod ps + 1\<rparr>),
                      absPosition := absPosition s + 1\<rparr>, buf[i := v]))
         \<and> sameSetup s s2"
proof -
  obtain v s2 where c: "computeNextOutputSignalSample H s = (Inr v, s2)"
    using computeNextOutputSignalSample_ok [OF assms(2,3)] by blast
  have same: "sameSetup s s2" by (rule computeNextOutputSignalSample_same [OF c])
  show ?thesis
    using assms(1,3) c same sameSetup_fields(4,6) [OF same]
    by (auto simp: generateFrame_body_mid)
qed


subsection \<open>The length of the sound\<close>

lemma generateFrame_body_length:
  assumes "generateFrame_body H i (s, buf) = (e, (s', buf'))"
  shows "length buf' = length buf"
  using assms
  by (auto simp: generateFrame_body_def split: prod.splits option.splits sum.splits if_splits)

lemma generateFrame_length:
  assumes "generateFrame H r buf g = (e, (g', buf'))"
  shows "length buf' = length buf"
proof (cases "fParms g = Some r")
  case True
  with assms show ?thesis by (simp add: generateFrame_def)
next
  case False
  with assms have f: "forEach [0..<length buf] (generateFrame_body H) (g\<lparr>newFParms := Some r\<rparr>, buf)
      = (e, (g', buf'))"
    by (simp add: generateFrame_def)
  have "length (snd (g', buf')) = length buf"
    by (rule forEach_preserves [OF f, where P = "\<lambda>st. length (snd st) = length buf"])
       (auto dest: generateFrame_body_length)
  then show ?thesis by simp
qed

lemma generateSound_frames_length:
  assumes "generateSound_frames H mp rs g outBuf pos = Inr buf"
  shows "length buf = length outBuf"
  using assms
proof (induction rs arbitrary: g outBuf pos)
  case Nil
  then show ?case by simp
next
  case (Cons r rs)
  obtain b n where sa: "subarray pos (plus_double pos (frameLen H mp r)) (length outBuf) = (b, n)"
    by (cases "subarray pos (plus_double pos (frameLen H mp r)) (length outBuf)")
  obtain e g' fb where gf: "generateFrame H r (take n (drop b outBuf)) g = (e, (g', fb))"
    by (cases "generateFrame H r (take n (drop b outBuf)) g") auto
  have l: "length fb = length (take n (drop b outBuf))" by (rule generateFrame_length [OF gf])
  from Cons.prems sa gf have e: "e = None"
    by (cases e) (simp_all add: Let_def)
  from Cons.prems sa gf e have
    "generateSound_frames H mp rs g' (take b outBuf @ fb @ drop (b + n) outBuf)
       (plus_double pos (frameLen H mp r)) = Inr buf"
    by (simp add: Let_def)
  from Cons.IH [OF this] l show ?case by (auto simp: min_def)
qed

subsection \<open>Rounding to a double\<close>

lemma roundHalfEven_of_int [simp]: "roundHalfEven (of_int m) = m"
  by (simp add: roundHalfEven_def)

lemma roundHalfEven_ge: "of_int m \<le> q \<Longrightarrow> m \<le> roundHalfEven q"
proof -
  assume "of_int m \<le> q"
  then have "m \<le> \<lfloor>q\<rfloor>" by (simp add: le_floor_iff)
  then show ?thesis by (simp add: roundHalfEven_def)
qed

lemma two_powi_pos [simp]: "0 < (2::real) powi k"
  by (simp add: zero_less_power_int)

lemma nearestDouble_multiple:
  assumes "x = of_int m * 2 powi (binaryExponent x - 52)"
  shows "nearestDouble x = x"
proof (cases "x = 0")
  case True
  then show ?thesis by (simp add: nearestDouble_def)
next
  case False
  have nz: "(2::real) powi (binaryExponent x - 52) \<noteq> 0"
    using two_powi_pos [of "binaryExponent x - 52"] by simp
  have "x / 2 powi (binaryExponent x - 52) = of_int m"
    using nz by (subst assms) simp
  then show ?thesis
    using False assms by (simp add: nearestDouble_def)
qed

lemma two_powr_of_int: "2 powr real_of_int k = (2::real) powi k"
  by (rule powr_real_of_int') simp_all

lemma floor_log2:
  assumes "0 < x"
  shows "2 powi \<lfloor>log 2 x\<rfloor> \<le> x" "x < 2 powi (\<lfloor>log 2 x\<rfloor> + 1)"
proof -
  have "2 powr real_of_int \<lfloor>log 2 x\<rfloor> \<le> x \<and> x < 2 powr real_of_int (\<lfloor>log 2 x\<rfloor> + 1)"
    by (rule floor_log_eq_powr_iff [THEN iffD1, OF assms _ refl]) simp
  then show "2 powi \<lfloor>log 2 x\<rfloor> \<le> x" "x < 2 powi (\<lfloor>log 2 x\<rfloor> + 1)"
    unfolding two_powr_of_int by blast+
qed

lemma floor_log2_eq:
  assumes "2 powi e \<le> x" and "x < 2 powi (e + 1)"
  shows "\<lfloor>log 2 x\<rfloor> = e"
proof -
  have "0 < x" using assms(1) two_powi_pos [of e] by linarith
  moreover have "2 powr real_of_int e \<le> x \<and> x < 2 powr real_of_int (e + 1)"
    unfolding two_powr_of_int using assms by blast
  ultimately show ?thesis
    by (intro floor_log_eq_powr_iff [THEN iffD2]) simp_all
qed

lemma binaryExponent_eq:
  assumes "2 powi e \<le> \<bar>x\<bar>" and "\<bar>x\<bar> < 2 powi (e + 1)" and "- 1022 \<le> e"
  shows "binaryExponent x = e"
  using floor_log2_eq [OF assms(1,2)] assms(3) by (simp add: binaryExponent_def)

lemma nearestDouble_of_int:
  assumes "\<bar>n\<bar> \<le> 2 ^ 53"
  shows "nearestDouble (of_int n) = of_int n"
proof (cases "n = 0")
  case True
  then show ?thesis by (simp add: nearestDouble_def)
next
  case False
  define x :: real where "x = \<bar>of_int n\<bar>"
  define e where "e = \<lfloor>log 2 x\<rfloor>"
  have x1: "1 \<le> x" using False by (simp add: x_def)
  have x53: "x \<le> 2 ^ 53"
  proof -
    have "real_of_int \<bar>n\<bar> \<le> real_of_int (2 ^ 53)" using assms by (rule of_int_le_iff [THEN iffD2])
    then show ?thesis by (simp add: x_def)
  qed
  have lo: "2 powi e \<le> x" and hi: "x < 2 powi (e + 1)"
    using floor_log2 [of x] x1 by (simp_all add: e_def)
  have e0: "0 \<le> e"
  proof (rule ccontr)
    assume "\<not> 0 \<le> e"
    then have "e + 1 \<le> 0" by simp
    then have "(2::real) powi (e + 1) \<le> 2 powi 0" by (intro power_int_increasing) simp_all
    with hi x1 show False by simp
  qed
  have e53: "e \<le> 53"
  proof (rule ccontr)
    assume "\<not> e \<le> 53"
    then have "54 \<le> e" by simp
    then have "(2::real) powi 54 \<le> 2 powi e" by (intro power_int_increasing) simp_all
    moreover have "(2::real) powi 54 = 2 ^ 54" using power_int_of_nat [of "2::real" 54] by simp
    ultimately have "(2::real) ^ 54 \<le> x" using lo by linarith
    with x53 show False by simp
  qed
  have be: "binaryExponent (of_int n) = e"
    using e0 by (simp add: binaryExponent_def e_def x_def)
  show ?thesis
  proof (cases "e \<le> 52")
    case True
    define j where "j = nat (52 - e)"
    have k: "e - 52 = - int j" using True by (simp add: j_def)
    have "real_of_int n = of_int (n * 2 ^ j) * 2 powi (e - 52)"
      unfolding k by (simp add: power_int_minus power_int_of_nat)
    then show ?thesis
      using nearestDouble_multiple [of "of_int n" "n * 2 ^ j"] be by simp
  next
    case False
    with e53 have e: "e = 53" by simp
    have "(2::real) powi 53 = 2 ^ 53" using power_int_of_nat [of "2::real" 53] by simp
    with lo e x53 have "x = 2 ^ 53" by simp
    then have "real_of_int \<bar>n\<bar> = real_of_int (2 ^ 53)" by (simp add: x_def)
    then have "\<bar>n\<bar> = 2 ^ 53" by (simp only: of_int_eq_iff)
    then have "even \<bar>n\<bar>" by simp
    then have "even n" by simp
    then have ev: "n = 2 * (n div 2)" by simp
    have "real_of_int n = of_int (n div 2) * 2 powi (e - 52)"
      using arg_cong [OF ev, of real_of_int] e by simp
    then show ?thesis
      using nearestDouble_multiple [of "of_int n" "n div 2"] be by simp
  qed
qed

lemma toDouble_of_int:
  assumes "\<bar>n\<bar> \<le> 2 ^ 53"
  shows "toDouble (Fin (of_int n)) = Fin (of_int n)"
proof -
  have "real_of_int \<bar>n\<bar> \<le> real_of_int (2 ^ 53)" using assms by (rule of_int_le_iff [THEN iffD2])
  then have "\<bar>real_of_int n\<bar> \<le> 2 ^ 53" by simp
  moreover have "(2::real) ^ 53 < 2 ^ 1024" by (rule power_strict_increasing) simp_all
  ultimately have "\<not> 2 ^ 1024 \<le> \<bar>real_of_int n\<bar>" by linarith
  then show ?thesis
    by (simp add: toDouble_def nearestDouble_of_int [OF assms])
qed

lemma toDouble_large:
  assumes "2 ^ 53 \<le> x"
  shows "Fin (2 ^ 53) \<le> toDouble (Fin x)"
proof -
  have "(0::real) < 2 ^ 53" by simp
  with assms have xpos: "0 < x" by linarith
  define e where "e = \<lfloor>log 2 x\<rfloor>"
  have lo: "2 powi e \<le> x" and hi: "x < 2 powi (e + 1)"
    using floor_log2 [OF xpos] by (simp_all add: e_def)
  have e53: "53 \<le> e"
  proof (rule ccontr)
    assume "\<not> 53 \<le> e"
    then have "e + 1 \<le> 53" by simp
    then have "(2::real) powi (e + 1) \<le> 2 powi 53" by (intro power_int_increasing) simp_all
    moreover have "(2::real) powi 53 = 2 ^ 53" using power_int_of_nat [of "2::real" 53] by simp
    ultimately show False using hi assms by linarith
  qed
  have be: "binaryExponent x = e"
    using e53 xpos by (simp add: binaryExponent_def e_def)
  define u :: real where "u = 2 powi (e - 52)"
  have upos: "0 < u" by (simp add: u_def)
  have split: "(2::real) powi e = 2 ^ 52 * u"
    using power_int_add [of "2::real" 52 "e - 52"] power_int_of_nat [of "2::real" 52]
    by (simp add: u_def)
  have "real_of_int (2 ^ 52) \<le> x / u"
    using lo upos by (simp add: split pos_le_divide_eq)
  then have "2 ^ 52 \<le> roundHalfEven (x / u)" by (rule roundHalfEven_ge)
  then have "real_of_int (2 ^ 52) \<le> real_of_int (roundHalfEven (x / u))"
    by (rule of_int_le_iff [THEN iffD2])
  then have a: "2 ^ 52 * u \<le> real_of_int (roundHalfEven (x / u)) * u"
    using upos by simp
  have u2: "2 \<le> u"
  proof -
    have "(2::real) powi 1 \<le> 2 powi (e - 52)" using e53 by (intro power_int_increasing) simp_all
    then show ?thesis by (simp add: u_def)
  qed
  have b: "(2::real) ^ 52 * 2 \<le> 2 ^ 52 * u"
    by (rule mult_left_mono [OF u2]) simp
  have "2 ^ 52 * 2 \<le> real_of_int (roundHalfEven (x / u)) * u"
    by (rule order_trans [OF b a])
  moreover have "nearestDouble x = real_of_int (roundHalfEven (x / u)) * u"
    using xpos be by (simp add: nearestDouble_def u_def)
  ultimately have big: "2 ^ 53 \<le> nearestDouble x" by simp
  show ?thesis
    using big xpos by (simp add: toDouble_def)
qed

subsection \<open>The number of samples of a sound\<close>

lemma nearestDouble_nonneg:
  assumes "0 \<le> x"
  shows "0 \<le> nearestDouble x"
proof -
  have "0 \<le> x / 2 powi (binaryExponent x - 52)" using assms by simp
  then have "0 \<le> roundHalfEven (x / 2 powi (binaryExponent x - 52))"
    using roundHalfEven_ge [of 0] by simp
  then show ?thesis by (simp add: nearestDouble_def)
qed

lemma frameSamples_nonneg: "0 \<le> dr \<Longrightarrow> 0 \<le> sr \<Longrightarrow> 0 \<le> frameSamples dr sr"
  using nearestDouble_nonneg [of "dr * sr"] by (simp add: frameSamples_def)

lemma frameSamples_bound:
  assumes "\<bar>frameSamples dr sr\<bar> \<le> 2 ^ 53"
  shows "\<not> 2 ^ 1024 \<le> \<bar>nearestDouble (dr * sr)\<bar>"
proof -
  define y where "y = nearestDouble (dr * sr)"
  have "real_of_int \<bar>frameSamples dr sr\<bar> \<le> real_of_int (2 ^ 53)"
    using assms by (rule of_int_le_iff [THEN iffD2])
  then have a: "\<bar>real_of_int \<lfloor>y + 1 / 2\<rfloor>\<bar> \<le> 2 ^ 53" by (simp add: frameSamples_def y_def)
  have "\<bar>y\<bar> \<le> \<bar>real_of_int \<lfloor>y + 1 / 2\<rfloor>\<bar> + 1" by linarith
  with a have "\<bar>y\<bar> \<le> 2 ^ 53 + 1" by linarith
  moreover have "(2::real) ^ 53 + 1 < 2 ^ 1024"
  proof -
    have "(2::real) ^ 54 \<le> 2 ^ 1024" by (rule power_increasing) simp_all
    moreover have "(2::real) ^ 53 + 1 < 2 ^ 54" by simp
    ultimately show ?thesis by linarith
  qed
  ultimately show ?thesis unfolding y_def by linarith
qed

lemma frameLen_finite:
  assumes "sampleRate mp = Fin sr" and "duration (H r) = Fin dr"
      and "\<bar>frameSamples dr sr\<bar> \<le> 2 ^ 53"
  shows "frameLen H mp r = Fin (of_int (frameSamples dr sr))"
  using assms(1,2) frameSamples_bound [OF assms(3)]
  by (simp add: frameLen_def times_double_def toDouble_def frameSamples_def)

lemma frameLen_nonneg:
  assumes "sampleRate mp = Fin sr" and "duration (H r) = Fin dr" and "0 \<le> dr" and "0 \<le> sr"
  shows "frameLen H mp r = Fin (of_int (frameSamples dr sr)) \<or> frameLen H mp r = PInf"
proof -
  have "0 \<le> nearestDouble (dr * sr)" using assms(3,4) by (intro nearestDouble_nonneg) simp
  then have "2 ^ 1024 \<le> \<bar>nearestDouble (dr * sr)\<bar> \<Longrightarrow> 0 < dr * sr"
    by (cases "dr * sr = 0") (use assms(3,4) in \<open>auto simp: nearestDouble_def less_le\<close>)
  then show ?thesis
    using assms(1,2)
    by (auto simp: frameLen_def times_double_def toDouble_def frameSamples_def)
qed

lemma trunc_of_int [simp]: "trunc (of_int k) = k"
  by (simp add: trunc_def)

lemma plus_double_of_int:
  assumes "\<bar>a + b\<bar> \<le> 2 ^ 53"
  shows "plus_double (Fin (of_int a)) (Fin (of_int b)) = Fin (of_int (a + b))"
  using toDouble_of_int [OF assms] by (simp add: plus_double_def)

lemma sum_list_abs_ge: "\<bar>sum_list (xs::int list)\<bar> \<le> sum_list (map abs xs)"
  by (induction xs) auto

lemma outBufLen_exact:
  assumes "sampleRate mp = Fin sr" and "\<forall>r \<in> set rs. duration (H r) = Fin (d r)"
      and "\<bar>a\<bar> + (\<Sum>r\<leftarrow>rs. \<bar>frameSamples (d r) sr\<bar>) \<le> 2 ^ 53"
  shows "foldl (\<lambda>len r. plus_double len (frameLen H mp r)) (Fin (of_int a)) rs
           = Fin (of_int (a + (\<Sum>r\<leftarrow>rs. frameSamples (d r) sr)))"
  using assms(2,3)
proof (induction rs arbitrary: a)
  case Nil
  then show ?case by simp
next
  case (Cons r rs)
  let ?L = "frameSamples (d r) sr"
  have nn: "0 \<le> (\<Sum>r\<leftarrow>rs. \<bar>frameSamples (d r) sr\<bar>)" by (rule sum_list_nonneg) auto
  have L: "\<bar>?L\<bar> \<le> 2 ^ 53" using Cons.prems(2) nn by simp
  have fl: "frameLen H mp r = Fin (of_int ?L)"
    using Cons.prems(1) by (intro frameLen_finite [OF assms(1) _ L]) simp
  have b: "\<bar>a + ?L\<bar> + (\<Sum>r\<leftarrow>rs. \<bar>frameSamples (d r) sr\<bar>) \<le> 2 ^ 53"
    using Cons.prems(2) by simp
  have s: "plus_double (Fin (of_int a)) (frameLen H mp r) = Fin (of_int (a + ?L))"
    unfolding fl using b nn by (intro plus_double_of_int) simp
  show ?case
    using Cons.IH [of "a + ?L"] Cons.prems(1) b by (simp add: s add.assoc)
qed

lemma outBufLen_large:
  assumes "sampleRate mp = Fin sr" and "\<forall>r \<in> set rs. duration (H r) = Fin (d r) \<and> 0 \<le> d r"
      and "0 \<le> sr" and "Fin (2 ^ 53) \<le> acc"
  shows "Fin (2 ^ 53) \<le> foldl (\<lambda>len r. plus_double len (frameLen H mp r)) acc rs"
  using assms(2,4)
proof (induction rs arbitrary: acc)
  case Nil
  then show ?case by simp
next
  case (Cons r rs)
  let ?L = "frameSamples (d r) sr"
  have L: "0 \<le> ?L" using Cons.prems(1) assms(3) by (simp add: frameSamples_nonneg)
  have fl: "frameLen H mp r = Fin (of_int ?L) \<or> frameLen H mp r = PInf"
    using Cons.prems(1) assms(3) by (intro frameLen_nonneg [OF assms(1)]) simp_all
  have "Fin (2 ^ 53) \<le> plus_double acc (frameLen H mp r)"
  proof (cases acc)
    case (Fin a)
    with Cons.prems(2) have a: "2 ^ 53 \<le> a" by simp
    from fl show ?thesis
    proof
      assume f: "frameLen H mp r = Fin (of_int ?L)"
      have "2 ^ 53 \<le> a + of_int ?L" using a L by simp
      then show ?thesis
        using toDouble_large [of "a + of_int ?L"] by (simp add: plus_double_def Fin f)
    next
      assume "frameLen H mp r = PInf"
      then show ?thesis by (simp add: plus_double_def Fin toDouble_def)
    qed
  next
    case PInf
    with fl show ?thesis by (auto simp: plus_double_def toDouble_def)
  qed (use Cons.prems(2) in simp_all)
  from Cons.IH [OF _ this] Cons.prems(1) show ?case by simp
qed

lemma outBufLen_nonneg:
  assumes "sampleRate mp = Fin sr" and "\<forall>r \<in> set rs. duration (H r) = Fin (d r) \<and> 0 \<le> d r"
      and "0 \<le> sr" and "0 \<le> a" and "a \<le> 2 ^ 53"
  shows "a + (\<Sum>r\<leftarrow>rs. frameSamples (d r) sr) \<le> 2 ^ 53
       \<or> Fin (2 ^ 53) \<le> foldl (\<lambda>len r. plus_double len (frameLen H mp r)) (Fin (of_int a)) rs"
  using assms(2,4,5)
proof (induction rs arbitrary: a)
  case Nil
  then show ?case by simp
next
  case (Cons r rs)
  let ?L = "frameSamples (d r) sr"
  have L: "0 \<le> ?L" using Cons.prems(1) assms(3) by (simp add: frameSamples_nonneg)
  have fl: "frameLen H mp r = Fin (of_int ?L) \<or> frameLen H mp r = PInf"
    using Cons.prems(1) assms(3) by (intro frameLen_nonneg [OF assms(1)]) simp_all
  have rest: "\<forall>r \<in> set rs. duration (H r) = Fin (d r) \<and> 0 \<le> d r" using Cons.prems(1) by simp
  show ?case
  proof (cases "frameLen H mp r = Fin (of_int ?L) \<and> a + ?L \<le> 2 ^ 53")
    case True
    then have s: "plus_double (Fin (of_int a)) (frameLen H mp r) = Fin (of_int (a + ?L))"
      using Cons.prems(2) L by (simp add: plus_double_of_int)
    have step: "foldl (\<lambda>len r. plus_double len (frameLen H mp r)) (Fin (of_int a)) (r # rs)
        = foldl (\<lambda>len r. plus_double len (frameLen H mp r)) (Fin (of_int (a + ?L))) rs"
      by (simp only: foldl_Cons s)
    have sum: "a + (\<Sum>r\<leftarrow>r # rs. frameSamples (d r) sr)
        = (a + ?L) + (\<Sum>r\<leftarrow>rs. frameSamples (d r) sr)"
      by simp
    have 0: "0 \<le> a + ?L" using Cons.prems(2) L by simp
    have 1: "a + ?L \<le> 2 ^ 53" using True by simp
    show ?thesis unfolding step sum by (rule Cons.IH [OF rest 0 1])
  next
    case False
    have "Fin (2 ^ 53) \<le> plus_double (Fin (of_int a)) (frameLen H mp r)"
    proof (cases "frameLen H mp r = PInf")
      case True
      then show ?thesis by (simp add: plus_double_def toDouble_def)
    next
      case nf: False
      with fl have f: "frameLen H mp r = Fin (of_int ?L)" by simp
      with False have "2 ^ 53 < a + ?L" by simp
      then have "real_of_int (2 ^ 53) \<le> real_of_int (a + ?L)"
        by (intro of_int_le_iff [THEN iffD2]) simp
      then have "2 ^ 53 \<le> real_of_int a + real_of_int ?L" by simp
      then show ?thesis
        using toDouble_large [of "real_of_int a + real_of_int ?L"] by (simp add: plus_double_def f)
    qed
    from outBufLen_large [OF assms(1) rest assms(3) this] show ?thesis by simp
  qed
qed

lemma Float64Array_new_large:
  assumes "Fin (2 ^ 53) \<le> n"
  shows "Float64Array_new n = Inl RangeError"
proof (cases n)
  case (Fin u)
  with assms have "2 ^ 53 \<le> u" by simp
  then have "real_of_int (2 ^ 53) \<le> u" by simp
  then have "2 ^ 53 \<le> \<lfloor>u\<rfloor>" by (simp only: le_floor_iff)
  moreover have "0 \<le> u" using \<open>2 ^ 53 \<le> u\<close> by simp
  ultimately show ?thesis by (simp add: Float64Array_new_def Fin trunc_def)
qed (use assms in \<open>simp_all add: Float64Array_new_def\<close>)

lemma generateSound_shape:
  assumes "generateSound H mp rs rnd = Inr buf"
      and "sampleRate mp = Fin sr" and "\<forall>r \<in> set rs. duration (H r) = Fin (d r)"
      and "(\<Sum>r\<leftarrow>rs. \<bar>frameSamples (d r) sr\<bar>) \<le> 2 ^ 53"
  shows "\<exists>g. Generator_new mp rnd = Inr g
           \<and> 0 \<le> (\<Sum>r\<leftarrow>rs. frameSamples (d r) sr)
           \<and> generateSound_frames H mp rs g
                (replicate (nat (\<Sum>r\<leftarrow>rs. frameSamples (d r) sr)) 0) 0 = Inr buf"
proof -
  let ?K = "\<Sum>r\<leftarrow>rs. frameSamples (d r) sr"
  have len: "generateSound_outBufLen H mp rs = Fin (of_int ?K)"
    using outBufLen_exact [OF assms(2,3), of 0] assms(4)
    by (simp add: generateSound_outBufLen_def zero_number_def)
  from assms(1) obtain g where g: "Generator_new mp rnd = Inr g"
    by (cases "Generator_new mp rnd") (simp_all add: generateSound_def)
  from assms(1) g obtain outBuf where
    o: "Float64Array_new (Fin (of_int ?K)) = Inr outBuf"
    and f: "generateSound_frames H mp rs g outBuf 0 = Inr buf"
    by (cases "Float64Array_new (Fin (of_int ?K))") (simp_all add: generateSound_def len)
  from o have "0 \<le> ?K \<and> outBuf = replicate (nat ?K) 0"
    by (auto simp: Float64Array_new_def split: if_splits)
  with g f show ?thesis by blast
qed

lemma generateSound_bound:
  assumes "generateSound H mp rs rnd = Inr buf"
      and "sampleRate mp = Fin sr" and "\<forall>r \<in> set rs. duration (H r) = Fin (d r) \<and> 0 \<le> d r"
      and "0 \<le> sr"
  shows "(\<Sum>r\<leftarrow>rs. \<bar>frameSamples (d r) sr\<bar>) \<le> 2 ^ 53"
proof -
  from assms(1) obtain g where g: "Generator_new mp rnd = Inr g"
    by (cases "Generator_new mp rnd") (simp_all add: generateSound_def)
  from assms(1) g have "Float64Array_new (generateSound_outBufLen H mp rs) \<noteq> Inl RangeError"
    by (cases "Float64Array_new (generateSound_outBufLen H mp rs)") (auto simp: generateSound_def)
  then have "\<not> Fin (2 ^ 53) \<le> generateSound_outBufLen H mp rs"
    using Float64Array_new_large by blast
  then have "\<not> Fin (2 ^ 53) \<le> foldl (\<lambda>len r. plus_double len (frameLen H mp r)) (Fin (of_int 0)) rs"
    by (simp add: generateSound_outBufLen_def zero_number_def)
  with outBufLen_nonneg [OF assms(2,3,4), of 0]
  have "(\<Sum>r\<leftarrow>rs. frameSamples (d r) sr) \<le> 2 ^ 53" by simp
  moreover have "(\<Sum>r\<leftarrow>rs. \<bar>frameSamples (d r) sr\<bar>) = (\<Sum>r\<leftarrow>rs. frameSamples (d r) sr)"
    using assms(3,4)
    by (intro arg_cong [where f = sum_list] map_cong refl abs_of_nonneg frameSamples_nonneg) auto
  ultimately show ?thesis by (simp only:)
qed

lemma relativeIndex_of_nat:
  "relativeIndex (Fin (real j)) len = min j len"
  using trunc_of_int [of "int j"] by (simp add: relativeIndex_def del: trunc_of_int)

lemma subarray_next:
  assumes "n \<le> m"
  shows "subarray (Fin (real k)) (Fin (real (k + n))) (k + m) = (k, n)"
  using assms by (simp only: subarray_def Let_def relativeIndex_of_nat) simp

lemma generateSound_frames_concat:
  assumes "sampleRate mp = Fin sr"
      and "\<forall>r \<in> set rs. duration (H r) = Fin (d r) \<and> 0 \<le> frameSamples (d r) sr"
      and "int (length done) + (\<Sum>r\<leftarrow>rs. frameSamples (d r) sr) \<le> 2 ^ 53"
      and "generateSound_frames H mp rs g
             (done @ replicate (nat (\<Sum>r\<leftarrow>rs. frameSamples (d r) sr)) 0)
             (Fin (real (length done))) = Inr buf"
  shows "\<exists>rest. framesOutput H mp rs g = Inr rest \<and> buf = done @ rest"
  using assms(2,3,4)
proof (induction rs arbitrary: g "done")
  case Nil
  then show ?case by simp
next
  case (Cons r rs)
  let ?L = "frameSamples (d r) sr"
  let ?K = "\<Sum>r\<leftarrow>rs. frameSamples (d r) sr"
  have L: "0 \<le> ?L" using Cons.prems(1) by simp
  have K: "0 \<le> ?K" using Cons.prems(1) by (intro sum_list_nonneg) auto
  have bound: "int (length done) + ?L + ?K \<le> 2 ^ 53" using Cons.prems(2) by simp
  have fl: "frameLen H mp r = Fin (of_int ?L)"
    using Cons.prems(1) L K bound by (intro frameLen_finite [OF assms(1)]) simp_all
  have m: "nat (?L + ?K) = nat ?L + nat ?K" using L K by (simp add: nat_add_distrib)
  let ?OUT = "done @ replicate (nat (?L + ?K)) (0::number)"
  have pd: "plus_double (Fin (real (length done))) (frameLen H mp r)
              = Fin (real (length done + nat ?L))"
    using plus_double_of_int [of "int (length done)" ?L] L K bound by (simp add: fl)
  have sa: "subarray (Fin (real (length done)))
              (plus_double (Fin (real (length done))) (frameLen H mp r))
              (length ?OUT) = (length done, nat ?L)"
    unfolding pd using subarray_next [of "nat ?L" "nat (?L + ?K)" "length done"] m by simp
  have fb: "take (nat ?L) (drop (length done) ?OUT) = replicate (nat ?L) 0"
    by (simp add: m)
  have tk: "take (length done) ?OUT = done" by simp
  have rest: "drop (length done + nat ?L) ?OUT = replicate (nat ?K) 0"
    by (simp add: m)
  have unfold: "generateSound_frames H mp (r # rs) g ?OUT (Fin (real (length done))) =
      (case generateFrame H r (replicate (nat ?L) 0) g of
         (Some e, st) \<Rightarrow> Inl e
       | (None, (g', fb')) \<Rightarrow>
           generateSound_frames H mp rs g' (done @ fb' @ replicate (nat ?K) 0)
             (plus_double (Fin (real (length done))) (frameLen H mp r)))"
    by (simp only: generateSound_frames.simps Let_def sa prod.case fb tk rest)
  obtain e g' fb' where gf: "generateFrame H r (replicate (nat ?L) 0) g = (e, (g', fb'))"
    by (cases "generateFrame H r (replicate (nat ?L) 0) g") auto
  have l: "length fb' = nat ?L" using generateFrame_length [OF gf] by simp
  from Cons.prems(3) have p: "generateSound_frames H mp (r # rs) g ?OUT
      (Fin (real (length done))) = Inr buf"
    by simp
  have e: "e = None"
    using p unfolding unfold gf by (cases e) simp_all
  have pos: "plus_double (Fin (real (length done))) (frameLen H mp r)
               = Fin (real (length (done @ fb')))"
    unfolding pd by (simp add: l)
  have 1: "generateSound_frames H mp rs g' ((done @ fb') @ replicate (nat ?K) 0)
          (Fin (real (length (done @ fb')))) = Inr buf"
    using p unfolding unfold gf e pos by simp
  have 2: "int (length (done @ fb')) + ?K \<le> 2 ^ 53" using bound L by (simp add: l)
  have 3: "\<forall>r \<in> set rs. duration (H r) = Fin (d r) \<and> 0 \<le> frameSamples (d r) sr"
    using Cons.prems(1) by simp
  from Cons.IH [OF 3 2 1]
  obtain rest where r: "framesOutput H mp rs g' = Inr rest" "buf = (done @ fb') @ rest"
    by auto
  show ?case
    using r gf e by (simp add: fl)
qed


text \<open>
  Claim C5, amended. Whenever \<open>generateSound\<close> returns a buffer, for a finite sample rate
  \<open>sr\<close> and frames of finite durations \<open>d r\<close>: if no duration and not the sample rate is
  negative, or if the frame lengths are less than \<open>2^53\<close> in total, the buffer has exactly
  \<open>\<Sum> round(d r * sr)\<close> samples, each product \<open>d r * sr\<close> being the double that the code
  computes; and if no duration and not the sample rate is negative, the buffer is the
  concatenation of the frames, each generated by \<open>generateFrame\<close> into a buffer of
  \<open>round(d r * sr)\<close> zeros by the generator that the frame before left.
\<close>

theorem generateSound_length:
  assumes "generateSound H mp rs rnd = Inr buf"
      and "sampleRate mp = Fin sr"
      and "\<forall>r \<in> set rs. duration (H r) = Fin (d r)"
  shows "(((\<forall>r \<in> set rs. 0 \<le> d r) \<and> 0 \<le> sr) \<or> (\<Sum>r\<leftarrow>rs. \<bar>frameSamples (d r) sr\<bar>) \<le> 2 ^ 53
            \<longrightarrow> int (length buf) = (\<Sum>r\<leftarrow>rs. frameSamples (d r) sr))
       \<and> ((\<forall>r \<in> set rs. 0 \<le> d r) \<and> 0 \<le> sr
            \<longrightarrow> (\<exists>g. Generator_new mp rnd = Inr g \<and> framesOutput H mp rs g = Inr buf))"
proof -
  let ?K = "\<Sum>r\<leftarrow>rs. frameSamples (d r) sr"
  have b: "(\<Sum>r\<leftarrow>rs. \<bar>frameSamples (d r) sr\<bar>) \<le> 2 ^ 53"
    if "(\<forall>r \<in> set rs. 0 \<le> d r) \<and> 0 \<le> sr"
    using generateSound_bound [OF assms(1,2), of d] assms(3) that by simp
  have len: "int (length buf) = ?K" if bb: "(\<Sum>r\<leftarrow>rs. \<bar>frameSamples (d r) sr\<bar>) \<le> 2 ^ 53"
  proof -
    obtain g where "0 \<le> ?K"
      and "generateSound_frames H mp rs g (replicate (nat ?K) 0) 0 = Inr buf"
      using generateSound_shape [OF assms bb] by blast
    then show ?thesis using generateSound_frames_length [of H mp rs g _ 0 buf] by simp
  qed
  have cat: "\<exists>g. Generator_new mp rnd = Inr g \<and> framesOutput H mp rs g = Inr buf"
    if nn: "(\<forall>r \<in> set rs. 0 \<le> d r) \<and> 0 \<le> sr"
  proof -
    obtain g where g: "Generator_new mp rnd = Inr g" and K: "0 \<le> ?K"
      and f: "generateSound_frames H mp rs g (replicate (nat ?K) 0) 0 = Inr buf"
      using generateSound_shape [OF assms b [OF nn]] by blast
    have 1: "\<forall>r \<in> set rs. duration (H r) = Fin (d r) \<and> 0 \<le> frameSamples (d r) sr"
      using assms(3) nn by (simp add: frameSamples_nonneg)
    have "?K \<le> (\<Sum>r\<leftarrow>rs. \<bar>frameSamples (d r) sr\<bar>)"
      by (rule sum_list_mono) simp
    with b [OF nn] have 2: "int (length ([]::number list)) + ?K \<le> 2 ^ 53" by simp
    have 3: "generateSound_frames H mp rs g ([] @ replicate (nat ?K) 0)
               (Fin (real (length ([]::number list)))) = Inr buf"
      using f by (simp add: zero_number_def)
    from generateSound_frames_concat [OF assms(2) 1 2 3] g show ?thesis by simp
  qed
  from b len cat show ?thesis by blast
qed

subsection \<open>Evaluation on the concrete inputs\<close>

lemmas period_defs =
  startNewPeriod_def performFrequencyModulation_def startGlottalSourcePeriod_def
  natural_def impulsive_def noise_def emptyPeriodState_def NaturalGlottalSource_startPeriod_def
  NaturalGlottalSource_new_def

lemmas new_defs = LpFilter1_new_def Resonator_new_def AntiResonator_new_def emptyFrameState_def

lemma ex_startNewPeriod:
  "fst (startNewPeriod exHeap (exGenerator\<lparr>newFParms := Some 0\<rparr>)) = None"
  "pState (snd (startNewPeriod exHeap (exGenerator\<lparr>newFParms := Some 0\<rparr>))) =
     Some \<lparr>periodF0 = Fin 100, periodLength = Fin 80, openPhaseLength = Fin 56,
           positionInPeriod = Fin 0\<rparr>"
  by (simp_all add: period_defs binding_defs ex_defs new_defs upt_0_6 Let_def number_defs)

text \<open>
  The frame \<open>exFrame\<close> at 8000 Hz: a period of 80 samples with an open phase of 56.
\<close>

theorem startNewPeriod_lengths_witness:
  "startNewPeriod exHeap (exGenerator\<lparr>newFParms := Some 0\<rparr>)
     = (None, snd (startNewPeriod exHeap (exGenerator\<lparr>newFParms := Some 0\<rparr>)))
   \<and> sampleRate (mParms (exGenerator\<lparr>newFParms := Some 0\<rparr>)) = Fin 8000
   \<and> (\<exists>r ps N. fParms (snd (startNewPeriod exHeap (exGenerator\<lparr>newFParms := Some 0\<rparr>))) = Some r
         \<and> pState (snd (startNewPeriod exHeap (exGenerator\<lparr>newFParms := Some 0\<rparr>))) = Some ps
         \<and> periodLength ps = Fin (of_int N) \<and> 0 \<le> N)
   \<and> pState (snd (startNewPeriod exHeap (exGenerator\<lparr>newFParms := Some 0\<rparr>))) =
       Some \<lparr>periodF0 = Fin 100, periodLength = Fin 80, openPhaseLength = Fin 56,
             positionInPeriod = Fin 0\<rparr>"
proof -
  let ?g = "exGenerator\<lparr>newFParms := Some 0\<rparr>"
  have h1: "startNewPeriod exHeap ?g = (None, snd (startNewPeriod exHeap ?g))"
    using ex_startNewPeriod(1) by (simp add: prod_eq_iff)
  have h2: "sampleRate (mParms ?g) = Fin 8000"
    by (simp add: exGenerator_fields exMainParms_def)
  have h3: "(0::real) < 8000" by simp
  from startNewPeriod_lengths [OF h1 h2 h3] have "\<exists>r ps N.
      fParms (snd (startNewPeriod exHeap ?g)) = Some r
      \<and> pState (snd (startNewPeriod exHeap ?g)) = Some ps
      \<and> periodLength ps = Fin (of_int N) \<and> 0 \<le> N"
    by blast
  with h1 h2 ex_startNewPeriod(2) show ?thesis by simp
qed

text \<open>
  Claim C3 as stated fails: with \<open>f0 = 20000 \<ge> 0\<close>, an open phase ratio of 0.7 and a
  sample rate of 8000 Hz the period start succeeds and sets the period length to
  \<open>round(8000 / 20000) = 0\<close>, which is not \<open>\<ge> 1\<close>.
\<close>

theorem startNewPeriod_periodLength_counterexample:
  "f0 (exHeap 1) = Fin 20000 \<and> openPhaseRatio (exHeap 1) = Fin 0.7
   \<and> sampleRate exMainParms = Fin 8000
   \<and> fst (startNewPeriod exHeap (exGenerator\<lparr>newFParms := Some 1\<rparr>)) = None
   \<and> pState (snd (startNewPeriod exHeap (exGenerator\<lparr>newFParms := Some 1\<rparr>))) =
       Some \<lparr>periodF0 = Fin 20000, periodLength = Fin 0, openPhaseLength = Fin 0,
             positionInPeriod = Fin 0\<rparr>
   \<and> \<not> (1 \<le> Fin 0)"
  by (simp add: period_defs binding_defs ex_defs new_defs upt_0_6 Let_def number_defs)

text \<open>
  The type 7 at 8000 Hz.
\<close>

theorem glottalSourceType_guard_witness:
  "Generator_new \<lparr>sampleRate = Fin 8000, glottalSourceType = 7\<rparr> exRandom
     = Inl UndefinedGlottalSourceType
   \<and> startGlottalSourcePeriod (exGenerator\<lparr>mParms := \<lparr>sampleRate = Fin 8000, glottalSourceType = 7\<rparr>\<rparr>)
     = (None, exGenerator\<lparr>mParms := \<lparr>sampleRate = Fin 8000, glottalSourceType = 7\<rparr>\<rparr>)"
  using glottalSourceType_guard [of 7 8000 exRandom
          "exGenerator\<lparr>mParms := \<lparr>sampleRate = Fin 8000, glottalSourceType = 7\<rparr>\<rparr>"]
  by (simp add: impulsive_def natural_def)

text \<open>
  Claim C8 as stated fails at the period start: in a generator whose glottal source type
  is 7 (the caller's \<open>mParms\<close> object changed after the construction), a period start
  raises no error.
\<close>

theorem startNewPeriod_unknown_type_counterexample:
  "glottalSourceType (mParms (exGenerator\<lparr>mParms := \<lparr>sampleRate = Fin 8000, glottalSourceType = 7\<rparr>,
                                       newFParms := Some 0\<rparr>)) = 7
   \<and> fst (startNewPeriod exHeap
           (exGenerator\<lparr>mParms := \<lparr>sampleRate = Fin 8000, glottalSourceType = 7\<rparr>,
                        newFParms := Some 0\<rparr>)) = None"
  by (simp add: period_defs binding_defs ex_defs new_defs upt_0_6 Let_def number_defs)

text \<open>The example after its first sample.\<close>

lemma ex_wellFormed1:
  "wellFormed (snd (startNewPeriod exHeap (exGenerator\<lparr>newFParms := Some 0\<rparr>)))"
  by (simp add: wellFormed_def period_defs binding_defs ex_defs new_defs Let_def number_defs
      upt_0_6 [unfolded maxOralFormants_def] maxOralFormants_def)

lemma generateFrame_body_boundary:
  assumes "needsNewPeriod s" and "startNewPeriod H s = (None, s1)" and "wellFormed s1"
      and "pState s1 = Some ps"
  shows "\<exists>v s2. generateFrame_body H i (s, buf) =
           (None, (s2\<lparr>pState := Some (ps\<lparr>positionInPeriod := positionInPeriod ps + 1\<rparr>),
                      absPosition := absPosition s1 + 1\<rparr>, buf[i := v]))
         \<and> sameSetup s1 s2"
proof -
  obtain v s2 where c: "computeNextOutputSignalSample H s1 = (Inr v, s2)"
    using computeNextOutputSignalSample_ok [OF assms(3,4)] by blast
  have same: "sameSetup s1 s2" by (rule computeNextOutputSignalSample_same [OF c])
  show ?thesis
    using assms(1,2,4) c same sameSetup_fields(4,6) [OF same]
    by (auto simp: generateFrame_body_def)
qed

lemma ex_first_sample:
  "\<exists>v s2. generateFrame exHeap 0 [0] exGenerator =
       (None, (s2\<lparr>pState := Some \<lparr>periodF0 = Fin 100, periodLength = Fin 80,
                                   openPhaseLength = Fin 56, positionInPeriod = Fin 1\<rparr>,
                  absPosition := Fin 1\<rparr>, [v]))
     \<and> sameSetup (snd (startNewPeriod exHeap (exGenerator\<lparr>newFParms := Some 0\<rparr>))) s2"
proof -
  let ?s = "exGenerator\<lparr>newFParms := Some 0\<rparr>"
  have n: "needsNewPeriod ?s" by (simp add: needsNewPeriod_def exGenerator_fields)
  have s1: "startNewPeriod exHeap ?s = (None, snd (startNewPeriod exHeap ?s))"
    using ex_startNewPeriod(1) by (simp add: prod_eq_iff)
  have ab: "absPosition (snd (startNewPeriod exHeap ?s)) = 0"
    by (simp add: period_defs binding_defs ex_defs new_defs upt_0_6 Let_def number_defs)
  from generateFrame_body_boundary [OF n s1 ex_wellFormed1 ex_startNewPeriod(2), of 0 "[0]"]
  obtain v s2 where b: "generateFrame_body exHeap 0 (?s, [0]) =
           (None, (s2\<lparr>pState := Some \<lparr>periodF0 = Fin 100, periodLength = Fin 80,
                                   openPhaseLength = Fin 56, positionInPeriod = Fin 1\<rparr>,
                      absPosition := Fin 1\<rparr>, [v]))"
    and same: "sameSetup (snd (startNewPeriod exHeap ?s)) s2"
    using ab by (auto simp: number_defs)
  have "generateFrame exHeap 0 [0] exGenerator =
       (None, (s2\<lparr>pState := Some \<lparr>periodF0 = Fin 100, periodLength = Fin 80,
                                   openPhaseLength = Fin 56, positionInPeriod = Fin 1\<rparr>,
                  absPosition := Fin 1\<rparr>, [v]))"
    by (simp add: generateFrame_def exGenerator_fields b andThen_def)
  with same show ?thesis by blast
qed

lemma exGenerator1_fields:
  "fParms exGenerator1 = Some 0" "newFParms exGenerator1 = None"
  "pState exGenerator1 = Some \<lparr>periodF0 = Fin 100, periodLength = Fin 80,
                                openPhaseLength = Fin 56, positionInPeriod = Fin 1\<rparr>"
  "wellFormed exGenerator1" "\<not> needsNewPeriod exGenerator1"
  "fst (generateFrame exHeap 0 [0] exGenerator) = None"
proof -
  let ?s1 = "snd (startNewPeriod exHeap (exGenerator\<lparr>newFParms := Some 0\<rparr>))"
  obtain v s2 where g: "generateFrame exHeap 0 [0] exGenerator =
       (None, (s2\<lparr>pState := Some \<lparr>periodF0 = Fin 100, periodLength = Fin 80,
                                   openPhaseLength = Fin 56, positionInPeriod = Fin 1\<rparr>,
                  absPosition := Fin 1\<rparr>, [v]))"
    and same: "sameSetup ?s1 s2"
    using ex_first_sample by blast
  have ad: "fParms ?s1 = Some 0" "newFParms ?s1 = None"
    using startNewPeriod_adopts [of exHeap "exGenerator\<lparr>newFParms := Some 0\<rparr>" ?s1 0]
      ex_startNewPeriod(1) by (simp_all add: prod_eq_iff)
  have e: "exGenerator1 = s2\<lparr>pState := Some \<lparr>periodF0 = Fin 100, periodLength = Fin 80,
                                   openPhaseLength = Fin 56, positionInPeriod = Fin 1\<rparr>,
                  absPosition := Fin 1\<rparr>"
    using g by (simp add: exGenerator1_def)
  have wf2: "wellFormed s2" using sameSetup_wellFormed [OF same] ex_wellFormed1 by simp
  show "fParms exGenerator1 = Some 0" unfolding e using sameSetup_fields(1) [OF same] ad by simp
  show "newFParms exGenerator1 = None" unfolding e using sameSetup_fields(5) [OF same] ad by simp
  show "pState exGenerator1 = Some \<lparr>periodF0 = Fin 100, periodLength = Fin 80,
                                openPhaseLength = Fin 56, positionInPeriod = Fin 1\<rparr>"
    unfolding e by simp
  show "wellFormed exGenerator1"
    unfolding e using wf2 sameSetup_fields(1) [OF same] ad
    by (simp add: wellFormed_def split: GlottalSourceFn.splits)
  show "\<not> needsNewPeriod exGenerator1" unfolding e by (simp add: needsNewPeriod_def)
  show "fst (generateFrame exHeap 0 [0] exGenerator) = None" using g by simp
qed


lemma snd_andThen_forEach_Nil:
  "snd (andThen out (forEach [] body)) = snd out" "fst (andThen out (forEach [] body)) = fst out"
  by (cases out; cases "fst out"; simp add: andThen_def)+

theorem frame_parameters_adopted_at_period_start_witness:
  "fParms exGenerator \<noteq> Some 0
   \<and> generateFrame exHeap 0 [0] exGenerator =
       forEach [0..<1] (generateFrame_body exHeap) (exGenerator\<lparr>newFParms := Some 0\<rparr>, [0])
   \<and> needsNewPeriod (exGenerator\<lparr>newFParms := Some 0\<rparr>)
   \<and> fParms exGenerator1 = Some 0 \<and> newFParms exGenerator1 = None
   \<and> \<not> needsNewPeriod exGenerator1
   \<and> fParms exGenerator1 \<noteq> Some 1
   \<and> generateFrame exHeap 1 [0] exGenerator1 =
       setPending (Some 1) (forEach [0] (generateFrame_body exHeap) (exGenerator1, [0]))
   \<and> config (fst (snd (generateFrame exHeap 1 [0] exGenerator1))) = config exGenerator1
   \<and> newFParms (fst (snd (generateFrame exHeap 1 [0] exGenerator1))) = Some 1"
proof -
  let ?g = "exGenerator\<lparr>newFParms := Some 0\<rparr>"
  let ?st = "(exGenerator1\<lparr>newFParms := Some 1\<rparr>, [0::number])"
  let ?out = "generateFrame exHeap 0 [0] exGenerator"
  have a1: "fParms exGenerator \<noteq> Some 0" by (simp add: exGenerator_fields)
  have a2: "needsNewPeriod ?g" by (simp add: needsNewPeriod_def exGenerator_fields)
  have a3: "\<not> needsNewPeriod exGenerator1" by (rule exGenerator1_fields(5))
  have a4: "fParms exGenerator1 \<noteq> Some 1" by (simp add: exGenerator1_fields(1))
  have g0: "?out = forEach [0..<1] (generateFrame_body exHeap) (?g, [0])"
    using frame_parameters_adopted_at_period_start [of exGenerator 0 exHeap "[0]"] a1 by simp
  have b0: "generateFrame_body exHeap 0 (?g, [0]) = (None, (exGenerator1, snd (snd ?out)))"
    using g0 exGenerator1_fields(6)
    by (simp add: exGenerator1_def prod_eq_iff snd_andThen_forEach_Nil)
  have ad: "fParms exGenerator1 = Some 0 \<and> newFParms exGenerator1 = None"
    using frame_parameters_adopted_at_period_start [of ?g 0 exHeap "[0]" _ _ _ 0 exGenerator1 "snd (snd ?out)"]
      a2 b0 by simp
  have g1: "generateFrame exHeap 1 [0] exGenerator1 = forEach [0] (generateFrame_body exHeap) ?st"
    using frame_parameters_adopted_at_period_start [of exGenerator1 1 exHeap "[0]"] a4 by simp
  have tr: "frameTrace exHeap [0] ?st =
      [exGenerator1\<lparr>newFParms := Some 1\<rparr>, fst (snd (generateFrame_body exHeap 0 ?st))]"
    by (cases "generateFrame_body exHeap 0 ?st"; cases "fst (generateFrame_body exHeap 0 ?st)"; simp)
  have tr0: "butlast (frameTrace exHeap [0] (exGenerator1, [0])) = [exGenerator1]"
    by (cases "generateFrame_body exHeap 0 (exGenerator1, [0])";
        cases "fst (generateFrame_body exHeap 0 (exGenerator1, [0]))"; simp)
  have p: "forEach [0] (generateFrame_body exHeap) ?st =
      setPending (Some 1) (forEach [0] (generateFrame_body exHeap) (exGenerator1, [0]))"
    using frame_parameters_adopted_at_period_start [of exGenerator1 _ exHeap "[0]" "[0]" _ "Some 1"]
      a3 tr0 by simp
  have st: "config (frameTrace exHeap [0] ?st ! Suc 0) = config (frameTrace exHeap [0] ?st ! 0)
      \<and> newFParms (frameTrace exHeap [0] ?st ! Suc 0) = newFParms (frameTrace exHeap [0] ?st ! 0)"
    using frame_parameters_adopted_at_period_start [of _ _ exHeap _ "[0]" ?st] a3 tr
    by (metis needsNewPeriod_pending frameTrace_nth_0 fst_conv length_Cons list.size(3) lessI)
  have c: "config (fst (snd (generateFrame exHeap 1 [0] exGenerator1))) = config exGenerator1
      \<and> newFParms (fst (snd (generateFrame exHeap 1 [0] exGenerator1))) = Some 1"
    using st unfolding tr g1
    by (simp add: snd_andThen_forEach_Nil config_def filterConfig_def sourceConfig_def)
  from a1 g0 a2 ad a3 a4 g1 p c show ?thesis by simp
qed

text \<open>The example after its second sample.\<close>

lemma exGenerator2_fields:
  "fParms exGenerator2 = Some 0" "newFParms exGenerator2 = Some 1"
  "pState exGenerator2 = Some \<lparr>periodF0 = Fin 100, periodLength = Fin 80,
                                openPhaseLength = Fin 56, positionInPeriod = Fin 2\<rparr>"
  "wellFormed exGenerator2" "\<not> needsNewPeriod exGenerator2"
  "fst (generateFrame exHeap 1 [0] exGenerator1) = None"
proof -
  obtain v s2 where g: "generateFrame exHeap 1 [0] exGenerator1 =
       (None, (s2\<lparr>pState := Some \<lparr>periodF0 = Fin 100, periodLength = Fin 80,
                                   openPhaseLength = Fin 56, positionInPeriod = Fin 2\<rparr>,
                  absPosition := absPosition exGenerator1 + 1\<rparr>, [v]))"
    and same: "sameSetup (exGenerator1\<lparr>newFParms := Some 1\<rparr>) s2"
    using generateFrame_mid_one [OF exGenerator1_fields(5,4,3), of 1 exHeap 0]
    by (auto simp: exGenerator1_fields(1) number_defs)
  have e: "exGenerator2 = s2\<lparr>pState := Some \<lparr>periodF0 = Fin 100, periodLength = Fin 80,
                                   openPhaseLength = Fin 56, positionInPeriod = Fin 2\<rparr>,
                  absPosition := absPosition exGenerator1 + 1\<rparr>"
    using g by (simp add: exGenerator2_def)
  have wf: "wellFormed (exGenerator1\<lparr>newFParms := Some 1\<rparr>)"
    using exGenerator1_fields(4) by simp
  have wf2: "wellFormed s2" using sameSetup_wellFormed [OF same] wf by simp
  show "fParms exGenerator2 = Some 0"
    unfolding e using sameSetup_fields(1) [OF same] exGenerator1_fields(1) by simp
  show "newFParms exGenerator2 = Some 1"
    unfolding e using sameSetup_fields(5) [OF same] by simp
  show "pState exGenerator2 = Some \<lparr>periodF0 = Fin 100, periodLength = Fin 80,
                                openPhaseLength = Fin 56, positionInPeriod = Fin 2\<rparr>"
    unfolding e by simp
  show "wellFormed exGenerator2"
    unfolding e using wf2 sameSetup_fields(1) [OF same] exGenerator1_fields(1)
    by (simp add: wellFormed_def split: GlottalSourceFn.splits)
  show "\<not> needsNewPeriod exGenerator2" unfolding e by (simp add: needsNewPeriod_def)
  show "fst (generateFrame exHeap 1 [0] exGenerator1) = None" using g by simp
qed

lemma ex_second_call:
  "fst (generateFrame exHeap 1 [0] exGenerator2) = None"
  using generateFrame_mid_one [OF exGenerator2_fields(5,4,3), of 1 exHeap 0]
  by (auto simp: exGenerator2_fields(1))

text \<open>The example after its first sample, whose active parameters are those of reference 0.\<close>

theorem generateFrame_reuse_check_witness:
  "fParms exGenerator1 = Some 0
   \<and> generateFrame exHeap 0 [] exGenerator1 = (Some FrameParmsReused, (exGenerator1, []))
   \<and> fParms exGenerator1 \<noteq> Some 1
   \<and> fst (generateFrame exHeap 1 [0] exGenerator1) \<noteq> Some FrameParmsReused
   \<and> needsNewPeriod exGenerator
   \<and> generateFrame exHeap 0 [0] exGenerator
       = (None, (exGenerator1, snd (snd (generateFrame exHeap 0 [0] exGenerator))))
   \<and> generateFrame exHeap 0 [0, 0] exGenerator1 = (Some FrameParmsReused, (exGenerator1, [0, 0]))"
proof -
  have a: "fParms exGenerator1 = Some 0" by (rule exGenerator1_fields(1))
  have b: "fParms exGenerator1 \<noteq> Some 1" by (simp add: exGenerator1_fields(1))
  have c: "needsNewPeriod exGenerator" by (simp add: needsNewPeriod_def exGenerator_fields)
  have d: "generateFrame exHeap 0 [0] exGenerator
       = (None, (exGenerator1, snd (snd (generateFrame exHeap 0 [0] exGenerator))))"
    using exGenerator1_fields(6) by (simp add: prod_eq_iff exGenerator1_def)
  have 1: "generateFrame exHeap 0 [] exGenerator1 = (Some FrameParmsReused, (exGenerator1, []))"
    using generateFrame_reuse_check [of exGenerator1 0 exHeap "[]"] a by simp
  have 2: "fst (generateFrame exHeap 1 [0] exGenerator1) \<noteq> Some FrameParmsReused"
    using generateFrame_reuse_check [of exGenerator1 1 exHeap "[0]"] b by simp
  have 3: "generateFrame exHeap 0 [0, 0] exGenerator1 = (Some FrameParmsReused, (exGenerator1, [0, 0]))"
    using generateFrame_reuse_check [of exGenerator 0 exHeap "[0]" exGenerator1
        "snd (snd (generateFrame exHeap 0 [0] exGenerator))" "[0, 0]"] c d by simp
  from a 1 b 2 c d 3 show ?thesis by simp
qed


text \<open>
  Claim C4 as stated fails in both directions. The second sample of the example is
  generated by a call with the parameters of reference 1, in the middle of a period, so
  they stay pending. A next call with the same parameters raises no error; and a call
  with the parameters of reference 0, distinct from the ones of the preceding call but
  still active, raises \<open>FrameParmsReused\<close>.
\<close>

theorem generateFrame_preceding_call_counterexample:
  "fst (generateFrame exHeap 1 [0] exGenerator1) = None
   \<and> exGenerator2 = fst (snd (generateFrame exHeap 1 [0] exGenerator1))
   \<and> fst (generateFrame exHeap 1 [0] exGenerator2) = None
   \<and> generateFrame exHeap 0 [0] exGenerator2 = (Some FrameParmsReused, (exGenerator2, [0]))"
proof -
  have "generateFrame exHeap 0 [0] exGenerator2 = (Some FrameParmsReused, (exGenerator2, [0]))"
    by (simp add: generateFrame_def exGenerator2_fields(1))
  moreover have "exGenerator2 = fst (snd (generateFrame exHeap 1 [0] exGenerator1))"
    by (simp add: exGenerator2_def)
  ultimately show ?thesis
    using exGenerator2_fields(6) ex_second_call by blast
qed


text \<open>An empty buffer and parameters other than the active ones.\<close>

theorem generateFrame_empty_buffer_witness:
  "generateFrame exHeap 1 [] exGenerator1 = (None, (exGenerator1\<lparr>newFParms := Some 1\<rparr>, []))"
  using generateFrame_empty_buffer [of exHeap 1 exGenerator1] by (simp add: exGenerator1_fields(1))


text \<open>
  Claim C9 as stated fails for the active parameters: the call raises \<open>FrameParmsReused\<close>
  and the pending parameters are not recorded.
\<close>

theorem generateFrame_empty_buffer_counterexample:
  "generateFrame exHeap 0 [] exGenerator1 = (Some FrameParmsReused, (exGenerator1, []))
   \<and> newFParms (fst (snd (generateFrame exHeap 0 [] exGenerator1))) = None"
  by (simp add: generateFrame_def exGenerator1_fields(1,2))

text \<open>The example with the second formant at 2000 Hz, at the start of its first period.\<close>

lemma ex_startNewPeriod_F2:
  "fst (startNewPeriod exHeap (exGenerator\<lparr>newFParms := Some 2\<rparr>)) = None"
  "pState exGeneratorF2 =
     Some \<lparr>periodF0 = Fin 100, periodLength = Fin 80, openPhaseLength = Fin 56,
           positionInPeriod = Fin 0\<rparr>"
  "fParms exGeneratorF2 = Some 2"
  "nasalFormantPar exGeneratorF2 = Resonator_setMute (Resonator_new (Fin 8000))"
  "parallelBypassLin (fState exGeneratorF2) = Fin 0"
  "parallelVoicingLin (fState exGeneratorF2) = Fin 1"
  "aspirationSourcePar exGeneratorF2 = aspirationSourcePar exGenerator"
  "fricationSourcePar exGeneratorF2 = fricationSourcePar exGenerator"
  "differencingFilterPar exGeneratorF2 = DifferencingFilter_new"
  "random exGeneratorF2 = exRandom\<lparr>drawn := 1\<rparr>"
  by (simp_all add: exGeneratorF2_def period_defs binding_defs ex_defs new_defs upt_0_6 Let_def number_defs
      Resonator_set_def adjustPeakGain_def Math_PI_def)


lemma ex_oralFormantPar_F2:
  "length (oralFormantPar exGeneratorF2) = maxOralFormants"
  "fst (Resonator_step x (oralFormantPar exGeneratorF2 ! 0)) = Fin 0"
  "fst (Resonator_step (Fin u) (oralFormantPar exGeneratorF2 ! 1))
     = Fin ((1 - exp (- (pi / 80))) / sqrt 2 * u)"
  "fst (Resonator_step x (oralFormantPar exGeneratorF2 ! 2)) = Fin 0"
  "fst (Resonator_step x (oralFormantPar exGeneratorF2 ! 3)) = Fin 0"
  "fst (Resonator_step x (oralFormantPar exGeneratorF2 ! 4)) = Fin 0"
  "fst (Resonator_step x (oralFormantPar exGeneratorF2 ! 5)) = Fin 0"
  by (simp_all add: exGeneratorF2_def period_defs binding_defs ex_defs new_defs upt_0_6 Let_def number_defs
      Resonator_set_def adjustPeakGain_def Math_PI_def Resonator_step_def maxOralFormants_def
      upt_0_6 [unfolded maxOralFormants_def])

lemma ex_noise:
  assumes "draws rnd (drawn rnd) = 1 / 2"
  shows "LpNoiseSource_getNext (aspirationSourcePar exGenerator) rnd
           = (Fin 0, aspirationSourcePar exGenerator, rnd\<lparr>drawn := Suc (drawn rnd)\<rparr>)"
    "LpNoiseSource_getNext (fricationSourcePar exGenerator) rnd
           = (Fin 0, fricationSourcePar exGenerator, rnd\<lparr>drawn := Suc (drawn rnd)\<rparr>)"
  using Generator_new_sources(3,4) [OF exGenerator] assms
  by (simp_all add: exMainParms_def LpNoiseSource_getNext_silent)

lemma ex_fState_F2:
  "parallelAspirationLin (fState exGeneratorF2) = Fin (10 powr - (5 / 4))"
  "fricationLin (fState exGeneratorF2) = Fin (10 powr - (3 / 2))"
  by (simp_all add: exGeneratorF2_def period_defs binding_defs ex_defs new_defs upt_0_6 Let_def number_defs
      Resonator_set_def adjustPeakGain_def Math_PI_def)

lemma ex_parallelSource_F2:
  "parallelSource (exHeap 2)
     \<lparr>periodF0 = Fin 100, periodLength = Fin 80, openPhaseLength = Fin 56,
      positionInPeriod = Fin 0\<rparr> (Fin v) exGeneratorF2
     = (Fin v, aspirationSourcePar exGenerator, exRandom\<lparr>drawn := 2\<rparr>)"
  "parallelSource2 (exHeap 2)
     \<lparr>periodF0 = Fin 100, periodLength = Fin 80, openPhaseLength = Fin 56,
      positionInPeriod = Fin 0\<rparr> (Fin v) (exRandom\<lparr>drawn := 2\<rparr>) exGeneratorF2
     = (Fin v, \<lparr>df_x1 = Fin v\<rparr>, fricationSourcePar exGenerator, exRandom\<lparr>drawn := 3\<rparr>)"
  by (simp_all add: parallelSource_def parallelSource2_def ex_startNewPeriod_F2 ex_fState_F2
      ex_noise exRandom_def Let_def number_defs DifferencingFilter_step_def
      DifferencingFilter_new_def)

lemma ex_nasalFormantPar_F2:
  "fst (Resonator_step x (nasalFormantPar exGeneratorF2)) = Fin 0"
  by (simp add: ex_startNewPeriod_F2 Resonator_step_def Resonator_setMute_def Resonator_new_def
      number_defs)

lemma ex_parallelSum_F2:
  "parallelSum (\<lambda>i. Fin ((- 1) ^ i)) (Fin 1) (Fin 1) exGeneratorF2
     = Fin (- ((1 - exp (- (pi / 80))) / sqrt 2))"
  "parallelSum (\<lambda>i. Fin ((- 1) ^ (i + 1))) (Fin 1) (Fin 1) exGeneratorF2
     = Fin ((1 - exp (- (pi / 80))) / sqrt 2)"
proof -
  have m: "(exp (- (pi / 80)) - 1) / sqrt 2 = - ((1 - exp (- (pi / 80))) / sqrt 2)"
    by (simp add: field_simps)
  show "parallelSum (\<lambda>i. Fin ((- 1) ^ i)) (Fin 1) (Fin 1) exGeneratorF2
     = Fin (- ((1 - exp (- (pi / 80))) / sqrt 2))"
    by (simp add: parallelSum_def upt_1_6 ex_oralFormantPar_F2 ex_startNewPeriod_F2(5)
        ex_nasalFormantPar_F2 m del: One_nat_def)
  show "parallelSum (\<lambda>i. Fin ((- 1) ^ (i + 1))) (Fin 1) (Fin 1) exGeneratorF2
     = Fin ((1 - exp (- (pi / 80))) / sqrt 2)"
    by (simp add: parallelSum_def upt_1_6 ex_oralFormantPar_F2 ex_startNewPeriod_F2(5)
        ex_nasalFormantPar_F2 del: One_nat_def)
qed


text \<open>The parallel branch of the example with the second formant, on the voice 1.\<close>

theorem computeParallelBranch_sum_witness:
  "length (oralFormantPar exGeneratorF2) = maxOralFormants
   \<and> fst (computeParallelBranch (exHeap 2)
            \<lparr>periodF0 = Fin 100, periodLength = Fin 80, openPhaseLength = Fin 56,
             positionInPeriod = Fin 0\<rparr> (Fin 1) exGeneratorF2)
       = Inr (Fin (- ((1 - exp (- (pi / 80))) / sqrt 2)))"
  using computeParallelBranch_sum [OF ex_oralFormantPar_F2(1), of "exHeap 2"
      "\<lparr>periodF0 = Fin 100, periodLength = Fin 80, openPhaseLength = Fin 56,
        positionInPeriod = Fin 0\<rparr>" "Fin 1"]
  by (simp add: ex_parallelSource_F2 ex_parallelSum_F2 ex_oralFormantPar_F2(1))


text \<open>
  Claim C2 as stated fails. In the example only the second parallel formant filter
  (\<open>oral[1]\<close>, F2) is active, the noise sources are silent and the bypass is 0; on the
  voice 1 both \<open>source\<close> and \<open>source2\<close> are 1 and the filter returns
  \<open>a = (1 - exp(-\<pi>/80)) / sqrt 2 > 0\<close>. The code returns \<open>-a\<close>; the sum with the signs
  \<open>(-1)^(i+1)\<close> is \<open>+a\<close>.
\<close>

theorem computeParallelBranch_sign_counterexample:
  "parallelEnabled (exHeap 2)
   \<and> pState exGeneratorF2 =
       Some \<lparr>periodF0 = Fin 100, periodLength = Fin 80, openPhaseLength = Fin 56,
             positionInPeriod = Fin 0\<rparr>
   \<and> fst (parallelSource (exHeap 2)
            \<lparr>periodF0 = Fin 100, periodLength = Fin 80, openPhaseLength = Fin 56,
             positionInPeriod = Fin 0\<rparr> (Fin 1) exGeneratorF2) = Fin 1
   \<and> fst (parallelSource2 (exHeap 2)
            \<lparr>periodF0 = Fin 100, periodLength = Fin 80, openPhaseLength = Fin 56,
             positionInPeriod = Fin 0\<rparr> (Fin 1) (exRandom\<lparr>drawn := 2\<rparr>) exGeneratorF2) = Fin 1
   \<and> fst (computeParallelBranch (exHeap 2)
            \<lparr>periodF0 = Fin 100, periodLength = Fin 80, openPhaseLength = Fin 56,
             positionInPeriod = Fin 0\<rparr> (Fin 1) exGeneratorF2)
       = Inr (Fin (- ((1 - exp (- (pi / 80))) / sqrt 2)))
   \<and> parallelSum (\<lambda>i. Fin ((- 1) ^ (i + 1))) (Fin 1) (Fin 1) exGeneratorF2
       = Fin ((1 - exp (- (pi / 80))) / sqrt 2)
   \<and> Fin (- ((1 - exp (- (pi / 80))) / sqrt 2)) \<noteq> Fin ((1 - exp (- (pi / 80))) / sqrt 2)"
proof -
  let ?ps = "\<lparr>periodF0 = Fin 100, periodLength = Fin 80, openPhaseLength = Fin 56,
             positionInPeriod = Fin 0\<rparr>"
  have e: "exp (- (pi / 80)) < 1" using pi_gt_zero by simp
  have ne: "Fin (- ((1 - exp (- (pi / 80))) / sqrt 2)) \<noteq> Fin ((1 - exp (- (pi / 80))) / sqrt 2)"
    using e by simp
  have en: "parallelEnabled (exHeap 2)" by (simp add: ex_defs)
  have c: "fst (computeParallelBranch (exHeap 2) ?ps (Fin 1) exGeneratorF2)
       = Inr (Fin (- ((1 - exp (- (pi / 80))) / sqrt 2)))"
    using computeParallelBranch_value [OF ex_oralFormantPar_F2(1), of "exHeap 2" ?ps "Fin 1"]
    by (simp add: ex_parallelSource_F2 ex_parallelSum_F2)
  show ?thesis
    using ne en c ex_parallelSum_F2(2) ex_startNewPeriod_F2(2)
    by (simp add: ex_parallelSource_F2)
qed

text \<open>A sound of one frame of two samples.\<close>

lemma ex_two_samples:
  "\<exists>g' fb'. generateFrame exHeap 0 [0, 0] exGenerator = (None, (g', fb'))"
proof -
  let ?s = "exGenerator\<lparr>newFParms := Some 0\<rparr>"
  let ?s1 = "snd (startNewPeriod exHeap ?s)"
  let ?ps = "\<lparr>periodF0 = Fin 100, periodLength = Fin 80, openPhaseLength = Fin 56,
              positionInPeriod = Fin 0\<rparr>"
  have n: "needsNewPeriod ?s" by (simp add: needsNewPeriod_def exGenerator_fields)
  have s1: "startNewPeriod exHeap ?s = (None, ?s1)"
    using ex_startNewPeriod(1) by (simp add: prod_eq_iff)
  obtain v s2 where b0: "generateFrame_body exHeap 0 (?s, [0, 0]) =
           (None, (s2\<lparr>pState := Some (?ps\<lparr>positionInPeriod := positionInPeriod ?ps + 1\<rparr>),
                      absPosition := absPosition ?s1 + 1\<rparr>, [0, 0][0 := v]))"
    and same: "sameSetup ?s1 s2"
    using generateFrame_body_boundary [OF n s1 ex_wellFormed1 ex_startNewPeriod(2), of 0 "[0, 0]"]
    by blast
  let ?t = "s2\<lparr>pState := Some (?ps\<lparr>positionInPeriod := positionInPeriod ?ps + 1\<rparr>),
                absPosition := absPosition ?s1 + 1\<rparr>"
  have wf2: "wellFormed s2" using sameSetup_wellFormed [OF same] ex_wellFormed1 by simp
  have fp: "fParms s2 \<noteq> None"
    using sameSetup_fields(1,4) [OF same] ex_wellFormed1 ex_startNewPeriod(2)
    by (auto simp: wellFormed_def)
  have wft: "wellFormed ?t"
    using wf2 fp by (simp add: wellFormed_def split: GlottalSourceFn.splits)
  have nt: "\<not> needsNewPeriod ?t" by (simp add: needsNewPeriod_def number_defs)
  obtain v' s3 where b1: "generateFrame_body exHeap 1 (?t, [0, 0][0 := v]) =
      (None, (s3\<lparr>pState := Some ((?ps\<lparr>positionInPeriod := positionInPeriod ?ps + 1\<rparr>)
                                     \<lparr>positionInPeriod :=
                                        positionInPeriod (?ps\<lparr>positionInPeriod := positionInPeriod ?ps + 1\<rparr>) + 1\<rparr>),
                 absPosition := absPosition ?t + 1\<rparr>, ([0, 0][0 := v])[1 := v']))"
    using generateFrame_body_mid_ok [OF nt wft, of _ exHeap 1 "[0, 0][0 := v]"] by auto
  have u: "[0..<length [0::number, 0]] = [0, 1]" by (simp add: upt_rec)
  have fp0: "fParms exGenerator \<noteq> Some 0" by (simp add: exGenerator_fields)
  have "generateFrame exHeap 0 [0, 0] exGenerator =
          forEach [0, 1] (generateFrame_body exHeap) (?s, [0, 0])"
    by (simp only: generateFrame_def fp0 if_False u)
  also have "fst \<dots> = None"
    by (simp only: forEach.simps andThen_def b0 b1 prod.case option.case fst_conv)
  finally show ?thesis by (cases "generateFrame exHeap 0 [0, 0] exGenerator") auto
qed

text \<open>
  A frame of 0.3 s at 11025 Hz. The double nearest to 0.3 is \<open>5404319552844595 / 2^54\<close>;
  its exact product with 11025 is a little less than 3307.5 and rounds to the double
  3307.5, so that the frame has 3308 samples, where the rounding of the exact product
  gives 3307.
\<close>

lemma nearestDouble_example:
  "nearestDouble (5404319552844595 / 2 ^ 54 * 11025) = 6615 / 2"
proof -
  let ?x = "5404319552844595 / 2 ^ 54 * 11025 :: real"
  have e: "binaryExponent ?x = 11"
    by (rule binaryExponent_eq) simp_all
  have f: "\<lfloor>?x / 2 powi (11 - 52)\<rfloor> = 7273269417738239" by simp
  have "roundHalfEven (?x / 2 powi (11 - 52)) = 7273269417738240"
    unfolding roundHalfEven_def f by simp
  then show ?thesis
    unfolding nearestDouble_def e by simp
qed

lemma frameSamples_example:
  "frameSamples (5404319552844595 / 2 ^ 54) 11025 = 3308"
  "\<lfloor>5404319552844595 / 2 ^ 54 * 11025 + 1 / 2 :: real\<rfloor> = 3307"
  unfolding frameSamples_def nearestDouble_example by simp_all

lemma frameLen_example:
  "frameLen (\<lambda>r. exFrame\<lparr>duration := Fin (5404319552844595 / 2 ^ 54)\<rparr>)
     \<lparr>sampleRate = Fin 11025, glottalSourceType = natural\<rparr> 0 = Fin 3308"
proof -
  let ?mp = "\<lparr>sampleRate = Fin 11025, glottalSourceType = natural\<rparr>"
  let ?H = "\<lambda>r::FrameParmsRef. exFrame\<lparr>duration := Fin (5404319552844595 / 2 ^ 54)\<rparr>"
  have b: "\<bar>frameSamples (5404319552844595 / 2 ^ 54) 11025\<bar> \<le> 2 ^ 53"
    unfolding frameSamples_example(1) by simp
  have sr: "sampleRate ?mp = Fin 11025" by simp
  have du: "duration (?H 0) = Fin (5404319552844595 / 2 ^ 54)" by simp
  show ?thesis
    using frameLen_finite [of ?mp 11025 ?H 0 "5404319552844595 / 2 ^ 54", OF sr du b]
    unfolding frameSamples_example(1) by simp
qed

text \<open>
  A frame of 0.015 s (the double \<open>1080863910568919 / 2^56\<close>) at 44100 Hz: 662 samples,
  where the rounding of the exact product gives 661.
\<close>

lemma nearestDouble_example2:
  "nearestDouble (1080863910568919 / 2 ^ 56 * 44100) = 1323 / 2"
proof -
  let ?x = "1080863910568919 / 2 ^ 56 * 44100 :: real"
  have e: "binaryExponent ?x = 9"
    by (rule binaryExponent_eq) simp_all
  have f: "\<lfloor>?x / 2 powi (9 - 52)\<rfloor> = 5818615534190591" by simp
  have "roundHalfEven (?x / 2 powi (9 - 52)) = 5818615534190592"
    unfolding roundHalfEven_def f by simp
  then show ?thesis
    unfolding nearestDouble_def e by simp
qed

lemma frameSamples_example2:
  "frameSamples (1080863910568919 / 2 ^ 56) 44100 = 662"
  "\<lfloor>1080863910568919 / 2 ^ 56 * 44100 + 1 / 2 :: real\<rfloor> = 661"
  unfolding frameSamples_def nearestDouble_example2 by simp_all

text \<open>A sound of one frame of two samples.\<close>

lemma ex_frameSamples: "frameSamples (1 / 4000) 8000 = 2"
  using nearestDouble_of_int [of 2] by (simp add: frameSamples_def)

lemma ex_frameLen: "frameLen exHeap exMainParms 0 = Fin 2"
  using frameLen_finite [of exMainParms 8000 exHeap 0 "1 / 4000"]
  by (simp add: ex_frameSamples ex_defs)

lemma ex_plus_double:
  "plus_double 0 (Fin 2) = Fin 2" "plus_double (Fin 2) (Fin 2) = Fin 4"
  using plus_double_of_int [of 0 2] plus_double_of_int [of 2 2]
  by (simp_all add: zero_number_def)

lemma ex_subarray:
  "subarray 0 (Fin 2) n = (0, min 2 n)"
  "subarray (Fin 2) (Fin 4) n = (min 2 n, min 4 n - min 2 n)"
  by (simp_all add: subarray_def relativeIndex_def trunc_def Let_def zero_number_def)

lemma ex_sound:
  "\<exists>buf. generateSound exHeap exMainParms [0] exRandom = Inr buf"
proof -
  obtain g' fb' where gf: "generateFrame exHeap 0 [0, 0] exGenerator = (None, (g', fb'))"
    using ex_two_samples by blast
  have a: "Float64Array_new (Fin 2) = Inr [0, 0]"
    by (simp add: Float64Array_new_def trunc_def numeral_2_eq_2)
  have "generateSound exHeap exMainParms [0] exRandom = Inr (fb' @ [])"
    by (simp add: generateSound_def exGenerator generateSound_outBufLen_def ex_frameLen
        ex_plus_double a ex_subarray gf)
  then show ?thesis by blast
qed


theorem generateSound_length_witness:
  "generateSound exHeap exMainParms [0] exRandom
     = Inr (projr (generateSound exHeap exMainParms [0] exRandom))
   \<and> sampleRate exMainParms = Fin 8000 \<and> duration (exHeap 0) = Fin (1 / 4000)
   \<and> length (projr (generateSound exHeap exMainParms [0] exRandom)) = 2
   \<and> framesOutput exHeap exMainParms [0] exGenerator
       = generateSound exHeap exMainParms [0] exRandom"
proof -
  let ?buf = "projr (generateSound exHeap exMainParms [0] exRandom)"
  have s: "generateSound exHeap exMainParms [0] exRandom = Inr ?buf"
    using ex_sound by auto
  have sr: "sampleRate exMainParms = Fin 8000" by (simp add: ex_defs)
  have d: "\<forall>r \<in> set [0]. duration (exHeap r) = Fin ((\<lambda>r. 1 / 4000) r)" by (simp add: ex_defs)
  from generateSound_length [OF s sr d]
  have "int (length ?buf) = 2"
    and "framesOutput exHeap exMainParms [0] exGenerator = Inr ?buf"
    by (simp_all add: exGenerator ex_frameSamples)
  with s sr d show ?thesis by simp
qed


text \<open>
  Claim C5 as stated fails: \<open>generateSound\<close> does not return for every positive sample
  rate and every list of frames. At 1000 Hz the constructor of the generator throws (the
  noise sources need more than 2000 Hz), and a list with the same frame object twice in
  succession throws \<open>FrameParmsReused\<close> at the second frame.
\<close>

theorem generateSound_throws_counterexample:
  "(0::real) < 1000
   \<and> generateSound exHeap \<lparr>sampleRate = Fin 1000, glottalSourceType = natural\<rparr> [0] exRandom
       = Inl InvalidFilterParameters
   \<and> generateSound exHeap exMainParms [0, 0] exRandom = Inl FrameParmsReused"
proof -
  have "Generator_new \<lparr>sampleRate = Fin 1000, glottalSourceType = natural\<rparr> exRandom
          = Inl InvalidFilterParameters"
    using Resonator_set_output_ok [of 1000] LpNoiseSource_new_bad [of 1000]
    by (auto simp: Generator_new_def Let_def initGlottalSource_def natural_def impulsive_def
        split: prod.splits option.splits)
  then have 1: "generateSound exHeap \<lparr>sampleRate = Fin 1000, glottalSourceType = natural\<rparr> [0]
      exRandom = Inl InvalidFilterParameters"
    by (simp add: generateSound_def)
  obtain g' fb' where gf: "generateFrame exHeap 0 [0, 0] exGenerator = (None, (g', fb'))"
    using ex_two_samples by blast
  have n: "needsNewPeriod exGenerator" by (simp add: needsNewPeriod_def exGenerator_fields)
  have fp: "fParms g' = Some 0" using generateFrame_adopts [OF gf n] by simp
  have l: "length fb' = 2" using generateFrame_length [OF gf] by simp
  have a: "Float64Array_new (Fin 4) = Inr [0, 0, 0, 0]"
    by (simp add: Float64Array_new_def trunc_def eval_nat_numeral)
  have r: "generateFrame exHeap 0 buf g' = (Some FrameParmsReused, (g', buf))" for buf
    using fp by (simp add: generateFrame_def)
  have 2: "generateSound exHeap exMainParms [0, 0] exRandom = Inl FrameParmsReused"
    by (simp add: generateSound_def exGenerator generateSound_outBufLen_def ex_frameLen
        ex_plus_double a ex_subarray gf l r)
  from 1 2 show ?thesis by simp
qed

end
